(* ===== verification/Arch_Prelude.thy ===== *)
theory Arch_Prelude
  imports Main "HOL-Library.Word" "HOL-Library.Numeral_Type" "HOL-Library.Type_Length"
    "HOL-Library.List_Lexorder" "HOL-Library.Multiset"
begin

text \<open>
  Shared ground of the development: the machine types of the Go sources, Go errors as values,
  Go's fixed-size byte arrays \<open>[N]byte\<close> as a type, the little-endian encoders of
  \<open>encoding/binary\<close>, and the interface every binary encoding of the SDK satisfies
  (locale \<open>byte_codec\<close>: a decoder that returns the unread bytes undoes the encoder).
\<close>

section \<open>Machine types and errors\<close>

unbundle bit_operations_syntax

type_synonym byte = "8 word"
type_synonym u8 = "8 word"
type_synonym u32 = "32 word"
type_synonym u64 = "64 word"

named_theorems layout_simps \<open>sizes of encoded values\<close>
named_theorems codec_simps \<open>decoders applied to encoded values\<close>

text \<open>
  A Go error is kept as the format string of the \<open>fmt.Errorf\<close> that made it together with the
  formatted arguments; \<open>%w\<close> wraps another error. Errors that a library returns keep the
  library's own name.
\<close>

datatype fmt_arg = FInt int | FStr string | FBytes "byte list"

datatype go_error =
    Errorf string "fmt_arg list"
  | WrapErr string go_error
  | InvalidByteError byte
  | ErrLength
  | External string
  | RPCErr int string

type_synonym 'a result = "go_error + 'a"

definition bytes_of_string :: "string \<Rightarrow> byte list" where
  "bytes_of_string s = map of_char s"

lemma length_bytes_of_string [simp]: "length (bytes_of_string s) = length s"
  by (simp add: bytes_of_string_def)

section \<open>Fixed-size byte arrays\<close>

typedef (overloaded) ('n::len) byte_array = "{xs :: byte list. length xs = LENGTH('n)}"
  morphisms bytes_of Byte_Array
  by (rule exI [of _ "replicate LENGTH('n) 0"]) simp

lemma Byte_Array_bytes_of [code abstype]: "Byte_Array (bytes_of a) = a"
  by (rule bytes_of_inverse)

lemma length_bytes_of [simp, layout_simps]: "length (bytes_of (a :: 'n::len byte_array)) = LENGTH('n)"
  using bytes_of [of a] by simp

lemma bytes_of_eq_iff: "bytes_of a = bytes_of b \<longleftrightarrow> a = b"
  by (rule bytes_of_inject)

text \<open>
  \<open>var a [N]byte; copy(a[:], b)\<close>: the first \<open>N\<close> bytes of \<open>b\<close>, the rest of the zero value kept.
\<close>

definition copy_into :: "byte list \<Rightarrow> 'n::len byte_array" where
  "copy_into b = Byte_Array (take LENGTH('n) (b @ replicate LENGTH('n) 0))"

lemma bytes_of_copy_into [code abstract]:
  "bytes_of (copy_into b :: 'n::len byte_array) = take LENGTH('n) (b @ replicate LENGTH('n) 0)"
  by (simp add: copy_into_def Byte_Array_inverse)

lemma bytes_of_copy_into_exact [simp]:
  "length b = LENGTH('n) \<Longrightarrow> bytes_of (copy_into b :: 'n::len byte_array) = b"
  by (simp add: bytes_of_copy_into)

lemma copy_into_bytes_of [simp]: "copy_into (bytes_of a) = (a :: 'n::len byte_array)"
  by (simp flip: bytes_of_eq_iff)

lemma copy_into_inject:
  assumes "length b = LENGTH('n)" and "length c = LENGTH('n)"
  shows "(copy_into b :: 'n::len byte_array) = copy_into c \<longleftrightarrow> b = c"
  using assms by (simp flip: bytes_of_eq_iff)

instantiation byte_array :: (len) equal
begin

definition equal_byte_array :: "'a byte_array \<Rightarrow> 'a byte_array \<Rightarrow> bool" where
  "equal_byte_array a b \<longleftrightarrow> bytes_of a = bytes_of b"

instance
  by standard (simp add: equal_byte_array_def bytes_of_eq_iff)

end

text \<open>Arrays are ordered as \<open>bytes.Compare\<close> orders their contents.\<close>

instantiation byte_array :: (len) linorder
begin

definition less_eq_byte_array :: "'a byte_array \<Rightarrow> 'a byte_array \<Rightarrow> bool" where
  "less_eq_byte_array a b \<longleftrightarrow> bytes_of a \<le> bytes_of b"

definition less_byte_array :: "'a byte_array \<Rightarrow> 'a byte_array \<Rightarrow> bool" where
  "less_byte_array a b \<longleftrightarrow> bytes_of a < bytes_of b"

instance
proof
  fix x y z :: "'a byte_array"
  show "x < y \<longleftrightarrow> x \<le> y \<and> \<not> y \<le> x"
    by (auto simp: less_eq_byte_array_def less_byte_array_def)
  show "x \<le> x"
    by (simp add: less_eq_byte_array_def)
  show "x \<le> y \<Longrightarrow> y \<le> z \<Longrightarrow> x \<le> z"
    by (auto simp: less_eq_byte_array_def)
  show "x \<le> y \<Longrightarrow> y \<le> x \<Longrightarrow> x = y"
    by (simp add: less_eq_byte_array_def flip: bytes_of_eq_iff)
  show "x \<le> y \<or> y \<le> x"
    by (auto simp: less_eq_byte_array_def)
qed

end

text \<open>The standard library's \<open>bytes.Compare\<close>, byte by byte.\<close>

fun bytes_Compare :: "byte list \<Rightarrow> byte list \<Rightarrow> int" where
  "bytes_Compare [] [] = 0"
| "bytes_Compare [] (y # ys) = - 1"
| "bytes_Compare (x # xs) [] = 1"
| "bytes_Compare (x # xs) (y # ys) =
     (if x < y then - 1 else if y < x then 1 else bytes_Compare xs ys)"

lemma bytes_Compare_less: "bytes_Compare xs ys < 0 \<longleftrightarrow> xs < ys"
  by (induction xs ys rule: bytes_Compare.induct) auto

lemma byte_array_less_Compare:
  "a < b \<longleftrightarrow> bytes_Compare (bytes_of a) (bytes_of b) < 0"
  by (simp add: less_byte_array_def bytes_Compare_less)

section \<open>Little-endian integers\<close>

text \<open>\<open>binary.LittleEndian.AppendUint32\<close> and \<open>AppendUint64\<close>.\<close>

definition le_bytes32 :: "u32 \<Rightarrow> byte list" where
  "le_bytes32 v = [ucast v, ucast (drop_bit 8 v), ucast (drop_bit 16 v), ucast (drop_bit 24 v)]"

definition le_bytes64 :: "u64 \<Rightarrow> byte list" where
  "le_bytes64 v =
     [ucast v, ucast (drop_bit 8 v), ucast (drop_bit 16 v), ucast (drop_bit 24 v),
      ucast (drop_bit 32 v), ucast (drop_bit 40 v), ucast (drop_bit 48 v), ucast (drop_bit 56 v)]"

definition AppendUint32 :: "byte list \<Rightarrow> u32 \<Rightarrow> byte list" where
  "AppendUint32 b v = b @ le_bytes32 v"

definition AppendUint64 :: "byte list \<Rightarrow> u64 \<Rightarrow> byte list" where
  "AppendUint64 b v = b @ le_bytes64 v"

lemma length_le_bytes [simp, layout_simps]:
  "length (le_bytes32 v) = 4" "length (le_bytes64 w) = 8"
  by (simp_all add: le_bytes32_def le_bytes64_def)

text \<open>
  The inverse direction, used to state that an encoding loses nothing: the bytes of a word, least
  significant first, at any width.
\<close>

primrec le_bytes :: "nat \<Rightarrow> 'a::len word \<Rightarrow> byte list" where
  "le_bytes 0 v = []"
| "le_bytes (Suc n) v = ucast v # le_bytes n (drop_bit 8 v)"

primrec of_le_bytes :: "byte list \<Rightarrow> 'a::len word" where
  "of_le_bytes [] = 0"
| "of_le_bytes (b # bs) = ucast b OR push_bit 8 (of_le_bytes bs)"

lemma take_bit_le_step:
  "take_bit (8 + m) v = ucast (ucast v :: byte) OR push_bit 8 (take_bit m (drop_bit 8 v))"
  for v :: "'a::len word"
  by (rule bit_word_eqI) (auto simp: bit_simps not_less)

lemma of_le_bytes_le_bytes: "of_le_bytes (le_bytes n v) = take_bit (8 * n) (v :: 'a::len word)"
  by (induction n arbitrary: v) (simp_all flip: take_bit_le_step)

lemma of_le_bytes_le_bytes32: "of_le_bytes (le_bytes32 v) = v"
proof -
  have "le_bytes32 v = le_bytes 4 v"
    by (simp add: le_bytes32_def numeral_eq_Suc)
  then show ?thesis
    by (simp add: of_le_bytes_le_bytes take_bit_word_eq_self)
qed

lemma of_le_bytes_le_bytes64: "of_le_bytes (le_bytes64 v) = v"
proof -
  have "le_bytes64 v = le_bytes 8 v"
    by (simp add: le_bytes64_def numeral_eq_Suc)
  then show ?thesis
    by (simp add: of_le_bytes_le_bytes take_bit_word_eq_self)
qed

section \<open>The interface of a binary encoding\<close>

text \<open>
  Every binary format of the SDK is a concatenation of fields. A field encoding is sound when a
  decoder recovers the value and hands back exactly the bytes that follow it, for the values the
  format can represent (\<open>ok\<close>). Injectivity, prefix-freedom and the encoding of counted vectors
  follow once and for all.
\<close>

type_synonym 'a decoder = "byte list \<Rightarrow> ('a \<times> byte list) option"

fun dec_many :: "'a decoder \<Rightarrow> nat \<Rightarrow> 'a list decoder" where
  "dec_many dec 0 bs = Some ([], bs)"
| "dec_many dec (Suc n) bs =
     (case dec bs of None \<Rightarrow> None
      | Some (x, r) \<Rightarrow> (case dec_many dec n r of None \<Rightarrow> None
                       | Some (xs, r') \<Rightarrow> Some (x # xs, r')))"

definition dec_u8 :: "u8 decoder" where
  "dec_u8 bs = (case bs of [] \<Rightarrow> None | b # r \<Rightarrow> Some (b, r))"

definition dec_u32 :: "u32 decoder" where
  "dec_u32 bs = (if length bs < 4 then None else Some (of_le_bytes (take 4 bs), drop 4 bs))"

definition dec_u64 :: "u64 decoder" where
  "dec_u64 bs = (if length bs < 8 then None else Some (of_le_bytes (take 8 bs), drop 8 bs))"

definition dec_array :: "('n::len byte_array) decoder" where
  "dec_array bs =
     (if length bs < LENGTH('n) then None else Some (copy_into (take LENGTH('n) bs), drop LENGTH('n) bs))"

text \<open>A vector with a u32 count, and a byte string with a u64 length.\<close>

definition enc_vec32 :: "('a \<Rightarrow> byte list) \<Rightarrow> 'a list \<Rightarrow> byte list" where
  "enc_vec32 enc xs = le_bytes32 (word_of_nat (length xs)) @ concat (map enc xs)"

definition dec_vec32 :: "'a decoder \<Rightarrow> 'a list decoder" where
  "dec_vec32 dec bs =
     (case dec_u32 bs of None \<Rightarrow> None | Some (n, r) \<Rightarrow> dec_many dec (unat n) r)"

definition dec_bytes64 :: "byte list decoder" where
  "dec_bytes64 bs =
     (case dec_u64 bs of None \<Rightarrow> None | Some (n, r) \<Rightarrow> dec_many dec_u8 (unat n) r)"

abbreviation ok_vec32 :: "('a \<Rightarrow> bool) \<Rightarrow> 'a list \<Rightarrow> bool" where
  "ok_vec32 ok xs \<equiv> length xs < 2 ^ 32 \<and> list_all ok xs"

lemma unat_word_of_nat32: "n < 2 ^ 32 \<Longrightarrow> unat (word_of_nat n :: u32) = n"
  by (simp add: unat_of_nat)

lemma unat_word_of_nat64: "n < 2 ^ 64 \<Longrightarrow> unat (word_of_nat n :: u64) = n"
  by (simp add: unat_of_nat)

lemma unat_word_of_nat8: "n < 256 \<Longrightarrow> unat (word_of_nat n :: u8) = n"
  by (simp add: unat_of_nat)

lemma dec_u8_Cons [codec_simps]: "dec_u8 (b # r) = Some (b, r)"
  by (simp add: dec_u8_def)

lemma dec_u32_le_bytes32 [codec_simps]: "dec_u32 (le_bytes32 v @ r) = Some (v, r)"
  by (simp add: dec_u32_def of_le_bytes_le_bytes32)

lemma dec_u64_le_bytes64 [codec_simps]: "dec_u64 (le_bytes64 v @ r) = Some (v, r)"
  by (simp add: dec_u64_def of_le_bytes_le_bytes64)

lemma dec_array_bytes_of [codec_simps]: "dec_array (bytes_of a @ r) = Some (a, r)"
  by (simp add: dec_array_def)

locale byte_codec =
  fixes enc :: "'a \<Rightarrow> byte list"
    and dec :: "'a decoder"
    and ok :: "'a \<Rightarrow> bool"
  assumes dec_enc: "ok x \<Longrightarrow> dec (enc x @ r) = Some (x, r)"
begin

lemma dec_enc_Nil: "ok x \<Longrightarrow> dec (enc x) = Some (x, [])"
  using dec_enc [of x "[]"] by simp

lemma enc_append_inject:
  assumes "ok x" and "ok y" and "enc x @ r = enc y @ s"
  shows "x = y \<and> r = s"
proof -
  have "Some (x, r) = dec (enc y @ s)"
    using dec_enc [OF assms(1), of r] by (simp only: assms(3))
  also have "\<dots> = Some (y, s)"
    using assms(2) by (rule dec_enc)
  finally show ?thesis by simp
qed

lemma enc_inject: "ok x \<Longrightarrow> ok y \<Longrightarrow> enc x = enc y \<Longrightarrow> x = y"
  using enc_append_inject [of x y "[]" "[]"] by simp

lemma dec_many_enc:
  "list_all ok xs \<Longrightarrow> dec_many dec (length xs) (concat (map enc xs) @ r) = Some (xs, r)"
  by (induction xs) (simp_all add: dec_enc)

lemma dec_vec32_enc:
  "ok_vec32 ok xs \<Longrightarrow> dec_vec32 dec (enc_vec32 enc xs @ r) = Some (xs, r)"
  by (simp add: dec_vec32_def enc_vec32_def dec_u32_le_bytes32 dec_many_enc unat_word_of_nat32)

lemma vec32: "byte_codec (enc_vec32 enc) (dec_vec32 dec) (ok_vec32 ok)"
  by unfold_locales (rule dec_vec32_enc)

end

interpretation codec_u8: byte_codec "\<lambda>b. [b]" dec_u8 "\<lambda>_. True"
  by unfold_locales (simp add: codec_simps)

interpretation codec_u32: byte_codec le_bytes32 dec_u32 "\<lambda>_. True"
  by unfold_locales (simp add: codec_simps)

interpretation codec_u64: byte_codec le_bytes64 dec_u64 "\<lambda>_. True"
  by unfold_locales (simp add: codec_simps)

interpretation codec_array: byte_codec bytes_of dec_array "\<lambda>_. True"
  by unfold_locales (simp add: codec_simps)

lemma dec_many_u8 [codec_simps]: "dec_many dec_u8 (length bs) (bs @ r) = Some (bs, r)"
  using codec_u8.dec_many_enc [of bs r] by (simp add: list_all_iff)

lemma enc_vec32_bytes: "enc_vec32 (\<lambda>b. [b]) bs = le_bytes32 (word_of_nat (length bs)) @ bs"
  by (simp add: enc_vec32_def)

lemma length_concat_map_const:
  "(\<And>x. x \<in> set xs \<Longrightarrow> length (f x) = n) \<Longrightarrow> length (concat (map f xs)) = n * length xs"
  by (induction xs) auto

lemma dec_bytes64_enc [codec_simps]:
  "length bs < 2 ^ 64 \<Longrightarrow> dec_bytes64 (le_bytes64 (word_of_nat (length bs)) @ bs @ r) = Some (bs, r)"
  by (simp add: dec_bytes64_def dec_u64_le_bytes64 unat_word_of_nat64 dec_many_u8)

text \<open>Decoders in sequence.\<close>

definition dec_bind :: "'a decoder \<Rightarrow> ('a \<Rightarrow> 'b decoder) \<Rightarrow> 'b decoder" where
  "dec_bind d f bs = (case d bs of None \<Rightarrow> None | Some (x, r) \<Rightarrow> f x r)"

definition dec_return :: "'a \<Rightarrow> 'a decoder" where
  "dec_return x bs = Some (x, bs)"

definition dec_fail :: "'a decoder" where
  "dec_fail bs = None"

lemmas dec_seq_simps [codec_simps] = dec_bind_def dec_return_def

end
