(* ===== verification/Go_Hex.thy ===== *)
theory Go_Hex
  imports Arch_Prelude
begin

text \<open>
  The functions of Go's \<open>encoding/hex\<close> that the SDK calls: \<open>EncodeToString\<close> (lowercase) and
  \<open>DecodeString\<close> (either case, errors in the order the library reports them), with the round
  trips in both directions.
\<close>

section \<open>Encoding\<close>

definition hextable :: string where
  "hextable = ''0123456789abcdef''"

definition hex_byte :: "byte \<Rightarrow> string" where
  "hex_byte b = [hextable ! unat (drop_bit 4 b), hextable ! unat (b AND 15)]"

definition EncodeToString :: "byte list \<Rightarrow> string" where
  "EncodeToString src = concat (map hex_byte src)"

lemma length_EncodeToString [simp, layout_simps]: "length (EncodeToString bs) = 2 * length bs"
  by (simp add: EncodeToString_def hex_byte_def length_concat_map_const [where n = 2])

section \<open>Decoding\<close>

definition fromHexChar :: "char \<Rightarrow> byte option" where
  "fromHexChar c =
     (let n = of_char c :: nat in
      if 48 \<le> n \<and> n \<le> 57 then Some (word_of_nat (n - 48))
      else if 97 \<le> n \<and> n \<le> 102 then Some (word_of_nat (n - 87))
      else if 65 \<le> n \<and> n \<le> 70 then Some (word_of_nat (n - 55))
      else None)"

fun DecodeString :: "string \<Rightarrow> byte list result" where
  "DecodeString [] = Inr []"
| "DecodeString [p] =
     (case fromHexChar p of None \<Rightarrow> Inl (InvalidByteError (of_char p)) | Some _ \<Rightarrow> Inl ErrLength)"
| "DecodeString (p # q # s) =
     (case fromHexChar p of None \<Rightarrow> Inl (InvalidByteError (of_char p))
      | Some a \<Rightarrow> (case fromHexChar q of None \<Rightarrow> Inl (InvalidByteError (of_char q))
        | Some b \<Rightarrow> (case DecodeString s of Inl e \<Rightarrow> Inl e
          | Inr bs \<Rightarrow> Inr ((push_bit 4 a OR b) # bs))))"

definition hex_lower :: "char \<Rightarrow> char" where
  "hex_lower c =
     (let n = of_char c :: nat in if 65 \<le> n \<and> n \<le> 70 then char_of (n + 32) else c)"

section \<open>Round trips\<close>

lemma hextable_nth:
  assumes "n < 16"
  shows "hextable ! n = char_of (if n < 10 then 48 + n else 87 + n)"
proof -
  have "list_all (\<lambda>n. hextable ! n = char_of (if n < 10 then 48 + n else 87 + n)) [0..<16]"
    by code_simp
  with assms show ?thesis by (simp add: list_all_iff)
qed

lemma fromHexChar_hextable: "n < 16 \<Longrightarrow> fromHexChar (hextable ! n) = Some (word_of_nat n)"
  by (auto simp: fromHexChar_def hextable_nth)

lemma nibble_bounds: "unat (drop_bit 4 b) < 16" "unat (b AND 15) < 16" for b :: byte
proof -
  have "unat b < 256"
    using unsigned_less [of b] by simp
  then show "unat (drop_bit 4 b) < 16"
    by (simp add: drop_bit_eq_div unat_div)
  have "b AND 15 = take_bit 4 b"
    by (simp add: take_bit_eq_mask mask_eq_exp_minus_1)
  then show "unat (b AND 15) < 16"
    by (simp add: take_bit_eq_mod unat_mod)
qed

lemma EncodeToString_digits: "set (EncodeToString bs) \<subseteq> set ''0123456789abcdef''"
proof -
  have "hextable ! n \<in> set hextable" if "n < 16" for n
    using that by (intro nth_mem) (simp add: hextable_def)
  then show ?thesis
    using nibble_bounds by (auto simp: EncodeToString_def hex_byte_def hextable_def)
qed

lemma nibbles_join: "push_bit 4 (drop_bit 4 b) OR (b AND 15) = b" for b :: byte
proof -
  have "b AND 15 = take_bit 4 b"
    by (simp add: take_bit_eq_mask mask_eq_exp_minus_1)
  then show ?thesis
    by (auto intro!: bit_word_eqI simp: bit_simps not_less)
qed

lemma DecodeString_hex_byte:
  "DecodeString (hex_byte b @ s) =
     (case DecodeString s of Inl e \<Rightarrow> Inl e | Inr bs \<Rightarrow> Inr (b # bs))"
  by (simp add: hex_byte_def fromHexChar_hextable nibble_bounds nibbles_join split: sum.split)

lemma DecodeString_EncodeToString [simp]: "DecodeString (EncodeToString bs) = Inr bs"
  by (induction bs) (simp_all add: EncodeToString_def DecodeString_hex_byte)

lemma EncodeToString_inject [simp]: "EncodeToString bs = EncodeToString cs \<longleftrightarrow> bs = cs"
  by (metis DecodeString_EncodeToString sum.inject(2))

lemma fromHexChar_nat:
  assumes "fromHexChar c = Some v"
  obtains n where "n < 16" and "v = word_of_nat n"
    and "hex_lower c = char_of (if n < 10 then 48 + n else 87 + n)"
proof -
  let ?n = "of_char c :: nat"
  from assms consider
      (digit) "48 \<le> ?n" "?n \<le> 57" "v = word_of_nat (?n - 48)"
    | (low) "97 \<le> ?n" "?n \<le> 102" "v = word_of_nat (?n - 87)"
    | (up) "65 \<le> ?n" "?n \<le> 70" "v = word_of_nat (?n - 55)"
    by (auto simp: fromHexChar_def Let_def split: if_splits)
  then show thesis
  proof cases
    case digit
    then show thesis by (intro that [of "?n - 48"]) (auto simp: hex_lower_def)
  next
    case low
    then show thesis by (intro that [of "?n - 87"]) (auto simp: hex_lower_def)
  next
    case up
    then show thesis by (intro that [of "?n - 55"]) (auto simp: hex_lower_def)
  qed
qed

lemma fromHexChar_Some:
  assumes "fromHexChar c = Some v"
  shows "unat v < 16" and "hextable ! unat v = hex_lower c"
  using assms by (auto elim!: fromHexChar_nat simp: unat_word_of_nat8 hextable_nth)

lemma nibbles_split:
  fixes a b :: byte
  assumes "unat a < 16" and "unat b < 16"
  shows "drop_bit 4 (push_bit 4 a OR b) = a" and "(push_bit 4 a OR b) AND 15 = b"
proof -
  have "unat (take_bit 4 a) = unat a" and "unat (take_bit 4 b) = unat b"
    using assms by (simp_all add: take_bit_eq_mod unat_mod)
  then have "take_bit 4 a = a" and "take_bit 4 b = b"
    by (simp_all only: word_unat_eq_iff)
  then have hi: "bit a n \<Longrightarrow> n < 4" "bit b n \<Longrightarrow> n < 4" for n
    by (metis bit_take_bit_iff)+
  show "drop_bit 4 (push_bit 4 a OR b) = a"
    by (auto intro!: bit_word_eqI simp: bit_simps dest: hi)
  have "(push_bit 4 a OR b) AND 15 = take_bit 4 (push_bit 4 a OR b)"
    by (simp add: take_bit_eq_mask mask_eq_exp_minus_1)
  also have "\<dots> = b"
    by (auto intro!: bit_word_eqI simp: bit_simps dest: hi)
  finally show "(push_bit 4 a OR b) AND 15 = b" .
qed

lemma EncodeToString_DecodeString:
  "DecodeString s = Inr bs \<Longrightarrow> EncodeToString bs = map hex_lower s"
proof (induction s arbitrary: bs rule: DecodeString.induct)
  case 1
  then show ?case by (simp add: EncodeToString_def)
next
  case (2 p)
  then show ?case by (simp split: option.splits)
next
  case (3 p q s)
  then obtain a b cs where "fromHexChar p = Some a" "fromHexChar q = Some b"
    "DecodeString s = Inr cs" "bs = (push_bit 4 a OR b) # cs"
    by (auto split: option.splits sum.splits)
  with 3(1) [of a b] show ?case
    by (simp add: EncodeToString_def hex_byte_def nibbles_split fromHexChar_Some
        del: drop_bit_or push_bit_and)
qed

lemma length_DecodeString: "DecodeString s = Inr bs \<Longrightarrow> length s = 2 * length bs"
  by (metis EncodeToString_DecodeString length_EncodeToString length_map)

text \<open>Decoding succeeds exactly on even-length strings of hexadecimal digits.\<close>

lemma DecodeString_ok_iff:
  "(\<exists>bs. DecodeString s = Inr bs) \<longleftrightarrow> even (length s) \<and> list_all (\<lambda>c. fromHexChar c \<noteq> None) s"
proof (induction s rule: DecodeString.induct)
  case (3 p q s)
  show ?case
  proof (cases "fromHexChar p = None \<or> fromHexChar q = None")
    case False
    then obtain a b where "fromHexChar p = Some a" "fromHexChar q = Some b" by auto
    with 3 [of a b] show ?thesis by (auto split: sum.splits)
  qed (auto split: option.splits)
qed (auto split: option.splits)

text \<open>The case of the digits does not matter, and lowercase strings are the canonical ones.\<close>

lemma fromHexChar_hex_lower [simp]: "fromHexChar (hex_lower c) = fromHexChar c"
proof (cases "65 \<le> (of_char c :: nat) \<and> (of_char c :: nat) \<le> 70")
  case True
  then have "of_char (hex_lower c) = (of_char c :: nat) + 32"
    by (simp add: hex_lower_def)
  with True show ?thesis by (simp add: fromHexChar_def Let_def)
next
  case False
  then have "hex_lower c = c"
    by (auto simp: hex_lower_def Let_def)
  then show ?thesis by simp
qed

lemma DecodeString_map_hex_lower:
  "DecodeString (map hex_lower s) = Inr bs \<longleftrightarrow> DecodeString s = Inr bs"
proof (induction s arbitrary: bs rule: DecodeString.induct)
  case (3 p q s)
  have step: "DecodeString (x # y # t) = Inr bs \<longleftrightarrow>
      (\<exists>a b cs. fromHexChar x = Some a \<and> fromHexChar y = Some b \<and> DecodeString t = Inr cs \<and>
        bs = (push_bit 4 a OR b) # cs)" for x y t
    by (auto split: option.splits sum.splits)
  show ?case
    using 3 by (simp only: list.map step fromHexChar_hex_lower) blast
qed (simp_all split: option.split)

lemma DecodeString_Inr_iff: "DecodeString s = Inr bs \<longleftrightarrow> map hex_lower s = EncodeToString bs"
  by (metis DecodeString_EncodeToString DecodeString_map_hex_lower EncodeToString_DecodeString)

end
