(* ===== verification/Arch_Pubkey.thy ===== *)
theory Arch_Pubkey
  imports Go_Hex
begin

text \<open>
  \<open>pubkey.go\<close> and the program identifiers of \<open>constants.go\<close>: public keys and hashes are
  32-byte arrays whose text form is lowercase hexadecimal.
\<close>

type_synonym Pubkey = "32 byte_array"
type_synonym Hash = "32 byte_array"

section \<open>Text form\<close>

definition PubkeyFromHex :: "string \<Rightarrow> Pubkey result" where
  "PubkeyFromHex s =
     (case DecodeString s of
        Inl err \<Rightarrow> Inl (WrapErr ''invalid pubkey hex: %w'' err)
      | Inr b \<Rightarrow>
          if length b \<noteq> 32 then Inl (Errorf ''pubkey must be 32 bytes, got %d'' [FInt (int (length b))])
          else Inr (copy_into b))"

definition Pubkey_String :: "Pubkey \<Rightarrow> string" where
  "Pubkey_String p = EncodeToString (bytes_of p)"

definition HashFromHex :: "string \<Rightarrow> Hash result" where
  "HashFromHex s =
     (case DecodeString s of
        Inl err \<Rightarrow> Inl (WrapErr ''invalid hash hex: %w'' err)
      | Inr b \<Rightarrow>
          if length b \<noteq> 32 then Inl (Errorf ''hash must be 32 bytes, got %d'' [FInt (int (length b))])
          else Inr (copy_into b))"

definition Hash_String :: "Hash \<Rightarrow> string" where
  "Hash_String h = EncodeToString (bytes_of h)"

section \<open>Program identifiers\<close>

definition SystemProgramID :: Pubkey where
  "SystemProgramID = copy_into []"

definition TokenProgramID :: Pubkey where
  "TokenProgramID = copy_into
     [6, 221, 246, 225, 185, 234, 132, 65, 44, 16, 184, 223, 2, 28, 16, 15,
      200, 135, 25, 7, 195, 9, 195, 53, 53, 222, 32, 156, 52, 23, 99, 191]"

definition AssociatedTokenProgramID :: Pubkey where
  "AssociatedTokenProgramID = copy_into
     [140, 151, 35, 17, 132, 146, 123, 119, 181, 241, 128, 17, 143, 204, 104, 52,
      20, 183, 124, 82, 30, 90, 119, 8, 28, 247, 29, 95, 96, 106, 83, 132]"

definition BpfLoaderProgramID :: Pubkey where
  "BpfLoaderProgramID = copy_into
     [2, 197, 178, 216, 231, 45, 42, 178, 55, 139, 51, 119, 73, 71, 125, 120,
      122, 208, 19, 239, 94, 121, 232, 49, 230, 137, 68, 140, 0, 0, 0, 0]"

definition VoteProgramID :: Pubkey where
  "VoteProgramID = copy_into
     [7, 97, 72, 37, 227, 237, 86, 6, 249, 190, 178, 214, 177, 8, 63, 226,
      34, 198, 130, 48, 216, 183, 167, 155, 11, 12, 86, 34, 0, 0, 0, 0]"

definition StakeProgramID :: Pubkey where
  "StakeProgramID = copy_into
     [6, 161, 216, 23, 183, 136, 220, 118, 238, 58, 149, 122, 111, 233, 45, 126,
      42, 165, 35, 109, 10, 154, 58, 130, 3, 20, 197, 133, 0, 0, 0, 0]"

definition ComputeBudgetProgramID :: Pubkey where
  "ComputeBudgetProgramID = copy_into
     [3, 6, 70, 111, 229, 33, 23, 50, 255, 236, 173, 186, 114, 195, 155, 231,
      188, 140, 229, 187, 197, 247, 18, 107, 44, 67, 155, 58, 64, 0, 0, 0]"

definition NativeLoaderProgramID :: Pubkey where
  "NativeLoaderProgramID = copy_into
     [5, 135, 132, 191, 20, 139, 164, 40, 47, 176, 18, 87, 72, 136, 169, 241,
      83, 160, 125, 173, 247, 101, 192, 69, 92, 154, 151, 3, 128, 0, 0, 0]"

definition program_ids :: "Pubkey list" where
  "program_ids =
     [SystemProgramID, TokenProgramID, AssociatedTokenProgramID, BpfLoaderProgramID,
      VoteProgramID, StakeProgramID, ComputeBudgetProgramID, NativeLoaderProgramID]"

section \<open>Properties\<close>

lemma copy_into_eq_iff:
  "length b = 32 \<Longrightarrow> copy_into b = (p :: 32 byte_array) \<longleftrightarrow> b = bytes_of p"
  using copy_into_inject [of b "bytes_of p", where 'n = 32] by simp

lemma parse32_iff:
  "(\<exists>b. DecodeString s = Inr b \<and> length b = 32 \<and> copy_into b = p) \<longleftrightarrow>
     map hex_lower s = EncodeToString (bytes_of (p :: 32 byte_array))"
  by (auto simp: DecodeString_Inr_iff copy_into_eq_iff)

lemma PubkeyFromHex_Inr: "PubkeyFromHex s = Inr p \<longleftrightarrow> map hex_lower s = Pubkey_String p"
  unfolding Pubkey_String_def parse32_iff [symmetric]
  by (auto simp: PubkeyFromHex_def split: sum.splits if_splits)

lemma HashFromHex_Inr: "HashFromHex s = Inr h \<longleftrightarrow> map hex_lower s = Hash_String h"
  unfolding Hash_String_def parse32_iff [symmetric]
  by (auto simp: HashFromHex_def split: sum.splits if_splits)

lemma hex_lower_EncodeToString [simp]: "map hex_lower (EncodeToString bs) = EncodeToString bs"
  by (simp flip: DecodeString_Inr_iff)

text \<open>
  C40 (round trip). A hex string parses to a pubkey exactly when lowercasing it gives the text form
  of that pubkey; so printing and parsing are inverse, parsing ignores the case of the digits, and
  no two keys share a text form.
\<close>

theorem PubkeyFromHex_iff_String:
  "(PubkeyFromHex s = Inr p \<longleftrightarrow> map hex_lower s = Pubkey_String p) \<and>
   PubkeyFromHex (Pubkey_String p) = Inr p \<and>
   (Pubkey_String p = Pubkey_String q \<longleftrightarrow> p = q)"
  by (simp add: PubkeyFromHex_Inr) (simp add: Pubkey_String_def bytes_of_eq_iff)

end
