(* ===== verification/Go_Sha256.thy ===== *)
theory Go_Sha256
  imports Arch_Prelude
begin

text \<open>
  Go's \<open>crypto/sha256\<close> as the SDK uses it: \<open>Sum256\<close> of a byte string, and the streaming
  interface (\<open>New\<close>, \<open>Write\<close>, \<open>Sum\<close>). The function is SHA-256 of FIPS 180-4 on 32-bit words,
  executable, so that the fixtures pinned by the repository's tests are evaluated by the kernel.
\<close>

section \<open>The compression function\<close>

text \<open>
  The round constants are the first 32 bits of the fractional parts of the cube roots of the first
  64 primes, the initial state those of the square roots of the first 8; both in decimal here.
\<close>

definition rotr :: "nat \<Rightarrow> u32 \<Rightarrow> u32" where
  "rotr n x = drop_bit n x OR push_bit (32 - n) (take_bit n x)"

definition sha_K :: "u32 list" where
  "sha_K =
    [1116352408, 1899447441, 3049323471, 3921009573, 961987163, 1508970993,
     2453635748, 2870763221, 3624381080, 310598401, 607225278, 1426881987,
     1925078388, 2162078206, 2614888103, 3248222580, 3835390401, 4022224774,
     264347078, 604807628, 770255983, 1249150122, 1555081692, 1996064986,
     2554220882, 2821834349, 2952996808, 3210313671, 3336571891, 3584528711,
     113926993, 338241895, 666307205, 773529912, 1294757372, 1396182291,
     1695183700, 1986661051, 2177026350, 2456956037, 2730485921, 2820302411,
     3259730800, 3345764771, 3516065817, 3600352804, 4094571909, 275423344,
     430227734, 506948616, 659060556, 883997877, 958139571, 1322822218,
     1537002063, 1747873779, 1955562222, 2024104815, 2227730452, 2361852424,
     2428436474, 2756734187, 3204031479, 3329325298]"

type_synonym sha_state = "u32 \<times> u32 \<times> u32 \<times> u32 \<times> u32 \<times> u32 \<times> u32 \<times> u32"

definition sha_init :: sha_state where
  "sha_init = (1779033703, 3144134277, 1013904242, 2773480762,
               1359893119, 2600822924, 528734635, 1541459225)"

text \<open>The message schedule, kept newest word first: \<open>w ! j\<close> is the word \<open>j + 1\<close> steps back.\<close>

definition sha_next_word :: "u32 list \<Rightarrow> u32" where
  "sha_next_word w =
     (rotr 17 (w ! 1) XOR rotr 19 (w ! 1) XOR drop_bit 10 (w ! 1)) + w ! 6 +
     (rotr 7 (w ! 14) XOR rotr 18 (w ! 14) XOR drop_bit 3 (w ! 14)) + w ! 15"

primrec sha_extend :: "nat \<Rightarrow> u32 list \<Rightarrow> u32 list" where
  "sha_extend 0 w = w"
| "sha_extend (Suc n) w = sha_extend n (sha_next_word w # w)"

fun sha_round :: "sha_state \<Rightarrow> u32 \<times> u32 \<Rightarrow> sha_state" where
  "sha_round (a, b, c, d, e, f, g, h) (k, w) =
     (let t1 = h + (rotr 6 e XOR rotr 11 e XOR rotr 25 e) + ((e AND f) XOR (NOT e AND g)) + k + w;
          t2 = (rotr 2 a XOR rotr 13 a XOR rotr 22 a) + ((a AND b) XOR (a AND c) XOR (b AND c))
      in (t1 + t2, a, b, c, d + t1, e, f, g))"

fun sha_add :: "sha_state \<Rightarrow> sha_state \<Rightarrow> sha_state" where
  "sha_add (a, b, c, d, e, f, g, h) (a', b', c', d', e', f', g', h') =
     (a + a', b + b', c + c', d + d', e + e', f + f', g + g', h + h')"

definition sha_block :: "sha_state \<Rightarrow> u32 list \<Rightarrow> sha_state" where
  "sha_block s m = sha_add s (foldl sha_round s (zip sha_K (rev (sha_extend 48 (rev m)))))"

section \<open>Padding and the digest\<close>

definition be_word :: "byte list \<Rightarrow> u32" where
  "be_word bs = of_le_bytes (rev bs)"

definition be_bytes32 :: "u32 \<Rightarrow> byte list" where
  "be_bytes32 w = rev (le_bytes32 w)"

definition be_bytes64 :: "u64 \<Rightarrow> byte list" where
  "be_bytes64 w = rev (le_bytes64 w)"

text \<open>One \<open>0x80\<close> byte, zeros up to 56 modulo 64, and the length in bits as a big-endian u64.\<close>

definition sha_pad :: "byte list \<Rightarrow> byte list" where
  "sha_pad m =
     m @ [0x80] @ replicate ((119 - length m mod 64) mod 64) 0
       @ be_bytes64 (word_of_nat (8 * length m))"

function chunks :: "nat \<Rightarrow> 'a list \<Rightarrow> 'a list list" where
  "chunks n xs = (if n = 0 \<or> xs = [] then [] else take n xs # chunks n (drop n xs))"
  by pat_completeness auto
termination
  by (relation "measure (\<lambda>(n, xs). length xs)") auto

declare chunks.simps [simp del]

definition sha_words :: "byte list \<Rightarrow> u32 list" where
  "sha_words blk = map be_word (chunks 4 blk)"

fun sha_bytes :: "sha_state \<Rightarrow> byte list" where
  "sha_bytes (a, b, c, d, e, f, g, h) = concat (map be_bytes32 [a, b, c, d, e, f, g, h])"

definition Sum256 :: "byte list \<Rightarrow> 32 byte_array" where
  "Sum256 m =
     copy_into (sha_bytes (foldl sha_block sha_init (map sha_words (chunks 64 (sha_pad m)))))"

text \<open>
  The streaming interface: the state of a \<open>hash.Hash\<close> is what has been written to it, and
  \<open>Sum\<close> appends the digest of that to its argument.
\<close>

type_synonym hash_state = "byte list"

definition sha256_New :: hash_state where
  "sha256_New = []"

definition hash_Write :: "hash_state \<Rightarrow> byte list \<Rightarrow> hash_state" where
  "hash_Write h p = h @ p"

definition hash_Sum :: "hash_state \<Rightarrow> byte list \<Rightarrow> byte list" where
  "hash_Sum h b = b @ bytes_of (Sum256 h)"

section \<open>Well-formedness of the padding\<close>

lemma length_be_bytes [simp]: "length (be_bytes32 w) = 4" "length (be_bytes64 v) = 8"
  by (simp_all add: be_bytes32_def be_bytes64_def)

lemma length_sha_bytes [simp]: "length (sha_bytes s) = 32"
  by (induction s rule: sha_bytes.induct) simp

lemma bytes_of_Sum256:
  "bytes_of (Sum256 m) =
     sha_bytes (foldl sha_block sha_init (map sha_words (chunks 64 (sha_pad m))))"
  by (simp add: Sum256_def)

lemma pad_zeros:
  assumes "r < (64::nat)"
  shows "(119 - r) mod 64 = (if r \<le> 55 then 55 - r else 119 - r)"
  using assms by (simp add: le_mod_geq)

lemma pad_total:
  "r < 64 \<Longrightarrow> 64 * q + r + 9 + (119 - r) mod 64 = 64 * (q + (if r \<le> 55 then 1 else 2))"
  for q r :: nat
  by (simp add: pad_zeros)

lemma length_sha_pad:
  "length (sha_pad m) = 64 * (length m div 64 + (if length m mod 64 \<le> 55 then 1 else 2))"
proof -
  have "length (sha_pad m) = length m + 9 + (119 - length m mod 64) mod 64"
    by (simp add: sha_pad_def)
  also have "\<dots> = 64 * (length m div 64) + length m mod 64 + 9 + (119 - length m mod 64) mod 64"
    by simp
  also have "\<dots> = 64 * (length m div 64 + (if length m mod 64 \<le> 55 then 1 else 2))"
    by (rule pad_total) simp
  finally show ?thesis .
qed

lemma length_sha_pad_dvd: "64 dvd length (sha_pad m)"
  by (simp only: length_sha_pad dvd_triv_left)

lemma length_sha_pad_bounds:
  "length m + 9 \<le> length (sha_pad m)" "length (sha_pad m) < length m + 9 + 64"
  by (simp_all add: sha_pad_def)

lemma chunks_length:
  "0 < n \<Longrightarrow> n dvd length xs \<Longrightarrow> c \<in> set (chunks n xs) \<Longrightarrow> length c = n"
proof (induction n xs rule: chunks.induct)
  case (1 n xs)
  show ?case
  proof (cases "n = 0 \<or> xs = []")
    case True
    with 1 show ?thesis by (simp add: chunks.simps [of n xs])
  next
    case False
    with 1 have "n \<le> length xs"
      by (auto intro: dvd_imp_le)
    with 1 False show ?thesis
      by (auto simp: chunks.simps [of n xs] dvd_diff_nat)
  qed
qed

lemma concat_chunks: "0 < n \<Longrightarrow> concat (chunks n xs) = xs"
  by (induction n xs rule: chunks.induct) (subst chunks.simps, auto)

lemma sha_extend_numeral:
  "sha_extend (numeral k) w = sha_extend (pred_numeral k) (sha_next_word w # w)"
  by (simp add: numeral_eq_Suc)

lemma replicate_numeral_step: "replicate (numeral k) x = x # replicate (pred_numeral k) x"
  by (simp add: numeral_eq_Suc)

lemmas sha_eval =
  sha_block_def sha_init_def sha_K_def sha_extend_numeral sha_next_word_def rotr_def Let_def

lemmas sha_words_eval =
  sha_pad_def sha_words_def chunks.simps be_word_def be_bytes64_def le_bytes64_def replicate_numeral_step

end
