(* ===== verification/Arch_Message.thy ===== *)
theory Arch_Message
  imports Arch_Pubkey Go_Sha256
begin

text \<open>
  \<open>message.go\<close>: instructions, compiled messages, their binary form and the signing digest.
  Field names carry a prefix of their struct (\<open>am\<close> for \<open>AccountMeta\<close>, \<open>ix\<close> for \<open>Instruction\<close>,
  \<open>si\<close> for \<open>SanitizedInstruction\<close>, \<open>hd\<close> for \<open>MessageHeader\<close>, \<open>msg\<close> for \<open>SanitizedMessage\<close>).
  The binary form is shown to be decodable, hence injective, through the codec interface.
\<close>

section \<open>Data\<close>

record AccountMeta =
  am_Pubkey :: Pubkey
  am_IsSigner :: bool
  am_IsWritable :: bool

record Instruction =
  ix_ProgramID :: Pubkey
  ix_Accounts :: "AccountMeta list"
  ix_Data :: "byte list"

record MessageHeader =
  hd_NumRequiredSignatures :: u8
  hd_NumReadonlySignedAccounts :: u8
  hd_NumReadonlyUnsignedAccounts :: u8

record SanitizedInstruction =
  si_ProgramIDIndex :: u8
  si_Accounts :: "byte list"
  si_Data :: "byte list"

record SanitizedMessage =
  msg_Header :: MessageHeader
  msg_AccountKeys :: "Pubkey list"
  msg_RecentBlockhash :: Hash
  msg_Instructions :: "SanitizedInstruction list"

section \<open>Operations\<close>

definition Instruction_Serialize :: "SanitizedInstruction \<Rightarrow> byte list" where
  "Instruction_Serialize si =
     (let buf = [si_ProgramIDIndex si];
          buf = AppendUint32 buf (word_of_nat (length (si_Accounts si)));
          buf = buf @ si_Accounts si;
          buf = AppendUint32 buf (word_of_nat (length (si_Data si)))
      in buf @ si_Data si)"

definition Message_Serialize :: "SanitizedMessage \<Rightarrow> byte list" where
  "Message_Serialize m =
     (let h = msg_Header m;
          buf = [hd_NumRequiredSignatures h, hd_NumReadonlySignedAccounts h,
                 hd_NumReadonlyUnsignedAccounts h];
          buf = AppendUint32 buf (word_of_nat (length (msg_AccountKeys m)));
          buf = foldl (\<lambda>b key. b @ bytes_of key) buf (msg_AccountKeys m);
          buf = buf @ bytes_of (msg_RecentBlockhash m);
          buf = AppendUint32 buf (word_of_nat (length (msg_Instructions m)))
      in foldl (\<lambda>b ix. b @ Instruction_Serialize ix) buf (msg_Instructions m))"

text \<open>The digest that signers sign: hashing the lowercase hex string, not the raw digest.\<close>

definition Message_Hash :: "SanitizedMessage \<Rightarrow> byte list" where
  "Message_Hash m =
     (let first = Sum256 (Message_Serialize m);
          firstHex = bytes_of_string (EncodeToString (bytes_of first));
          second = Sum256 firstHex
      in bytes_of_string (EncodeToString (bytes_of second)))"

section \<open>Layout\<close>

lemma foldl_append_concat: "foldl (\<lambda>b x. b @ f x) buf xs = buf @ concat (map f xs)"
  by (induction xs arbitrary: buf) simp_all

lemma Instruction_Serialize_layout:
  "Instruction_Serialize si =
     [si_ProgramIDIndex si] @ enc_vec32 (\<lambda>b. [b]) (si_Accounts si) @ enc_vec32 (\<lambda>b. [b]) (si_Data si)"
  by (simp add: Instruction_Serialize_def AppendUint32_def enc_vec32_bytes)

definition enc_header :: "MessageHeader \<Rightarrow> byte list" where
  "enc_header h = [hd_NumRequiredSignatures h, hd_NumReadonlySignedAccounts h,
     hd_NumReadonlyUnsignedAccounts h]"

lemma Message_Serialize_layout:
  "Message_Serialize m =
     enc_header (msg_Header m) @ enc_vec32 bytes_of (msg_AccountKeys m) @
     bytes_of (msg_RecentBlockhash m) @ enc_vec32 Instruction_Serialize (msg_Instructions m)"
  by (simp add: Message_Serialize_def AppendUint32_def foldl_append_concat enc_vec32_def
      enc_header_def Let_def)

lemma length_enc_vec32 [layout_simps]:
  "length (enc_vec32 enc xs) = 4 + (\<Sum>x\<leftarrow>xs. length (enc x))"
  by (simp add: enc_vec32_def length_concat comp_def)

lemma length_Instruction_Serialize [layout_simps]:
  "length (Instruction_Serialize si) = 9 + length (si_Accounts si) + length (si_Data si)"
  by (simp add: Instruction_Serialize_layout enc_vec32_bytes)

lemma length_Message_Serialize [layout_simps]:
  "length (Message_Serialize m) =
     43 + 32 * length (msg_AccountKeys m) +
     (\<Sum>si\<leftarrow>msg_Instructions m. 9 + length (si_Accounts si) + length (si_Data si))"
  by (simp add: Message_Serialize_layout enc_header_def layout_simps sum_list_triv)

section \<open>Decoding\<close>

text \<open>
  A decoder for the documented layout. It is a yardstick for the encoder: the SDK itself only
  serialises. Values whose counts do not fit the u32 fields are outside the format.
\<close>

definition dec_instruction :: "SanitizedInstruction decoder" where
  "dec_instruction bs =
     (case dec_u8 bs of None \<Rightarrow> None | Some (p, r) \<Rightarrow>
      (case dec_vec32 dec_u8 r of None \<Rightarrow> None | Some (accs, r) \<Rightarrow>
       (case dec_vec32 dec_u8 r of None \<Rightarrow> None | Some (d, r) \<Rightarrow>
          Some (\<lparr>si_ProgramIDIndex = p, si_Accounts = accs, si_Data = d\<rparr>, r))))"

definition dec_header :: "MessageHeader decoder" where
  "dec_header bs =
     (case bs of a # b # c # r \<Rightarrow>
        Some (\<lparr>hd_NumRequiredSignatures = a, hd_NumReadonlySignedAccounts = b,
               hd_NumReadonlyUnsignedAccounts = c\<rparr>, r)
      | _ \<Rightarrow> None)"

definition dec_message :: "SanitizedMessage decoder" where
  "dec_message bs =
     (case dec_header bs of None \<Rightarrow> None | Some (h, r) \<Rightarrow>
      (case dec_vec32 dec_array r of None \<Rightarrow> None | Some (ks, r) \<Rightarrow>
       (case dec_array r of None \<Rightarrow> None | Some (bh, r) \<Rightarrow>
        (case dec_vec32 dec_instruction r of None \<Rightarrow> None | Some (ixs, r) \<Rightarrow>
          Some (\<lparr>msg_Header = h, msg_AccountKeys = ks, msg_RecentBlockhash = bh,
                 msg_Instructions = ixs\<rparr>, r)))))"

definition ok_instruction :: "SanitizedInstruction \<Rightarrow> bool" where
  "ok_instruction si \<longleftrightarrow> length (si_Accounts si) < 2 ^ 32 \<and> length (si_Data si) < 2 ^ 32"

definition ok_message :: "SanitizedMessage \<Rightarrow> bool" where
  "ok_message m \<longleftrightarrow>
     length (msg_AccountKeys m) < 2 ^ 32 \<and> length (msg_Instructions m) < 2 ^ 32 \<and>
     list_all ok_instruction (msg_Instructions m)"

lemma list_all_True [simp]: "list_all (\<lambda>_. True) xs"
  by (simp add: list_all_iff)

interpretation codec_bytes: byte_codec "enc_vec32 (\<lambda>b. [b])" "dec_vec32 dec_u8" "ok_vec32 (\<lambda>_. True)"
  by (rule codec_u8.vec32)

interpretation codec_keys: byte_codec "enc_vec32 bytes_of" "dec_vec32 dec_array" "ok_vec32 (\<lambda>_. True)"
  by (rule codec_array.vec32)

interpretation codec_instruction: byte_codec Instruction_Serialize dec_instruction ok_instruction
proof
  fix si r
  assume "ok_instruction si"
  then show "dec_instruction (Instruction_Serialize si @ r) = Some (si, r)"
    by (simp add: ok_instruction_def dec_instruction_def Instruction_Serialize_layout codec_simps
        codec_bytes.dec_enc)
qed

interpretation codec_instructions:
  byte_codec "enc_vec32 Instruction_Serialize" "dec_vec32 dec_instruction" "ok_vec32 ok_instruction"
  by (rule codec_instruction.vec32)

interpretation codec_message: byte_codec Message_Serialize dec_message ok_message
proof
  fix m r
  assume "ok_message m"
  then show "dec_message (Message_Serialize m @ r) = Some (m, r)"
    by (simp add: ok_message_def dec_message_def dec_header_def enc_header_def
        Message_Serialize_layout codec_simps codec_keys.dec_enc codec_instructions.dec_enc)
qed

section \<open>Properties\<close>

text \<open>
  C10 (round trip). For every message whose counts fit the u32 fields of the format, decoding the
  serialised bytes gives the message back together with exactly the bytes that follow it. So the
  binary form loses nothing and no serialised message is a proper prefix of another one.
\<close>

theorem Message_Serialize_roundtrip:
  assumes "ok_message m"
  shows "dec_message (Message_Serialize m @ r) = Some (m, r) \<and>
    (\<forall>m' r'. ok_message m' \<and> Message_Serialize m' @ r' = Message_Serialize m @ r \<longrightarrow> m' = m \<and> r' = r)"
  using assms codec_message.dec_enc codec_message.enc_append_inject by blast

definition fixtureMessage :: SanitizedMessage where
  "fixtureMessage =
     \<lparr>msg_Header = \<lparr>hd_NumRequiredSignatures = 1, hd_NumReadonlySignedAccounts = 0,
        hd_NumReadonlyUnsignedAccounts = 1\<rparr>,
      msg_AccountKeys = [copy_into (map word_of_nat [1..<33]), SystemProgramID],
      msg_RecentBlockhash = copy_into (replicate 32 0xAA),
      msg_Instructions =
        [\<lparr>si_ProgramIDIndex = 1, si_Accounts = [0], si_Data = [1, 2, 3]\<rparr>,
         \<lparr>si_ProgramIDIndex = 1, si_Accounts = [0, 1],
          si_Data = [250, 251, 252, 253, 254, 255, 250, 251, 252, 253]\<rparr>]\<rparr>"

theorem Message_Serialize_roundtrip_witness:
  "ok_message fixtureMessage \<and> dec_message (Message_Serialize fixtureMessage @ [7]) = Some (fixtureMessage, [7])"
proof -
  have ok: "ok_message fixtureMessage"
    by (simp add: ok_message_def ok_instruction_def fixtureMessage_def)
  with Message_Serialize_roundtrip [OF ok, of "[7]"] show ?thesis by blast
qed

text \<open>
  The serialised size is 43 bytes plus 32 per account key plus, per instruction,
  9 bytes and one per account index and data byte.
\<close>

theorem Message_Serialize_size:
  "length (Message_Serialize m) =
     3 + 4 + 32 * length (msg_AccountKeys m) + 32 + 4 +
     (\<Sum>si\<leftarrow>msg_Instructions m. 1 + 4 + length (si_Accounts si) + 4 + length (si_Data si))"
  by (simp add: length_Message_Serialize)

lemma of_char_byte_eq_iff: "of_char c = (of_char d :: byte) \<longleftrightarrow> c = d"
proof
  assume "of_char c = (of_char d :: byte)"
  then have "unat (word_of_nat (of_char c) :: byte) = unat (word_of_nat (of_char d) :: byte)"
    by (simp only: of_nat_of_char)
  then have "(of_char c :: nat) = of_char d"
    by (simp add: unat_word_of_nat8)
  then show "c = d" by simp
qed simp

lemma bytes_of_string_inject [simp]: "bytes_of_string s = bytes_of_string t \<longleftrightarrow> s = t"
proof -
  have "inj (of_char :: char \<Rightarrow> byte)"
    by (rule injI) (simp add: of_char_byte_eq_iff)
  then show ?thesis by (simp add: bytes_of_string_def inj_map_eq_map)
qed

text \<open>
  The signing digest is always 64 bytes, the ASCII text of a lowercase hex string
  of 32 bytes; it decodes to SHA-256 of the hex text of SHA-256 of the serialised message.
\<close>

theorem Message_Hash_format:
  "length (Message_Hash m) = 64 \<and>
   (\<exists>s. Message_Hash m = bytes_of_string s \<and> map hex_lower s = s \<and>
     DecodeString s = Inr (bytes_of (Sum256 (bytes_of_string
       (Hash_String (Sum256 (Message_Serialize m)))))))"
  unfolding Message_Hash_def Let_def Hash_String_def
  by (intro conjI exI [where x = "EncodeToString _"]) (rule refl | simp)+

text \<open>
  C11 (safety). The digest binds the message: two well-formed messages have the same digest exactly
  when they are the same message or exhibit a SHA-256 collision, either between their (different)
  serialisations or between the (different) hex texts of their first digests.
\<close>

theorem Message_Hash_binding:
  assumes "ok_message m" and "ok_message m'"
  shows "Message_Hash m = Message_Hash m' \<longleftrightarrow>
    (let x = Message_Serialize m; x' = Message_Serialize m';
         y = bytes_of_string (Hash_String (Sum256 x));
         y' = bytes_of_string (Hash_String (Sum256 x'))
     in m = m' \<or> (x \<noteq> x' \<and> Sum256 x = Sum256 x') \<or> (y \<noteq> y' \<and> Sum256 y = Sum256 y'))"
proof -
  have "Message_Serialize m = Message_Serialize m' \<longleftrightarrow> m = m'"
    using assms codec_message.enc_inject by blast
  then show ?thesis
    by (auto simp: Message_Hash_def Let_def Hash_String_def bytes_of_eq_iff)
qed

theorem Message_Hash_binding_witness:
  "ok_message fixtureMessage \<and>
   (Message_Hash fixtureMessage = Message_Hash (fixtureMessage\<lparr>msg_AccountKeys := []\<rparr>) \<longleftrightarrow>
    (let x = Message_Serialize fixtureMessage;
         x' = Message_Serialize (fixtureMessage\<lparr>msg_AccountKeys := []\<rparr>);
         y = bytes_of_string (Hash_String (Sum256 x));
         y' = bytes_of_string (Hash_String (Sum256 x'))
     in (x \<noteq> x' \<and> Sum256 x = Sum256 x') \<or> (y \<noteq> y' \<and> Sum256 y = Sum256 y')))"
proof -
  have ok: "ok_message fixtureMessage" "ok_message (fixtureMessage\<lparr>msg_AccountKeys := []\<rparr>)"
    by (simp_all add: ok_message_def ok_instruction_def fixtureMessage_def)
  have "fixtureMessage \<noteq> fixtureMessage\<lparr>msg_AccountKeys := []\<rparr>"
    by (simp add: fixtureMessage_def)
  then show ?thesis
    using ok(1) Message_Hash_binding [OF ok] by (simp only: Let_def simp_thms)
qed

end
