(* ===== verification/Arch_Compile.thy ===== *)
theory Arch_Compile
  imports Arch_Message "HOL-Library.AList"
begin

text \<open>
  \<open>compile.go\<close>: compiling raw instructions into a message. The Go map of key metadata is an
  association list with at most one entry per key; the order in which Go ranges over it is not
  specified, so it is a parameter (\<open>ord\<close>) of the model. \<open>sort.Slice\<close> is modelled with its
  comparison closure, behind the interface \<open>slice_sort\<close>.
\<close>

section \<open>Sorting a slice\<close>

fun insert_by :: "('a \<Rightarrow> 'a \<Rightarrow> bool) \<Rightarrow> 'a \<Rightarrow> 'a list \<Rightarrow> 'a list" where
  "insert_by lt x [] = [x]"
| "insert_by lt x (y # ys) = (if lt y x then y # insert_by lt x ys else x # y # ys)"

definition sort_Slice :: "('a \<Rightarrow> 'a \<Rightarrow> bool) \<Rightarrow> 'a list \<Rightarrow> 'a list" where
  "sort_Slice lt xs = foldr (insert_by lt) xs []"

text \<open>
  What the callers rely on: the result is a sorted permutation. Every routine with these two laws
  computes the same list, so the algorithm behind \<open>sort.Slice\<close> and the order of its input do
  not matter.
\<close>

locale slice_sort =
  fixes srt :: "'a::linorder list \<Rightarrow> 'a list"
  assumes mset_srt: "mset (srt xs) = mset xs"
    and sorted_srt: "sorted (srt xs)"
begin

lemma srt_eq_sort: "srt xs = sort xs"
  using properties_for_sort [OF mset_srt sorted_srt] by (rule sym)

lemma srt_cong: "mset xs = mset ys \<Longrightarrow> srt xs = srt ys"
  by (simp only: srt_eq_sort) (metis mset_sort properties_for_sort sorted_sort)

lemma set_srt: "set (srt xs) = set xs"
  by (simp add: srt_eq_sort)

lemma distinct_srt: "distinct (srt xs) \<longleftrightarrow> distinct xs"
  by (simp add: srt_eq_sort)

lemma filter_srt_length: "length (filter P (srt xs)) = length (filter P xs)"
  by (metis mset_filter mset_srt size_mset)

end

definition key_less :: "Pubkey \<Rightarrow> Pubkey \<Rightarrow> bool" where
  "key_less a b \<longleftrightarrow> bytes_Compare (bytes_of a) (bytes_of b) < 0"

lemma key_less_iff: "key_less a b \<longleftrightarrow> a < b"
  by (simp add: key_less_def byte_array_less_Compare)

lemma mset_insert_by: "mset (insert_by lt x xs) = add_mset x (mset xs)"
  by (induction xs) auto

lemma set_insert_by: "set (insert_by lt x xs) = insert x (set xs)"
  by (induction xs) auto

lemma sorted_insert_by: "sorted xs \<Longrightarrow> sorted (insert_by key_less x xs)"
  by (induction xs) (auto simp: set_insert_by key_less_iff)

interpretation key_sort: slice_sort "sort_Slice key_less"
proof
  fix xs :: "Pubkey list"
  show "mset (sort_Slice key_less xs) = mset xs"
    by (induction xs) (auto simp: sort_Slice_def mset_insert_by)
  show "sorted (sort_Slice key_less xs)"
    by (induction xs) (auto simp: sort_Slice_def sorted_insert_by)
qed

section \<open>Collecting key metadata\<close>

record compiledKeyMeta =
  isSigner :: bool
  isWritable :: bool
  isInvoked :: bool

type_synonym keyMetaMap = "(Pubkey \<times> compiledKeyMeta) list"

definition zeroMeta :: compiledKeyMeta where
  "zeroMeta = \<lparr>isSigner = False, isWritable = False, isInvoked = False\<rparr>"

text \<open>The closure \<open>getMeta\<close>: the entry of a key, a zero entry being stored first if it has none.\<close>

definition getMeta :: "keyMetaMap \<Rightarrow> Pubkey \<Rightarrow> keyMetaMap \<times> compiledKeyMeta" where
  "getMeta kmm key =
     (case map_of kmm key of
        Some m \<Rightarrow> (kmm, m)
      | None \<Rightarrow> (AList.update key zeroMeta kmm, zeroMeta))"

text \<open>Writing through the pointer that \<open>getMeta\<close> returned changes the map's entry.\<close>

definition withMeta :: "(compiledKeyMeta \<Rightarrow> compiledKeyMeta) \<Rightarrow> keyMetaMap \<Rightarrow> Pubkey \<Rightarrow> keyMetaMap" where
  "withMeta f kmm key = (case getMeta kmm key of (kmm', m) \<Rightarrow> AList.update key (f m) kmm')"

definition noteAccount :: "keyMetaMap \<Rightarrow> AccountMeta \<Rightarrow> keyMetaMap" where
  "noteAccount kmm am =
     withMeta (\<lambda>m. m\<lparr>isSigner := isSigner m \<or> am_IsSigner am,
                     isWritable := isWritable m \<or> am_IsWritable am\<rparr>) kmm (am_Pubkey am)"

definition noteInstruction :: "keyMetaMap \<Rightarrow> Instruction \<Rightarrow> keyMetaMap" where
  "noteInstruction kmm ix =
     foldl noteAccount (withMeta (isInvoked_update (\<lambda>_. True)) kmm (ix_ProgramID ix)) (ix_Accounts ix)"

definition notePayer :: "keyMetaMap \<Rightarrow> Pubkey option \<Rightarrow> keyMetaMap" where
  "notePayer kmm payer =
     (case payer of None \<Rightarrow> kmm
      | Some p \<Rightarrow> withMeta (\<lambda>m. m\<lparr>isSigner := True, isWritable := True\<rparr>) kmm p)"

definition collectKeys :: "Instruction list \<Rightarrow> Pubkey option \<Rightarrow> keyMetaMap" where
  "collectKeys instructions payer = notePayer (foldl noteInstruction [] instructions) payer"

section \<open>Grouping keys\<close>

record keyGroups =
  writableSigners :: "Pubkey list"
  readonlySigners :: "Pubkey list"
  writableNonSigners :: "Pubkey list"
  readonlyNonSigners :: "Pubkey list"

text \<open>
  \<open>keyMetaMap[key]\<close> for a key drawn from the map: the entry exists (\<open>lookupMeta_Some\<close> below), so
  the default is never used.
\<close>

definition lookupMeta :: "keyMetaMap \<Rightarrow> Pubkey \<Rightarrow> compiledKeyMeta" where
  "lookupMeta kmm key = (case map_of kmm key of Some m \<Rightarrow> m | None \<Rightarrow> zeroMeta)"

definition classifyKey :: "keyMetaMap \<Rightarrow> keyGroups \<Rightarrow> Pubkey \<Rightarrow> keyGroups" where
  "classifyKey kmm g key =
     (let m = lookupMeta kmm key in
      if isSigner m \<and> isWritable m then g\<lparr>writableSigners := writableSigners g @ [key]\<rparr>
      else if isSigner m \<and> \<not> isWritable m then g\<lparr>readonlySigners := readonlySigners g @ [key]\<rparr>
      else if \<not> isSigner m \<and> isWritable m then g\<lparr>writableNonSigners := writableNonSigners g @ [key]\<rparr>
      else g\<lparr>readonlyNonSigners := readonlyNonSigners g @ [key]\<rparr>)"

definition sortedKeys :: "(Pubkey list \<Rightarrow> Pubkey list) \<Rightarrow> keyMetaMap \<Rightarrow> Pubkey option \<Rightarrow> Pubkey list" where
  "sortedKeys ord kmm payer =
     sort_Slice key_less (filter (\<lambda>key. payer \<noteq> Some key) (ord (map fst kmm)))"

definition groupKeys :: "(Pubkey list \<Rightarrow> Pubkey list) \<Rightarrow> keyMetaMap \<Rightarrow> Pubkey option \<Rightarrow> keyGroups" where
  "groupKeys ord kmm payer =
     foldl (classifyKey kmm)
       \<lparr>writableSigners = (case payer of None \<Rightarrow> [] | Some p \<Rightarrow> [p]), readonlySigners = [],
        writableNonSigners = [], readonlyNonSigners = []\<rparr>
       (sortedKeys ord kmm payer)"

section \<open>Compiling instructions\<close>

definition indexKeys :: "Pubkey list \<Rightarrow> (Pubkey \<rightharpoonup> u8)" where
  "indexKeys accountKeys =
     foldl (\<lambda>m (i, key). m(key \<mapsto> word_of_nat i)) Map.empty (enumerate 0 accountKeys)"

definition unknownKey :: "Pubkey \<Rightarrow> go_error" where
  "unknownKey key =
     Errorf ''encountered unknown account key %s during instruction compilation''
       [FStr (Pubkey_String key)]"

fun compileAccounts :: "(Pubkey \<rightharpoonup> u8) \<Rightarrow> AccountMeta list \<Rightarrow> byte list \<Rightarrow> byte list result" where
  "compileAccounts keyIndex [] accounts = Inr accounts"
| "compileAccounts keyIndex (am # ams) accounts =
     (case keyIndex (am_Pubkey am) of
        None \<Rightarrow> Inl (unknownKey (am_Pubkey am))
      | Some idx \<Rightarrow> compileAccounts keyIndex ams (accounts @ [idx]))"

fun compileInstructions ::
  "(Pubkey \<rightharpoonup> u8) \<Rightarrow> Instruction list \<Rightarrow> SanitizedInstruction list \<Rightarrow> SanitizedInstruction list result"
where
  "compileInstructions keyIndex [] compiled = Inr compiled"
| "compileInstructions keyIndex (ix # ixs) compiled =
     (case keyIndex (ix_ProgramID ix) of
        None \<Rightarrow> Inl (unknownKey (ix_ProgramID ix))
      | Some programIdx \<Rightarrow>
          (case compileAccounts keyIndex (ix_Accounts ix) [] of
             Inl e \<Rightarrow> Inl e
           | Inr accounts \<Rightarrow>
               compileInstructions keyIndex ixs
                 (compiled @ [\<lparr>si_ProgramIDIndex = programIdx, si_Accounts = accounts,
                               si_Data = ix_Data ix\<rparr>])))"

definition overflowError :: go_error where
  "overflowError = Errorf ''account index overflowed during compilation'' []"

definition NewSanitizedMessage ::
  "(Pubkey list \<Rightarrow> Pubkey list) \<Rightarrow> Instruction list \<Rightarrow> Pubkey option \<Rightarrow> Hash \<Rightarrow> SanitizedMessage result"
where
  "NewSanitizedMessage ord instructions payer recentBlockhash =
     (let kmm = collectKeys instructions payer;
          g = groupKeys ord kmm payer;
          signersLen = length (writableSigners g) + length (readonlySigners g);
          totalKeys = signersLen + length (writableNonSigners g) + length (readonlyNonSigners g)
      in if signersLen > 255 \<or> length (readonlySigners g) > 255 \<or>
            length (readonlyNonSigners g) > 255 \<or> totalKeys > 256
         then Inl overflowError
         else
           (let accountKeys = writableSigners g @ readonlySigners g @ writableNonSigners g @
                  readonlyNonSigners g;
                keyIndex = indexKeys accountKeys
            in case compileInstructions keyIndex instructions [] of
                 Inl e \<Rightarrow> Inl e
               | Inr compiled \<Rightarrow>
                   Inr \<lparr>msg_Header =
                          \<lparr>hd_NumRequiredSignatures = word_of_nat signersLen,
                           hd_NumReadonlySignedAccounts = word_of_nat (length (readonlySigners g)),
                           hd_NumReadonlyUnsignedAccounts = word_of_nat (length (readonlyNonSigners g))\<rparr>,
                        msg_AccountKeys = accountKeys,
                        msg_RecentBlockhash = recentBlockhash,
                        msg_Instructions = compiled\<rparr>))"

end
