(* ===== verification/Arch_Compile_Correct.thy ===== *)
theory Arch_Compile_Correct
  imports Arch_Compile
begin

text \<open>
  Correctness of message compilation. The abstract specification \<open>compile_spec\<close> speaks of sets of
  keys and merged privileges only; the detailed definitions of \<open>Arch_Compile\<close> refine it for every
  order in which Go may range over its map. The properties of the compiled message (roles encoded
  by header and position, account keys, resolution of the indices, success condition) follow from
  the specification.
\<close>

section \<open>Abstract specification\<close>

definition key_signer :: "Instruction list \<Rightarrow> Pubkey option \<Rightarrow> Pubkey \<Rightarrow> bool" where
  "key_signer ixs payer k \<longleftrightarrow>
     payer = Some k \<or> (\<exists>ix\<in>set ixs. \<exists>am\<in>set (ix_Accounts ix). am_Pubkey am = k \<and> am_IsSigner am)"

definition key_writable :: "Instruction list \<Rightarrow> Pubkey option \<Rightarrow> Pubkey \<Rightarrow> bool" where
  "key_writable ixs payer k \<longleftrightarrow>
     payer = Some k \<or> (\<exists>ix\<in>set ixs. \<exists>am\<in>set (ix_Accounts ix). am_Pubkey am = k \<and> am_IsWritable am)"

definition ix_keys :: "Instruction \<Rightarrow> Pubkey set" where
  "ix_keys ix = insert (ix_ProgramID ix) (am_Pubkey ` set (ix_Accounts ix))"

definition referenced :: "Instruction list \<Rightarrow> Pubkey option \<Rightarrow> Pubkey set" where
  "referenced ixs payer = set_option payer \<union> (\<Union>ix\<in>set ixs. ix_keys ix)"

definition payer_list :: "Pubkey option \<Rightarrow> Pubkey list" where
  "payer_list payer = (case payer of None \<Rightarrow> [] | Some p \<Rightarrow> [p])"

definition spec_group :: "Instruction list \<Rightarrow> Pubkey option \<Rightarrow> bool \<Rightarrow> bool \<Rightarrow> Pubkey list" where
  "spec_group ixs payer s w =
     filter (\<lambda>k. key_signer ixs payer k = s \<and> key_writable ixs payer k = w)
       (sorted_list_of_set (referenced ixs payer - set_option payer))"

definition spec_keys :: "Instruction list \<Rightarrow> Pubkey option \<Rightarrow> Pubkey list" where
  "spec_keys ixs payer =
     payer_list payer @ spec_group ixs payer True True @ spec_group ixs payer True False @
     spec_group ixs payer False True @ spec_group ixs payer False False"

definition position :: "'a list \<Rightarrow> 'a \<Rightarrow> nat" where
  "position xs x = length (takeWhile (\<lambda>y. y \<noteq> x) xs)"

definition spec_instruction :: "Pubkey list \<Rightarrow> Instruction \<Rightarrow> SanitizedInstruction" where
  "spec_instruction keys ix =
     \<lparr>si_ProgramIDIndex = word_of_nat (position keys (ix_ProgramID ix)),
      si_Accounts = map (\<lambda>am. word_of_nat (position keys (am_Pubkey am))) (ix_Accounts ix),
      si_Data = ix_Data ix\<rparr>"

definition spec_signers :: "Instruction list \<Rightarrow> Pubkey option \<Rightarrow> nat" where
  "spec_signers ixs payer = length (filter (key_signer ixs payer) (spec_keys ixs payer))"

definition compile_spec :: "Instruction list \<Rightarrow> Pubkey option \<Rightarrow> Hash \<Rightarrow> SanitizedMessage result" where
  "compile_spec ixs payer bh =
     (let keys = spec_keys ixs payer;
          rs = length (spec_group ixs payer True False);
          rn = length (spec_group ixs payer False False)
      in if spec_signers ixs payer > 255 \<or> rn > 255 \<or> length keys > 256 then Inl overflowError
         else Inr \<lparr>msg_Header = \<lparr>hd_NumRequiredSignatures = word_of_nat (spec_signers ixs payer),
                     hd_NumReadonlySignedAccounts = word_of_nat rs,
                     hd_NumReadonlyUnsignedAccounts = word_of_nat rn\<rparr>,
                   msg_AccountKeys = keys, msg_RecentBlockhash = bh,
                   msg_Instructions = map (spec_instruction keys) ixs\<rparr>)"

text \<open>The only thing known of the order of a range over a map: every key comes once.\<close>

definition map_order :: "(Pubkey list \<Rightarrow> Pubkey list) \<Rightarrow> bool" where
  "map_order ord \<longleftrightarrow> (\<forall>ks. mset (ord ks) = mset ks)"

section \<open>The metadata map\<close>

lemma lookup_withMeta:
  "lookupMeta (withMeta f kmm key) k = (if k = key then f (lookupMeta kmm k) else lookupMeta kmm k)"
  by (auto simp: lookupMeta_def withMeta_def getMeta_def update_conv' split: option.splits)

lemma keys_withMeta: "fst ` set (withMeta f kmm key) = insert key (fst ` set kmm)"
  by (simp add: withMeta_def getMeta_def dom_update split: option.split)

lemma distinct_withMeta:
  "distinct (map fst kmm) \<Longrightarrow> distinct (map fst (withMeta f kmm key))"
  by (auto simp: withMeta_def getMeta_def distinct_update split: option.split)

lemma keys_noteAccounts:
  "fst ` set (foldl noteAccount kmm ams) = fst ` set kmm \<union> am_Pubkey ` set ams"
  by (induction ams arbitrary: kmm) (auto simp: noteAccount_def keys_withMeta)

lemma distinct_noteAccounts:
  "distinct (map fst kmm) \<Longrightarrow> distinct (map fst (foldl noteAccount kmm ams))"
  by (induction ams arbitrary: kmm) (auto simp: noteAccount_def distinct_withMeta)

lemma lookup_noteAccounts:
  "lookupMeta (foldl noteAccount kmm ams) k =
     (lookupMeta kmm k)
       \<lparr>isSigner := isSigner (lookupMeta kmm k) \<or> (\<exists>am\<in>set ams. am_Pubkey am = k \<and> am_IsSigner am),
        isWritable := isWritable (lookupMeta kmm k) \<or> (\<exists>am\<in>set ams. am_Pubkey am = k \<and> am_IsWritable am)\<rparr>"
  by (induction ams arbitrary: kmm) (auto simp: noteAccount_def lookup_withMeta)

lemma keys_noteInstructions:
  "fst ` set (foldl noteInstruction kmm ixs) = fst ` set kmm \<union> (\<Union>ix\<in>set ixs. ix_keys ix)"
  by (induction ixs arbitrary: kmm)
    (auto simp: noteInstruction_def keys_noteAccounts keys_withMeta ix_keys_def)

lemma distinct_noteInstructions:
  "distinct (map fst kmm) \<Longrightarrow> distinct (map fst (foldl noteInstruction kmm ixs))"
  by (induction ixs arbitrary: kmm)
    (auto simp: noteInstruction_def distinct_noteAccounts distinct_withMeta)

lemma flags_noteInstructions:
  "isSigner (lookupMeta (foldl noteInstruction kmm ixs) k) \<longleftrightarrow>
     isSigner (lookupMeta kmm k) \<or> (\<exists>ix\<in>set ixs. \<exists>am\<in>set (ix_Accounts ix). am_Pubkey am = k \<and> am_IsSigner am)"
  "isWritable (lookupMeta (foldl noteInstruction kmm ixs) k) \<longleftrightarrow>
     isWritable (lookupMeta kmm k) \<or> (\<exists>ix\<in>set ixs. \<exists>am\<in>set (ix_Accounts ix). am_Pubkey am = k \<and> am_IsWritable am)"
  by (induction ixs arbitrary: kmm)
    (auto simp: noteInstruction_def lookup_noteAccounts lookup_withMeta)

lemma keys_collectKeys: "fst ` set (collectKeys ixs payer) = referenced ixs payer"
  by (auto simp: collectKeys_def notePayer_def keys_withMeta keys_noteInstructions referenced_def
      split: option.split)

lemma distinct_collectKeys: "distinct (map fst (collectKeys ixs payer))"
  by (auto simp: collectKeys_def notePayer_def distinct_withMeta distinct_noteInstructions
      split: option.split)

lemma lookupMeta_Nil: "lookupMeta [] k = zeroMeta"
  by (simp add: lookupMeta_def)

lemma flags_collectKeys:
  "isSigner (lookupMeta (collectKeys ixs payer) k) = key_signer ixs payer k"
  "isWritable (lookupMeta (collectKeys ixs payer) k) = key_writable ixs payer k"
  by (auto simp: collectKeys_def notePayer_def lookup_withMeta flags_noteInstructions lookupMeta_Nil
      zeroMeta_def key_signer_def key_writable_def split: option.split)

text \<open>Every key that the grouping loop looks up has an entry.\<close>

lemma lookupMeta_Some:
  assumes "map_order ord" and "k \<in> set (ord (map fst kmm))"
  shows "map_of kmm k = Some (lookupMeta kmm k)"
proof -
  have "set (ord (map fst kmm)) = fst ` set kmm"
    using assms(1) by (metis image_set map_order_def set_mset_mset)
  with assms(2) show ?thesis
    by (auto simp: lookupMeta_def map_of_eq_None_iff split: option.split)
qed

section \<open>Groups and account keys\<close>

lemma classify_groups:
  "foldl (classifyKey kmm) g ks =
     \<lparr>writableSigners = writableSigners g @
        filter (\<lambda>k. isSigner (lookupMeta kmm k) \<and> isWritable (lookupMeta kmm k)) ks,
      readonlySigners = readonlySigners g @
        filter (\<lambda>k. isSigner (lookupMeta kmm k) \<and> \<not> isWritable (lookupMeta kmm k)) ks,
      writableNonSigners = writableNonSigners g @
        filter (\<lambda>k. \<not> isSigner (lookupMeta kmm k) \<and> isWritable (lookupMeta kmm k)) ks,
      readonlyNonSigners = readonlyNonSigners g @
        filter (\<lambda>k. \<not> isSigner (lookupMeta kmm k) \<and> \<not> isWritable (lookupMeta kmm k)) ks\<rparr>"
  by (induction ks arbitrary: g) (auto simp: classifyKey_def Let_def)

lemma finite_referenced: "finite (referenced ixs payer)"
  by (auto simp: referenced_def ix_keys_def)

lemma sortedKeys_spec:
  assumes "map_order ord"
  shows "sortedKeys ord (collectKeys ixs payer) payer =
    sorted_list_of_set (referenced ixs payer - set_option payer)"
proof -
  let ?ks = "filter (\<lambda>k. payer \<noteq> Some k) (map fst (collectKeys ixs payer))"
  have "sortedKeys ord (collectKeys ixs payer) payer = sort ?ks"
    using assms unfolding sortedKeys_def key_sort.srt_eq_sort [symmetric] map_order_def
    by (intro key_sort.srt_cong) simp
  also have "\<dots> = sorted_list_of_set (set ?ks)"
    using distinct_filter [OF distinct_collectKeys]
    by (simp only: sorted_list_of_set_sort_remdups distinct_remdups_id)
  also have "set ?ks = referenced ixs payer - set_option payer"
    by (auto simp flip: keys_collectKeys)
  finally show ?thesis .
qed

lemma groupKeys_spec:
  assumes "map_order ord"
  shows "groupKeys ord (collectKeys ixs payer) payer =
    \<lparr>writableSigners = payer_list payer @ spec_group ixs payer True True,
     readonlySigners = spec_group ixs payer True False,
     writableNonSigners = spec_group ixs payer False True,
     readonlyNonSigners = spec_group ixs payer False False\<rparr>"
  by (simp add: groupKeys_def sortedKeys_spec [OF assms] classify_groups flags_collectKeys
      spec_group_def payer_list_def)

lemma set_spec_group:
  "set (spec_group ixs payer s w) =
     {k \<in> referenced ixs payer. payer \<noteq> Some k \<and> key_signer ixs payer k = s \<and> key_writable ixs payer k = w}"
  by (auto simp: spec_group_def finite_referenced)

lemma payer_referenced: "payer = Some p \<Longrightarrow> p \<in> referenced ixs payer"
  by (simp add: referenced_def)

lemma set_spec_keys: "set (spec_keys ixs payer) = referenced ixs payer"
  by (auto simp: spec_keys_def payer_list_def set_spec_group payer_referenced split: option.split)

lemma distinct_spec_group: "distinct (spec_group ixs payer s w)"
  by (simp add: spec_group_def)

lemma distinct_spec_keys: "distinct (spec_keys ixs payer)"
  by (auto simp: spec_keys_def payer_list_def set_spec_group distinct_spec_group split: option.split)

lemma filter_signer_groups:
  "filter (key_signer ixs payer) (payer_list payer) = payer_list payer"
  "filter (key_signer ixs payer) (spec_group ixs payer s w) = (if s then spec_group ixs payer s w else [])"
  by (auto simp: payer_list_def key_signer_def spec_group_def intro!: filter_cong filter_False
      split: option.split)

lemma spec_signers_length:
  "spec_signers ixs payer =
     length (payer_list payer) + length (spec_group ixs payer True True) +
     length (spec_group ixs payer True False)"
  by (simp add: spec_signers_def spec_keys_def filter_signer_groups)

section \<open>Key indices\<close>

lemma index_loop:
  "distinct ks \<Longrightarrow>
     foldl (\<lambda>m (i, key). m(key \<mapsto> f i)) m (enumerate n ks) k =
       (if k \<in> set ks then Some (f (n + position ks k)) else m k)"
  by (induction ks arbitrary: m n) (auto simp: position_def)

lemma indexKeys_position:
  "distinct keys \<Longrightarrow>
     indexKeys keys k = (if k \<in> set keys then Some (word_of_nat (position keys k)) else None)"
  unfolding indexKeys_def by (subst index_loop) simp_all

lemma position_less: "x \<in> set xs \<Longrightarrow> position xs x < length xs"
  by (induction xs) (auto simp: position_def)

lemma nth_position: "x \<in> set xs \<Longrightarrow> xs ! position xs x = x"
  by (induction xs) (auto simp: position_def)

lemma compileAccounts_ok:
  "am_Pubkey ` set ams \<subseteq> dom idx \<Longrightarrow>
     compileAccounts idx ams acc = Inr (acc @ map (\<lambda>am. the (idx (am_Pubkey am))) ams)"
  by (induction ams arbitrary: acc) auto

lemma compileInstructions_ok:
  "(\<Union>ix\<in>set ixs. ix_keys ix) \<subseteq> dom idx \<Longrightarrow>
     compileInstructions idx ixs acc =
       Inr (acc @ map (\<lambda>ix. \<lparr>si_ProgramIDIndex = the (idx (ix_ProgramID ix)),
              si_Accounts = map (\<lambda>am. the (idx (am_Pubkey am))) (ix_Accounts ix),
              si_Data = ix_Data ix\<rparr>) ixs)"
  by (induction ixs arbitrary: acc) (auto simp: ix_keys_def compileAccounts_ok)

lemma compile_spec_instructions:
  "compileInstructions (indexKeys (spec_keys ixs payer)) ixs [] =
     Inr (map (spec_instruction (spec_keys ixs payer)) ixs)"
proof -
  have idx: "indexKeys (spec_keys ixs payer) k = Some (word_of_nat (position (spec_keys ixs payer) k))"
    if "k \<in> referenced ixs payer" for k
    using that by (simp add: indexKeys_position distinct_spec_keys set_spec_keys)
  have sub: "(\<Union>ix\<in>set ixs. ix_keys ix) \<subseteq> referenced ixs payer"
    by (auto simp: referenced_def)
  then have "(\<Union>ix\<in>set ixs. ix_keys ix) \<subseteq> dom (indexKeys (spec_keys ixs payer))"
    using idx by blast
  moreover have "the (indexKeys (spec_keys ixs payer) k) = word_of_nat (position (spec_keys ixs payer) k)"
    if "ix \<in> set ixs" "k \<in> ix_keys ix" for ix k
    using that sub idx by (metis UN_I option.sel subsetD)
  ultimately show ?thesis
    by (simp add: compileInstructions_ok spec_instruction_def ix_keys_def)
qed

section \<open>Refinement\<close>

lemma NewSanitizedMessage_spec_eq:
  assumes "map_order ord"
  shows "NewSanitizedMessage ord ixs payer bh = compile_spec ixs payer bh"
proof -
  have "length (spec_keys ixs payer) =
      spec_signers ixs payer + length (spec_group ixs payer False True) +
      length (spec_group ixs payer False False)"
    by (simp add: spec_signers_length spec_keys_def)
  moreover have "length (spec_group ixs payer True False) \<le> spec_signers ixs payer"
    by (simp add: spec_signers_length)
  ultimately show ?thesis
    by (simp add: NewSanitizedMessage_def groupKeys_spec [OF assms] compile_spec_def Let_def
        spec_signers_length compile_spec_instructions [unfolded spec_keys_def] spec_keys_def
        ac_simps)
qed

text \<open>
  C1 (refinement). Whatever order Go's map iteration yields, compilation computes the abstract
  specification: payer first, then the keys of each privilege class in byte order, with the
  overflow error exactly when a count does not fit. The result does not depend on the map order,
  and the unknown-key errors of the code are unreachable.
\<close>

theorem NewSanitizedMessage_refines_spec:
  assumes "map_order ord" and "map_order ord'"
  shows "NewSanitizedMessage ord ixs payer bh = compile_spec ixs payer bh \<and>
    NewSanitizedMessage ord' ixs payer bh = NewSanitizedMessage ord ixs payer bh \<and>
    (\<forall>e. NewSanitizedMessage ord ixs payer bh = Inl e \<longrightarrow> e = overflowError)"
  using assms by (simp add: NewSanitizedMessage_spec_eq) (simp add: compile_spec_def Let_def)

definition pk :: "byte \<Rightarrow> Pubkey" where
  "pk b = copy_into [b]"

text \<open>The instruction of the repository's test of the key order.\<close>

definition exampleInstruction :: Instruction where
  "exampleInstruction =
     \<lparr>ix_ProgramID = pk 150,
      ix_Accounts =
        [\<lparr>am_Pubkey = pk 5, am_IsSigner = True, am_IsWritable = True\<rparr>,
         \<lparr>am_Pubkey = pk 2, am_IsSigner = True, am_IsWritable = True\<rparr>,
         \<lparr>am_Pubkey = pk 80, am_IsSigner = False, am_IsWritable = True\<rparr>,
         \<lparr>am_Pubkey = pk 70, am_IsSigner = False, am_IsWritable = True\<rparr>,
         \<lparr>am_Pubkey = pk 40, am_IsSigner = True, am_IsWritable = False\<rparr>],
      ix_Data = [1]\<rparr>"

definition exampleMessage :: SanitizedMessage where
  "exampleMessage =
     \<lparr>msg_Header = \<lparr>hd_NumRequiredSignatures = 4, hd_NumReadonlySignedAccounts = 1,
        hd_NumReadonlyUnsignedAccounts = 1\<rparr>,
      msg_AccountKeys = [pk 200, pk 2, pk 5, pk 40, pk 70, pk 80, pk 150],
      msg_RecentBlockhash = copy_into [],
      msg_Instructions =
        [\<lparr>si_ProgramIDIndex = 6, si_Accounts = [2, 1, 5, 4, 3], si_Data = [1]\<rparr>]\<rparr>"

lemma map_order_rev: "map_order rev"
  by (simp add: map_order_def)

lemma compile_example:
  "NewSanitizedMessage rev [exampleInstruction] (Some (pk 200)) (copy_into []) = Inr exampleMessage"
  by code_simp

theorem NewSanitizedMessage_refines_spec_witness:
  "map_order rev \<and>
   compile_spec [exampleInstruction] (Some (pk 200)) (copy_into []) = Inr exampleMessage"
  using NewSanitizedMessage_refines_spec [OF map_order_rev map_order_rev] compile_example map_order_rev
  by metis

section \<open>Properties of the compiled message\<close>

text \<open>How the runtime reads the privileges of an account: from the header and its position.\<close>

definition index_is_signer :: "SanitizedMessage \<Rightarrow> nat \<Rightarrow> bool" where
  "index_is_signer m i \<longleftrightarrow> i < unat (hd_NumRequiredSignatures (msg_Header m))"

definition index_is_writable :: "SanitizedMessage \<Rightarrow> nat \<Rightarrow> bool" where
  "index_is_writable m i \<longleftrightarrow>
     (let h = msg_Header m; req = unat (hd_NumRequiredSignatures h) in
      i < req - unat (hd_NumReadonlySignedAccounts h) \<or>
      req \<le> i \<and> i < length (msg_AccountKeys m) - unat (hd_NumReadonlyUnsignedAccounts h))"

lemma compile_spec_Inr:
  assumes "compile_spec ixs payer bh = Inr m"
  shows "msg_AccountKeys m = spec_keys ixs payer"
    and "msg_RecentBlockhash m = bh"
    and "msg_Instructions m = map (spec_instruction (spec_keys ixs payer)) ixs"
    and "unat (hd_NumRequiredSignatures (msg_Header m)) = spec_signers ixs payer"
    and "unat (hd_NumReadonlySignedAccounts (msg_Header m)) = length (spec_group ixs payer True False)"
    and "unat (hd_NumReadonlyUnsignedAccounts (msg_Header m)) = length (spec_group ixs payer False False)"
    and "length (spec_keys ixs payer) \<le> 256"
    and "spec_signers ixs payer \<le> 255"
proof -
  have "length (spec_group ixs payer True False) \<le> spec_signers ixs payer"
    by (simp add: spec_signers_length)
  then show "msg_AccountKeys m = spec_keys ixs payer" "msg_RecentBlockhash m = bh"
    "msg_Instructions m = map (spec_instruction (spec_keys ixs payer)) ixs"
    "unat (hd_NumRequiredSignatures (msg_Header m)) = spec_signers ixs payer"
    "unat (hd_NumReadonlySignedAccounts (msg_Header m)) = length (spec_group ixs payer True False)"
    "unat (hd_NumReadonlyUnsignedAccounts (msg_Header m)) = length (spec_group ixs payer False False)"
    "length (spec_keys ixs payer) \<le> 256" "spec_signers ixs payer \<le> 255"
    using assms by (auto simp: compile_spec_def Let_def unat_word_of_nat8 split: if_splits)
qed

lemma nth_in_prefix:
  "distinct (xs @ ys) \<Longrightarrow> i < length (xs @ ys) \<Longrightarrow> (xs @ ys) ! i \<in> set xs \<longleftrightarrow> i < length xs"
  by (auto simp: nth_append)

lemma role_of_index:
  assumes "i < length (spec_keys ixs payer)"
  shows "key_signer ixs payer (spec_keys ixs payer ! i) \<longleftrightarrow> i < spec_signers ixs payer"
    and "key_writable ixs payer (spec_keys ixs payer ! i) \<longleftrightarrow>
      i < spec_signers ixs payer - length (spec_group ixs payer True False) \<or>
      spec_signers ixs payer \<le> i \<and>
      i < length (spec_keys ixs payer) - length (spec_group ixs payer False False)"
proof -
  let ?k = "spec_keys ixs payer ! i"
  let ?A = "payer_list payer @ spec_group ixs payer True True"
  let ?B = "spec_group ixs payer True False"
  let ?C = "spec_group ixs payer False True"
  let ?D = "spec_group ixs payer False False"
  have keys: "spec_keys ixs payer = ?A @ ?B @ ?C @ ?D"
    by (simp add: spec_keys_def)
  have k: "?k \<in> set (?A @ ?B @ ?C @ ?D)"
    using nth_mem [OF assms] by (simp only: keys)
  have A: "?k \<in> set ?A \<longleftrightarrow> i < length ?A"
    using nth_in_prefix [of ?A "?B @ ?C @ ?D" i] assms distinct_spec_keys [of ixs payer]
    by (simp add: keys)
  have AB: "?k \<in> set (?A @ ?B) \<longleftrightarrow> i < length (?A @ ?B)"
    using nth_in_prefix [of "?A @ ?B" "?C @ ?D" i] assms distinct_spec_keys [of ixs payer]
    by (simp add: keys)
  have ABC: "?k \<in> set (?A @ ?B @ ?C) \<longleftrightarrow> i < length (?A @ ?B @ ?C)"
    using nth_in_prefix [of "?A @ ?B @ ?C" ?D i] assms distinct_spec_keys [of ixs payer]
    by (simp add: keys)
  have payer: "p \<in> set (payer_list payer) \<Longrightarrow> key_signer ixs payer p \<and> key_writable ixs payer p" for p
    by (auto simp: payer_list_def key_signer_def key_writable_def split: option.splits)
  have signer: "key_signer ixs payer ?k \<longleftrightarrow> ?k \<in> set (?A @ ?B)"
    using k payer by (auto simp: set_spec_group)
  have writable: "key_writable ixs payer ?k \<longleftrightarrow> ?k \<in> set ?A \<or> ?k \<in> set (?A @ ?B @ ?C) \<and> ?k \<notin> set (?A @ ?B)"
    using k payer by (auto simp: set_spec_group)
  show "key_signer ixs payer ?k \<longleftrightarrow> i < spec_signers ixs payer"
    unfolding signer AB by (simp add: spec_signers_length add.assoc)
  show "key_writable ixs payer ?k \<longleftrightarrow>
      i < spec_signers ixs payer - length ?B \<or>
      spec_signers ixs payer \<le> i \<and> i < length (spec_keys ixs payer) - length ?D"
    unfolding writable A AB ABC by (auto simp: spec_signers_length keys)
qed

text \<open>
  C2 (functional). Header and position encode exactly the merged privileges: account \<open>i\<close> of a
  compiled message is a required signer (respectively writable) for the runtime if and only if
  its key is the payer or some instruction lists it as a signer (respectively writable).
\<close>

theorem compiled_roles:
  assumes "map_order ord" and "NewSanitizedMessage ord ixs payer bh = Inr m"
    and "i < length (msg_AccountKeys m)"
  shows "(index_is_signer m i \<longleftrightarrow> key_signer ixs payer (msg_AccountKeys m ! i)) \<and>
    (index_is_writable m i \<longleftrightarrow> key_writable ixs payer (msg_AccountKeys m ! i))"
proof -
  have spec: "compile_spec ixs payer bh = Inr m"
    using assms(1,2) NewSanitizedMessage_spec_eq by metis
  note facts = compile_spec_Inr [OF spec]
  have "i < length (spec_keys ixs payer)"
    using assms(3) by (simp add: facts(1))
  from role_of_index [OF this] show ?thesis
    by (simp add: index_is_signer_def index_is_writable_def facts Let_def)
qed

theorem compiled_roles_witness:
  "NewSanitizedMessage rev [exampleInstruction] (Some (pk 200)) (copy_into []) = Inr exampleMessage \<and>
   (index_is_signer exampleMessage 3 \<longleftrightarrow> key_signer [exampleInstruction] (Some (pk 200)) (pk 40)) \<and>
   (index_is_writable exampleMessage 3 \<longleftrightarrow> key_writable [exampleInstruction] (Some (pk 200)) (pk 40))"
proof -
  have i: "3 < length (msg_AccountKeys exampleMessage)" "msg_AccountKeys exampleMessage ! 3 = pk 40"
    by (simp_all add: exampleMessage_def)
  show ?thesis
    using compiled_roles [OF map_order_rev compile_example i(1)] compile_example by (simp only: i(2))
qed

text \<open>The privilege class of a key, in the order the classes are laid out.\<close>

definition key_rank :: "Instruction list \<Rightarrow> Pubkey option \<Rightarrow> Pubkey \<Rightarrow> nat" where
  "key_rank ixs payer k =
     (if key_signer ixs payer k then (if key_writable ixs payer k then 0 else 1)
      else (if key_writable ixs payer k then 2 else 3))"

definition key_before :: "Instruction list \<Rightarrow> Pubkey option \<Rightarrow> Pubkey \<Rightarrow> Pubkey \<Rightarrow> bool" where
  "key_before ixs payer k k' \<longleftrightarrow>
     payer = Some k \<or> key_rank ixs payer k < key_rank ixs payer k' \<or>
     key_rank ixs payer k = key_rank ixs payer k' \<and> k < k'"

lemma sorted_spec_group: "sorted_wrt (<) (spec_group ixs payer s w)"
  unfolding spec_group_def by (intro sorted_wrt_filter strict_sorted_list_of_set)

lemma before_spec_group: "sorted_wrt (key_before ixs payer) (spec_group ixs payer s w)"
  by (rule sorted_wrt_mono_rel [OF _ sorted_spec_group])
    (auto simp: key_before_def key_rank_def set_spec_group)

lemma before_spec_keys: "sorted_wrt (key_before ixs payer) (spec_keys ixs payer)"
  unfolding spec_keys_def sorted_wrt_append
  by (auto simp: before_spec_group payer_list_def set_spec_group key_before_def key_rank_def
      split: option.splits)

lemma hd_spec_keys: "payer = Some p \<Longrightarrow> spec_keys ixs payer ! 0 = p \<and> spec_keys ixs payer \<noteq> []"
  by (simp add: spec_keys_def payer_list_def)

text \<open>
  C6 (functional). The account keys of a compiled message are exactly the payer and the keys the
  instructions mention, without repetition; the payer is first; and the order is total and
  canonical: writable signers, readonly signers, writable non-signers, readonly non-signers,
  bytewise within a class.
\<close>

theorem compiled_account_keys:
  assumes "map_order ord" and "NewSanitizedMessage ord ixs payer bh = Inr m"
  shows "set (msg_AccountKeys m) = referenced ixs payer \<and> distinct (msg_AccountKeys m) \<and>
    sorted_wrt (key_before ixs payer) (msg_AccountKeys m) \<and>
    (\<forall>p. payer = Some p \<longrightarrow> msg_AccountKeys m \<noteq> [] \<and> msg_AccountKeys m ! 0 = p) \<and>
    msg_RecentBlockhash m = bh"
proof -
  have "compile_spec ixs payer bh = Inr m"
    using assms NewSanitizedMessage_spec_eq by metis
  from compile_spec_Inr(1,2) [OF this] show ?thesis
    using hd_spec_keys by (simp add: set_spec_keys distinct_spec_keys before_spec_keys)
qed

theorem compiled_account_keys_witness:
  "NewSanitizedMessage rev [exampleInstruction] (Some (pk 200)) (copy_into []) = Inr exampleMessage \<and>
   set (msg_AccountKeys exampleMessage) = referenced [exampleInstruction] (Some (pk 200)) \<and>
   msg_AccountKeys exampleMessage ! 0 = pk 200"
  using compiled_account_keys [OF map_order_rev compile_example] compile_example by blast

text \<open>Resolving the indices of a compiled instruction against the account keys.\<close>

definition resolve :: "Pubkey list \<Rightarrow> byte \<Rightarrow> Pubkey option" where
  "resolve keys i = (if unat i < length keys then Some (keys ! unat i) else None)"

definition decompile :: "Pubkey list \<Rightarrow> SanitizedInstruction \<Rightarrow> Pubkey option \<times> Pubkey option list \<times> byte list" where
  "decompile keys si =
     (resolve keys (si_ProgramIDIndex si), map (resolve keys) (si_Accounts si), si_Data si)"

lemma resolve_position:
  assumes "length keys \<le> 256" and "k \<in> set keys"
  shows "resolve keys (word_of_nat (position keys k)) = Some k"
proof -
  have "position keys k < length keys"
    using assms(2) by (rule position_less)
  with assms show ?thesis
    by (simp add: resolve_def unat_word_of_nat8 nth_position)
qed

lemma decompile_spec_instruction:
  assumes "length keys \<le> 256" and "ix_keys ix \<subseteq> set keys"
  shows "decompile keys (spec_instruction keys ix) =
    (Some (ix_ProgramID ix), map (Some \<circ> am_Pubkey) (ix_Accounts ix), ix_Data ix)"
  using assms by (auto simp: decompile_def spec_instruction_def ix_keys_def resolve_position)

text \<open>
  C8 (round trip). Compilation loses no instruction: resolving the one-byte indices of the compiled
  instructions against the account keys gives back, in order, the program, the accounts and the
  data of every original instruction; no index is out of range and none wrapped around.
\<close>

theorem compiled_instructions_resolve:
  assumes "map_order ord" and "NewSanitizedMessage ord ixs payer bh = Inr m"
  shows "map (decompile (msg_AccountKeys m)) (msg_Instructions m) =
    map (\<lambda>ix. (Some (ix_ProgramID ix), map (Some \<circ> am_Pubkey) (ix_Accounts ix), ix_Data ix)) ixs"
proof -
  have "compile_spec ixs payer bh = Inr m"
    using assms NewSanitizedMessage_spec_eq by metis
  note facts = compile_spec_Inr [OF this]
  have "ix_keys ix \<subseteq> set (spec_keys ixs payer)" if "ix \<in> set ixs" for ix
    using that by (auto simp: set_spec_keys referenced_def)
  then show ?thesis
    using facts(7) by (simp add: facts decompile_spec_instruction)
qed

theorem compiled_instructions_resolve_witness:
  "NewSanitizedMessage rev [exampleInstruction] (Some (pk 200)) (copy_into []) = Inr exampleMessage \<and>
   map (decompile (msg_AccountKeys exampleMessage)) (msg_Instructions exampleMessage) =
     [(Some (pk 150), [Some (pk 5), Some (pk 2), Some (pk 80), Some (pk 70), Some (pk 40)], [1])]"
  using compiled_instructions_resolve [OF map_order_rev compile_example] compile_example
  by (simp add: exampleInstruction_def)

lemma spec_signers_card:
  "spec_signers ixs payer = card {k \<in> referenced ixs payer. key_signer ixs payer k}"
  using distinct_card [OF distinct_filter [OF distinct_spec_keys], of "key_signer ixs payer" ixs payer]
  by (simp add: spec_signers_def set_spec_keys)

lemma spec_readonly_card:
  "length (spec_group ixs payer False False) =
     card {k \<in> referenced ixs payer. \<not> key_signer ixs payer k \<and> \<not> key_writable ixs payer k}"
proof -
  have "set (spec_group ixs payer False False) =
      {k \<in> referenced ixs payer. \<not> key_signer ixs payer k \<and> \<not> key_writable ixs payer k}"
    by (auto simp: set_spec_group key_signer_def)
  then show ?thesis
    using distinct_card [OF distinct_spec_group, of ixs payer False False] by simp
qed

lemma spec_keys_card: "length (spec_keys ixs payer) = card (referenced ixs payer)"
  using distinct_card [OF distinct_spec_keys, of ixs payer] by (simp add: set_spec_keys)

text \<open>
  C9 (error). Compilation fails only with the overflow error, and exactly when there are more than
  255 signers, more than 255 readonly non-signers, or more than 256 keys; otherwise it returns a
  message.
\<close>

theorem compile_succeeds_iff:
  assumes "map_order ord"
  shows "(\<exists>m. NewSanitizedMessage ord ixs payer bh = Inr m) \<longleftrightarrow>
      card {k \<in> referenced ixs payer. key_signer ixs payer k} \<le> 255 \<and>
      card {k \<in> referenced ixs payer. \<not> key_signer ixs payer k \<and> \<not> key_writable ixs payer k} \<le> 255 \<and>
      card (referenced ixs payer) \<le> 256"
  unfolding NewSanitizedMessage_spec_eq [OF assms]
  by (auto simp: compile_spec_def Let_def not_less
      simp flip: spec_signers_card spec_readonly_card spec_keys_card)

theorem compile_succeeds_iff_witness:
  "map_order rev \<and> (\<exists>m. NewSanitizedMessage rev [exampleInstruction] (Some (pk 200)) (copy_into []) = Inr m) \<and>
   card (referenced [exampleInstruction] (Some (pk 200))) \<le> 256"
proof -
  have ex: "\<exists>m. NewSanitizedMessage rev [exampleInstruction] (Some (pk 200)) (copy_into []) = Inr m"
    using compile_example by (rule exI)
  from compile_succeeds_iff [OF map_order_rev, THEN iffD1, OF ex] ex map_order_rev
  show ?thesis by (simp only: simp_thms)
qed

text \<open>
  A message the runtime accepts as sanitized: the header's counts describe disjoint classes within the
  account keys, no key is repeated, and every index of every instruction is one of an account key.
\<close>

definition message_wf :: "SanitizedMessage \<Rightarrow> bool" where
  "message_wf m \<longleftrightarrow>
     (let h = msg_Header m; n = length (msg_AccountKeys m) in
      n \<le> 256 \<and> distinct (msg_AccountKeys m) \<and>
      unat (hd_NumReadonlySignedAccounts h) \<le> unat (hd_NumRequiredSignatures h) \<and>
      unat (hd_NumRequiredSignatures h) + unat (hd_NumReadonlyUnsignedAccounts h) \<le> n \<and>
      list_all (\<lambda>si. unat (si_ProgramIDIndex si) < n \<and> list_all (\<lambda>i. unat i < n) (si_Accounts si))
        (msg_Instructions m))"

text \<open>
  C7 (type). Whatever the instructions, a compiled message is well formed; and with a payer it has at
  least one signer that is writable, which is the one that pays.
\<close>

theorem compiled_wellformed:
  assumes "map_order ord" and "NewSanitizedMessage ord ixs payer bh = Inr m"
  shows "message_wf m \<and>
    (payer \<noteq> None \<longrightarrow>
       unat (hd_NumReadonlySignedAccounts (msg_Header m)) < unat (hd_NumRequiredSignatures (msg_Header m)))"
proof -
  have "compile_spec ixs payer bh = Inr m"
    using assms NewSanitizedMessage_spec_eq by metis
  note facts = compile_spec_Inr [OF this]
  have "unat (word_of_nat (position (spec_keys ixs payer) k) :: byte) < length (spec_keys ixs payer)"
    if "ix \<in> set ixs" "k \<in> ix_keys ix" for ix k
  proof -
    have "k \<in> set (spec_keys ixs payer)"
      using that by (auto simp: set_spec_keys referenced_def)
    from position_less [OF this] show ?thesis
      using facts(7) by (simp add: unat_word_of_nat8)
  qed
  then have "list_all (\<lambda>si. unat (si_ProgramIDIndex si) < length (spec_keys ixs payer) \<and>
      list_all (\<lambda>i. unat i < length (spec_keys ixs payer)) (si_Accounts si)) (msg_Instructions m)"
    by (auto simp: facts(3) list_all_iff spec_instruction_def ix_keys_def)
  moreover have "spec_signers ixs payer + length (spec_group ixs payer False False) \<le> length (spec_keys ixs payer)"
    by (simp add: spec_signers_length spec_keys_def)
  ultimately show ?thesis
    by (auto simp: message_wf_def facts distinct_spec_keys spec_signers_length payer_list_def Let_def
        split: option.splits)
qed

theorem compiled_wellformed_witness:
  "NewSanitizedMessage rev [exampleInstruction] (Some (pk 200)) (copy_into []) = Inr exampleMessage \<and>
   message_wf exampleMessage"
  using compiled_wellformed [OF map_order_rev compile_example] compile_example by blast

end
