(* ===== verification/Arch_System.thy ===== *)
theory Arch_System
  imports Arch_Message
begin

text \<open>
  \<open>system.go\<close>: the builders of system-program instructions and the little helpers they share.
  The instruction data is compared with an abstract syntax of system instructions: \<open>enc_system\<close>
  is its wire layout, \<open>dec_system\<close> reads it back, and every builder emits the layout of the
  instruction it is named after.
\<close>

section \<open>Helpers\<close>

definition appendU32 :: "byte list \<Rightarrow> u32 \<Rightarrow> byte list" where
  "appendU32 buf v = AppendUint32 buf v"

definition appendU64 :: "byte list \<Rightarrow> u64 \<Rightarrow> byte list" where
  "appendU64 buf v = AppendUint64 buf v"

definition appendString :: "byte list \<Rightarrow> string \<Rightarrow> byte list" where
  "appendString buf s = appendU64 buf (word_of_nat (length s)) @ bytes_of_string s"

definition decodeTxid :: "string \<Rightarrow> byte list result" where
  "decodeTxid txid =
     (case DecodeString txid of
        Inl err \<Rightarrow> Inl (WrapErr ''invalid txid hex: %w'' err)
      | Inr b \<Rightarrow>
          if length b \<noteq> 32 then Inl (Errorf ''txid must be 32 bytes, got %d'' [FInt (int (length b))])
          else Inr b)"

text \<open>An account with its two flags, as in the struct literals of the builders.\<close>

abbreviation account :: "Pubkey \<Rightarrow> bool \<Rightarrow> bool \<Rightarrow> AccountMeta" where
  "account key signer writable \<equiv>
     \<lparr>am_Pubkey = key, am_IsSigner = signer, am_IsWritable = writable\<rparr>"

section \<open>Discriminants\<close>

definition sysCreateAccount :: u32 where "sysCreateAccount = 0"
definition sysCreateAccountWithAnchor :: u32 where "sysCreateAccountWithAnchor = 1"
definition sysAssign :: u32 where "sysAssign = 2"
definition sysAnchor :: u32 where "sysAnchor = 3"
definition sysSignInput :: u32 where "sysSignInput = 4"
definition sysTransfer :: u32 where "sysTransfer = 5"
definition sysAllocate :: u32 where "sysAllocate = 6"
definition sysCreateAccountWithSeed :: u32 where "sysCreateAccountWithSeed = 7"
definition sysAllocateWithSeed :: u32 where "sysAllocateWithSeed = 8"
definition sysAssignWithSeed :: u32 where "sysAssignWithSeed = 9"
definition sysTransferWithSeed :: u32 where "sysTransferWithSeed = 10"

lemmas sys_tags =
  sysCreateAccount_def sysCreateAccountWithAnchor_def sysAssign_def sysAnchor_def sysSignInput_def
  sysTransfer_def sysAllocate_def sysCreateAccountWithSeed_def sysAllocateWithSeed_def
  sysAssignWithSeed_def sysTransferWithSeed_def

section \<open>Builders\<close>

definition CreateAccount :: "Pubkey \<Rightarrow> Pubkey \<Rightarrow> u64 \<Rightarrow> u64 \<Rightarrow> Pubkey \<Rightarrow> Instruction" where
  "CreateAccount from to lamports space owner =
     (let data = appendU32 [] sysCreateAccount;
          data = appendU64 data lamports;
          data = appendU64 data space;
          data = data @ bytes_of owner
      in \<lparr>ix_ProgramID = SystemProgramID,
          ix_Accounts = [account from True True, account to True True],
          ix_Data = data\<rparr>)"

definition CreateAccountWithAnchor ::
  "Pubkey \<Rightarrow> Pubkey \<Rightarrow> u64 \<Rightarrow> u64 \<Rightarrow> Pubkey \<Rightarrow> string \<Rightarrow> u32 \<Rightarrow> Instruction result" where
  "CreateAccountWithAnchor from to lamports space owner txid vout =
     (case decodeTxid txid of
        Inl err \<Rightarrow> Inl err
      | Inr txidBytes \<Rightarrow>
          (let data = appendU32 [] sysCreateAccountWithAnchor;
               data = appendU64 data lamports;
               data = appendU64 data space;
               data = data @ bytes_of owner;
               data = data @ txidBytes;
               data = appendU32 data vout
           in Inr \<lparr>ix_ProgramID = SystemProgramID,
                   ix_Accounts = [account from True True, account to True True],
                   ix_Data = data\<rparr>))"

definition Assign :: "Pubkey \<Rightarrow> Pubkey \<Rightarrow> Instruction" where
  "Assign pubkey owner =
     (let data = appendU32 [] sysAssign;
          data = data @ bytes_of owner
      in \<lparr>ix_ProgramID = SystemProgramID, ix_Accounts = [account pubkey True True], ix_Data = data\<rparr>)"

definition Anchor :: "Pubkey \<Rightarrow> string \<Rightarrow> u32 \<Rightarrow> Instruction result" where
  "Anchor pubkey txid vout =
     (case decodeTxid txid of
        Inl err \<Rightarrow> Inl err
      | Inr txidBytes \<Rightarrow>
          (let data = appendU32 [] sysAnchor;
               data = data @ txidBytes;
               data = appendU32 data vout
           in Inr \<lparr>ix_ProgramID = SystemProgramID, ix_Accounts = [account pubkey True True],
                   ix_Data = data\<rparr>))"

definition SignInput :: "u32 \<Rightarrow> Pubkey \<Rightarrow> Instruction" where
  "SignInput index signer =
     (let data = appendU32 [] sysSignInput;
          data = appendU32 data index
      in \<lparr>ix_ProgramID = SystemProgramID, ix_Accounts = [account signer True True], ix_Data = data\<rparr>)"

definition Transfer :: "Pubkey \<Rightarrow> Pubkey \<Rightarrow> u64 \<Rightarrow> Instruction" where
  "Transfer from to lamports =
     (let data = appendU32 [] sysTransfer;
          data = appendU64 data lamports
      in \<lparr>ix_ProgramID = SystemProgramID,
          ix_Accounts = [account from True True, account to False True],
          ix_Data = data\<rparr>)"

definition Allocate :: "Pubkey \<Rightarrow> u64 \<Rightarrow> Instruction" where
  "Allocate pubkey space =
     (let data = appendU32 [] sysAllocate;
          data = appendU64 data space
      in \<lparr>ix_ProgramID = SystemProgramID, ix_Accounts = [account pubkey True True], ix_Data = data\<rparr>)"

definition CreateAccountWithSeed ::
  "Pubkey \<Rightarrow> Pubkey \<Rightarrow> Pubkey \<Rightarrow> string \<Rightarrow> u64 \<Rightarrow> u64 \<Rightarrow> Pubkey \<Rightarrow> Instruction" where
  "CreateAccountWithSeed from to base seed lamports space owner =
     (let data = appendU32 [] sysCreateAccountWithSeed;
          data = data @ bytes_of base;
          data = appendString data seed;
          data = appendU64 data lamports;
          data = appendU64 data space;
          data = data @ bytes_of owner;
          accounts = [account from True True, account to False True];
          accounts = (if base \<noteq> from then accounts @ [account base True False] else accounts)
      in \<lparr>ix_ProgramID = SystemProgramID, ix_Accounts = accounts, ix_Data = data\<rparr>)"

definition AllocateWithSeed :: "Pubkey \<Rightarrow> Pubkey \<Rightarrow> string \<Rightarrow> u64 \<Rightarrow> Pubkey \<Rightarrow> Instruction" where
  "AllocateWithSeed address base seed space owner =
     (let data = appendU32 [] sysAllocateWithSeed;
          data = data @ bytes_of base;
          data = appendString data seed;
          data = appendU64 data space;
          data = data @ bytes_of owner
      in \<lparr>ix_ProgramID = SystemProgramID,
          ix_Accounts = [account address False True, account base True False],
          ix_Data = data\<rparr>)"

definition AssignWithSeed :: "Pubkey \<Rightarrow> Pubkey \<Rightarrow> string \<Rightarrow> Pubkey \<Rightarrow> Instruction" where
  "AssignWithSeed address base seed owner =
     (let data = appendU32 [] sysAssignWithSeed;
          data = data @ bytes_of base;
          data = appendString data seed;
          data = data @ bytes_of owner
      in \<lparr>ix_ProgramID = SystemProgramID,
          ix_Accounts = [account address False True, account base True False],
          ix_Data = data\<rparr>)"

definition TransferWithSeed ::
  "Pubkey \<Rightarrow> Pubkey \<Rightarrow> string \<Rightarrow> Pubkey \<Rightarrow> Pubkey \<Rightarrow> u64 \<Rightarrow> Instruction" where
  "TransferWithSeed from fromBase fromSeed fromOwner to lamports =
     (let data = appendU32 [] sysTransferWithSeed;
          data = appendU64 data lamports;
          data = appendString data fromSeed;
          data = data @ bytes_of fromOwner
      in \<lparr>ix_ProgramID = SystemProgramID,
          ix_Accounts = [account from False True, account fromBase True False, account to False True],
          ix_Data = data\<rparr>)"

section \<open>Abstract syntax and wire layout\<close>

datatype system_instruction =
    SysCreateAccount u64 u64 Pubkey
  | SysCreateAccountWithAnchor u64 u64 Pubkey Hash u32
  | SysAssign Pubkey
  | SysAnchor Hash u32
  | SysSignInput u32
  | SysTransfer u64
  | SysAllocate u64
  | SysCreateAccountWithSeed Pubkey "byte list" u64 u64 Pubkey
  | SysAllocateWithSeed Pubkey "byte list" u64 Pubkey
  | SysAssignWithSeed Pubkey "byte list" Pubkey
  | SysTransferWithSeed u64 "byte list" Pubkey

abbreviation enc_str :: "byte list \<Rightarrow> byte list" where
  "enc_str s \<equiv> le_bytes64 (word_of_nat (length s)) @ s"

fun enc_system :: "system_instruction \<Rightarrow> byte list" where
  "enc_system (SysCreateAccount l sp ow) =
     le_bytes32 0 @ le_bytes64 l @ le_bytes64 sp @ bytes_of ow"
| "enc_system (SysCreateAccountWithAnchor l sp ow tx v) =
     le_bytes32 1 @ le_bytes64 l @ le_bytes64 sp @ bytes_of ow @ bytes_of tx @ le_bytes32 v"
| "enc_system (SysAssign ow) = le_bytes32 2 @ bytes_of ow"
| "enc_system (SysAnchor tx v) = le_bytes32 3 @ bytes_of tx @ le_bytes32 v"
| "enc_system (SysSignInput i) = le_bytes32 4 @ le_bytes32 i"
| "enc_system (SysTransfer l) = le_bytes32 5 @ le_bytes64 l"
| "enc_system (SysAllocate sp) = le_bytes32 6 @ le_bytes64 sp"
| "enc_system (SysCreateAccountWithSeed b sd l sp ow) =
     le_bytes32 7 @ bytes_of b @ enc_str sd @ le_bytes64 l @ le_bytes64 sp @ bytes_of ow"
| "enc_system (SysAllocateWithSeed b sd sp ow) =
     le_bytes32 8 @ bytes_of b @ enc_str sd @ le_bytes64 sp @ bytes_of ow"
| "enc_system (SysAssignWithSeed b sd ow) = le_bytes32 9 @ bytes_of b @ enc_str sd @ bytes_of ow"
| "enc_system (SysTransferWithSeed l sd ow) = le_bytes32 10 @ le_bytes64 l @ enc_str sd @ bytes_of ow"

definition dec_system_body :: "u32 \<Rightarrow> system_instruction decoder" where
  "dec_system_body tag =
     (if tag = 0 then
        dec_bind dec_u64 (\<lambda>l. dec_bind dec_u64 (\<lambda>sp. dec_bind dec_array (\<lambda>ow.
          dec_return (SysCreateAccount l sp ow))))
      else if tag = 1 then
        dec_bind dec_u64 (\<lambda>l. dec_bind dec_u64 (\<lambda>sp. dec_bind dec_array (\<lambda>ow.
          dec_bind dec_array (\<lambda>tx. dec_bind dec_u32 (\<lambda>v.
            dec_return (SysCreateAccountWithAnchor l sp ow tx v))))))
      else if tag = 2 then dec_bind dec_array (\<lambda>ow. dec_return (SysAssign ow))
      else if tag = 3 then
        dec_bind dec_array (\<lambda>tx. dec_bind dec_u32 (\<lambda>v. dec_return (SysAnchor tx v)))
      else if tag = 4 then dec_bind dec_u32 (\<lambda>i. dec_return (SysSignInput i))
      else if tag = 5 then dec_bind dec_u64 (\<lambda>l. dec_return (SysTransfer l))
      else if tag = 6 then dec_bind dec_u64 (\<lambda>sp. dec_return (SysAllocate sp))
      else if tag = 7 then
        dec_bind dec_array (\<lambda>b. dec_bind dec_bytes64 (\<lambda>sd. dec_bind dec_u64 (\<lambda>l.
          dec_bind dec_u64 (\<lambda>sp. dec_bind dec_array (\<lambda>ow.
            dec_return (SysCreateAccountWithSeed b sd l sp ow))))))
      else if tag = 8 then
        dec_bind dec_array (\<lambda>b. dec_bind dec_bytes64 (\<lambda>sd. dec_bind dec_u64 (\<lambda>sp.
          dec_bind dec_array (\<lambda>ow. dec_return (SysAllocateWithSeed b sd sp ow)))))
      else if tag = 9 then
        dec_bind dec_array (\<lambda>b. dec_bind dec_bytes64 (\<lambda>sd. dec_bind dec_array (\<lambda>ow.
          dec_return (SysAssignWithSeed b sd ow))))
      else if tag = 10 then
        dec_bind dec_u64 (\<lambda>l. dec_bind dec_bytes64 (\<lambda>sd. dec_bind dec_array (\<lambda>ow.
          dec_return (SysTransferWithSeed l sd ow))))
      else dec_fail)"

definition dec_system :: "system_instruction decoder" where
  "dec_system = dec_bind dec_u32 dec_system_body"

fun ok_system :: "system_instruction \<Rightarrow> bool" where
  "ok_system (SysCreateAccountWithSeed b sd l sp ow) \<longleftrightarrow> length sd < 2 ^ 64"
| "ok_system (SysAllocateWithSeed b sd sp ow) \<longleftrightarrow> length sd < 2 ^ 64"
| "ok_system (SysAssignWithSeed b sd ow) \<longleftrightarrow> length sd < 2 ^ 64"
| "ok_system (SysTransferWithSeed l sd ow) \<longleftrightarrow> length sd < 2 ^ 64"
| "ok_system _ \<longleftrightarrow> True"

interpretation codec_system: byte_codec enc_system dec_system ok_system
proof
  fix i r
  assume "ok_system i"
  then show "dec_system (enc_system i @ r) = Some (i, r)"
    by (cases i) (simp_all add: dec_system_def dec_system_body_def codec_simps
        codec_array.dec_enc_Nil)
qed

lemmas append_helpers = appendU32_def appendU64_def appendString_def AppendUint32_def AppendUint64_def

lemma decodeTxid_Inr: "decodeTxid txid = Inr b \<longleftrightarrow> (\<exists>h. HashFromHex txid = Inr h \<and> b = bytes_of h)"
  by (auto simp: decodeTxid_def HashFromHex_def split: sum.splits if_splits)

lemma decodeTxid_length: "decodeTxid txid = Inr b \<Longrightarrow> length b = 32"
  by (auto simp: decodeTxid_def split: sum.splits if_splits)

text \<open>
  Every builder's data is the wire layout of the instruction it is named after, with its own
  arguments in their own fields.
\<close>

lemma system_data:
  "ix_Data (CreateAccount from to l sp ow) = enc_system (SysCreateAccount l sp ow)"
  "ix_Data (Assign k ow) = enc_system (SysAssign ow)"
  "ix_Data (SignInput i k) = enc_system (SysSignInput i)"
  "ix_Data (Transfer from to l) = enc_system (SysTransfer l)"
  "ix_Data (Allocate k sp) = enc_system (SysAllocate sp)"
  "ix_Data (CreateAccountWithSeed from to b sd l sp ow) =
     enc_system (SysCreateAccountWithSeed b (bytes_of_string sd) l sp ow)"
  "ix_Data (AllocateWithSeed k b sd sp ow) = enc_system (SysAllocateWithSeed b (bytes_of_string sd) sp ow)"
  "ix_Data (AssignWithSeed k b sd ow) = enc_system (SysAssignWithSeed b (bytes_of_string sd) ow)"
  "ix_Data (TransferWithSeed from b sd ow to l) = enc_system (SysTransferWithSeed l (bytes_of_string sd) ow)"
  by (simp_all add: CreateAccount_def Assign_def SignInput_def Transfer_def Allocate_def
      CreateAccountWithSeed_def AllocateWithSeed_def AssignWithSeed_def TransferWithSeed_def
      append_helpers sys_tags Let_def)

lemma Anchor_eq:
  "Anchor k txid v =
     (case decodeTxid txid of Inl e \<Rightarrow> Inl e
      | Inr b \<Rightarrow> Inr \<lparr>ix_ProgramID = SystemProgramID, ix_Accounts = [account k True True],
                      ix_Data = enc_system (SysAnchor (copy_into b) v)\<rparr>)"
  by (cases "decodeTxid txid")
    (simp_all add: Anchor_def append_helpers sys_tags Let_def decodeTxid_length)

lemma CreateAccountWithAnchor_eq:
  "CreateAccountWithAnchor from to l sp ow txid v =
     (case decodeTxid txid of Inl e \<Rightarrow> Inl e
      | Inr b \<Rightarrow> Inr \<lparr>ix_ProgramID = SystemProgramID,
                      ix_Accounts = [account from True True, account to True True],
                      ix_Data = enc_system (SysCreateAccountWithAnchor l sp ow (copy_into b) v)\<rparr>)"
  by (cases "decodeTxid txid")
    (simp_all add: CreateAccountWithAnchor_def append_helpers sys_tags Let_def decodeTxid_length)

section \<open>Properties\<close>

text \<open>
  C33 (round trip). The data of every system instruction builder decodes, under the documented
  layout (u32 discriminant, u64 integers, raw keys, u64-prefixed strings), to exactly the
  instruction the builder is named after with its own arguments, and nothing is left over. In
  particular no two builders can produce the same data.
\<close>

theorem system_data_roundtrip:
  assumes "length sd < 2 ^ 64"
  shows "dec_system (ix_Data (CreateAccount from to l sp ow)) = Some (SysCreateAccount l sp ow, []) \<and>
   dec_system (ix_Data (Assign k ow)) = Some (SysAssign ow, []) \<and>
   dec_system (ix_Data (SignInput i k)) = Some (SysSignInput i, []) \<and>
   dec_system (ix_Data (Transfer from to l)) = Some (SysTransfer l, []) \<and>
   dec_system (ix_Data (Allocate k sp)) = Some (SysAllocate sp, []) \<and>
   dec_system (ix_Data (CreateAccountWithSeed from to b sd l sp ow)) =
     Some (SysCreateAccountWithSeed b (bytes_of_string sd) l sp ow, []) \<and>
   dec_system (ix_Data (AllocateWithSeed k b sd sp ow)) =
     Some (SysAllocateWithSeed b (bytes_of_string sd) sp ow, []) \<and>
   dec_system (ix_Data (AssignWithSeed k b sd ow)) =
     Some (SysAssignWithSeed b (bytes_of_string sd) ow, []) \<and>
   dec_system (ix_Data (TransferWithSeed from b sd ow to l)) =
     Some (SysTransferWithSeed l (bytes_of_string sd) ow, [])"
  using assms by (simp only: system_data codec_system.dec_enc_Nil ok_system.simps
      length_bytes_of_string simp_thms)

theorem system_data_roundtrip_witness:
  "length ''seed'' < 2 ^ 64 \<and>
   dec_system (ix_Data (TransferWithSeed (copy_into [1]) (copy_into [2]) ''seed'' TokenProgramID
     (copy_into [3]) 500)) =
     Some (SysTransferWithSeed 500 (bytes_of_string ''seed'') TokenProgramID, [])"
proof -
  have len: "length ''seed'' < 2 ^ 64" by simp
  show ?thesis
    using len system_data_roundtrip [OF len] by (simp only: simp_thms)
qed

text \<open>
  C34 (error). The anchoring builders accept exactly the txids that are 64 hexadecimal digits: for
  these the data decodes to the anchored instruction with the txid bytes and output index, for all
  others the error of \<open>decodeTxid\<close> is returned and no instruction is built.
\<close>

theorem anchor_builders:
  "(case HashFromHex txid of
      Inr h \<Rightarrow>
        (\<exists>ix ix'. Anchor k txid v = Inr ix \<and> dec_system (ix_Data ix) = Some (SysAnchor h v, []) \<and>
          CreateAccountWithAnchor from to l sp ow txid v = Inr ix' \<and>
          dec_system (ix_Data ix') = Some (SysCreateAccountWithAnchor l sp ow h v, []))
    | Inl _ \<Rightarrow>
        (\<exists>e. decodeTxid txid = Inl e \<and> Anchor k txid v = Inl e \<and>
          CreateAccountWithAnchor from to l sp ow txid v = Inl e))"
proof (cases "HashFromHex txid")
  case (Inr h)
  then have "decodeTxid txid = Inr (bytes_of h)"
    by (simp add: decodeTxid_Inr)
  with Inr show ?thesis
    by (simp add: Anchor_eq CreateAccountWithAnchor_eq codec_system.dec_enc_Nil del: enc_system.simps)
next
  case (Inl e)
  then obtain e' where "decodeTxid txid = Inl e'"
    by (cases "decodeTxid txid") (auto simp: decodeTxid_Inr)
  with Inl show ?thesis
    by (simp add: Anchor_eq CreateAccountWithAnchor_eq)
qed

primrec flagged :: "(AccountMeta \<Rightarrow> bool) \<Rightarrow> AccountMeta list \<Rightarrow> Pubkey set" where
  "flagged f [] = {}"
| "flagged f (am # ams) = (if f am then {am_Pubkey am} else {}) \<union> flagged f ams"

definition ix_signers :: "Instruction \<Rightarrow> Pubkey set" where
  "ix_signers ix = flagged am_IsSigner (ix_Accounts ix)"

definition ix_writables :: "Instruction \<Rightarrow> Pubkey set" where
  "ix_writables ix = flagged am_IsWritable (ix_Accounts ix)"

lemma flagged_iff: "k \<in> flagged f ams \<longleftrightarrow> (\<exists>am\<in>set ams. am_Pubkey am = k \<and> f am)"
  by (induction ams) auto

lemma flagged_append: "flagged f (xs @ ys) = flagged f xs \<union> flagged f ys"
  by (induction xs) auto

lemma flagged_map_account: "flagged am_IsSigner (map (\<lambda>k. account k True w) ks) = set ks"
  by (induction ks) auto

text \<open>The signers and the writable accounts of an instruction.\<close>

definition ix_roles :: "Instruction \<Rightarrow> Pubkey set \<times> Pubkey set" where
  "ix_roles ix = (ix_signers ix, ix_writables ix)"

lemmas ix_role_simps = ix_signers_def ix_writables_def flagged_append flagged_map_account

text \<open>
  C35 (safety). Who must sign and what may change, for every builder of a system instruction: the exact
  set of signers and the exact set of writable accounts. The account that pays signs,
  except that for a derived account its base signs in its place; the receiver of a transfer is changed
  without signing; a base is never writable for being one, and the base of \<open>CreateAccountWithSeed\<close> signs
  even when the builder omits it from the account list because it is the funder.
\<close>

theorem system_builder_roles:
  "ix_roles (CreateAccount from to l sp ow) = ({from, to}, {from, to}) \<and>
   (case CreateAccountWithAnchor from to l sp ow txid v of
      Inl err \<Rightarrow> True | Inr ix \<Rightarrow> ix_roles ix = ({from, to}, {from, to})) \<and>
   ix_roles (Assign k ow) = ({k}, {k}) \<and>
   (case Anchor k txid v of Inl err \<Rightarrow> True | Inr ix \<Rightarrow> ix_roles ix = ({k}, {k})) \<and>
   ix_roles (SignInput i k) = ({k}, {k}) \<and>
   ix_roles (Transfer from to l) = ({from}, {from, to}) \<and>
   ix_roles (Allocate k sp) = ({k}, {k}) \<and>
   ix_roles (CreateAccountWithSeed from to b sd l sp ow) = ({from, b}, {from, to}) \<and>
   ix_roles (AllocateWithSeed k b sd sp ow) = ({b}, {k}) \<and>
   ix_roles (AssignWithSeed k b sd ow) = ({b}, {k}) \<and>
   ix_roles (TransferWithSeed from b sd ow to l) = ({b}, {from, to})"
  by (simp add: ix_roles_def CreateAccount_def CreateAccountWithAnchor_def Anchor_def Assign_def SignInput_def
      Transfer_def Allocate_def CreateAccountWithSeed_def AllocateWithSeed_def AssignWithSeed_def TransferWithSeed_def
      ix_role_simps insert_commute Let_def split: sum.split)

end
