(* ===== verification/Arch_Token.thy ===== *)
theory Arch_Token
  imports Arch_System
begin

text \<open>
  \<open>token.go\<close>: the builders of the APL token program and of the associated token account
  program. Data layouts: a one-byte discriminant, u64 amounts, raw keys, and optional keys with a
  0/1 tag. As for the system program, every builder is compared with an abstract syntax whose
  layout can be read back.
\<close>

section \<open>Discriminants\<close>

definition tokInitializeMint :: byte where "tokInitializeMint = 0"
definition tokInitializeAccount :: byte where "tokInitializeAccount = 1"
definition tokInitializeMultisig :: byte where "tokInitializeMultisig = 2"
definition tokTransfer :: byte where "tokTransfer = 3"
definition tokApprove :: byte where "tokApprove = 4"
definition tokRevoke :: byte where "tokRevoke = 5"
definition tokSetAuthority :: byte where "tokSetAuthority = 6"
definition tokMintTo :: byte where "tokMintTo = 7"
definition tokBurn :: byte where "tokBurn = 8"
definition tokCloseAccount :: byte where "tokCloseAccount = 9"
definition tokFreezeAccount :: byte where "tokFreezeAccount = 10"
definition tokThawAccount :: byte where "tokThawAccount = 11"
definition tokTransferChecked :: byte where "tokTransferChecked = 12"
definition tokApproveChecked :: byte where "tokApproveChecked = 13"
definition tokMintToChecked :: byte where "tokMintToChecked = 14"
definition tokBurnChecked :: byte where "tokBurnChecked = 15"
definition tokInitializeAccount2 :: byte where "tokInitializeAccount2 = 16"
definition tokSyncNative :: byte where "tokSyncNative = 17"
definition tokInitializeAccount3 :: byte where "tokInitializeAccount3 = 18"
definition tokInitializeMint2 :: byte where "tokInitializeMint2 = 19"

lemmas tok_tags =
  tokInitializeMint_def tokInitializeAccount_def tokInitializeMultisig_def tokTransfer_def
  tokApprove_def tokRevoke_def tokSetAuthority_def tokMintTo_def tokBurn_def tokCloseAccount_def
  tokFreezeAccount_def tokThawAccount_def tokTransferChecked_def tokApproveChecked_def
  tokMintToChecked_def tokBurnChecked_def tokInitializeAccount2_def tokSyncNative_def
  tokInitializeAccount3_def tokInitializeMint2_def

type_synonym AuthorityType = u8

definition AuthorityMintTokens :: AuthorityType where "AuthorityMintTokens = 0"
definition AuthorityFreezeAccount :: AuthorityType where "AuthorityFreezeAccount = 1"
definition AuthorityAccountOwner :: AuthorityType where "AuthorityAccountOwner = 2"
definition AuthorityCloseAccount :: AuthorityType where "AuthorityCloseAccount = 3"

section \<open>Helpers\<close>

definition appendOptionalPubkey :: "byte list \<Rightarrow> Pubkey option \<Rightarrow> byte list" where
  "appendOptionalPubkey data key =
     (case key of None \<Rightarrow> data @ [0] | Some k \<Rightarrow> (data @ [1]) @ bytes_of k)"

definition authorityAccounts :: "AccountMeta list \<Rightarrow> Pubkey \<Rightarrow> Pubkey list \<Rightarrow> AccountMeta list" where
  "authorityAccounts accounts authority multisigSigners =
     foldl (\<lambda>accs signer. accs @ [account signer True False])
       (accounts @ [account authority (multisigSigners = []) False]) multisigSigners"

section \<open>Builders\<close>

definition TokenInitializeMint :: "Pubkey \<Rightarrow> Pubkey \<Rightarrow> Pubkey option \<Rightarrow> u8 \<Rightarrow> Instruction" where
  "TokenInitializeMint mint mintAuthority freezeAuthority decimals =
     (let data = [tokInitializeMint, decimals];
          data = data @ bytes_of mintAuthority;
          data = appendOptionalPubkey data freezeAuthority
      in \<lparr>ix_ProgramID = TokenProgramID, ix_Accounts = [account mint False True], ix_Data = data\<rparr>)"

definition TokenInitializeMint2 :: "Pubkey \<Rightarrow> Pubkey \<Rightarrow> Pubkey option \<Rightarrow> u8 \<Rightarrow> Instruction" where
  "TokenInitializeMint2 mint mintAuthority freezeAuthority decimals =
     (let ix = TokenInitializeMint mint mintAuthority freezeAuthority decimals
      in ix\<lparr>ix_Data := (ix_Data ix)[0 := tokInitializeMint2]\<rparr>)"

definition TokenInitializeAccount :: "Pubkey \<Rightarrow> Pubkey \<Rightarrow> Pubkey \<Rightarrow> Instruction" where
  "TokenInitializeAccount acct mint owner =
     \<lparr>ix_ProgramID = TokenProgramID,
      ix_Accounts = [account acct False True, account mint False False, account owner False False],
      ix_Data = [tokInitializeAccount]\<rparr>"

definition TokenInitializeAccount2 :: "Pubkey \<Rightarrow> Pubkey \<Rightarrow> Pubkey \<Rightarrow> Instruction" where
  "TokenInitializeAccount2 acct mint owner =
     (let data = [tokInitializeAccount2];
          data = data @ bytes_of owner
      in \<lparr>ix_ProgramID = TokenProgramID,
          ix_Accounts = [account acct False True, account mint False False],
          ix_Data = data\<rparr>)"

definition TokenInitializeAccount3 :: "Pubkey \<Rightarrow> Pubkey \<Rightarrow> Pubkey \<Rightarrow> Instruction" where
  "TokenInitializeAccount3 acct mint owner =
     (let ix = TokenInitializeAccount2 acct mint owner
      in ix\<lparr>ix_Data := (ix_Data ix)[0 := tokInitializeAccount3]\<rparr>)"

definition TokenInitializeMultisig :: "Pubkey \<Rightarrow> Pubkey list \<Rightarrow> u8 \<Rightarrow> Instruction" where
  "TokenInitializeMultisig multisig signers m =
     (let accounts = [account multisig False True];
          accounts = foldl (\<lambda>accs signer. accs @ [account signer False False]) accounts signers
      in \<lparr>ix_ProgramID = TokenProgramID, ix_Accounts = accounts, ix_Data = [tokInitializeMultisig, m]\<rparr>)"

definition TokenTransfer ::
  "Pubkey \<Rightarrow> Pubkey \<Rightarrow> Pubkey \<Rightarrow> Pubkey list \<Rightarrow> u64 \<Rightarrow> Instruction" where
  "TokenTransfer source destination authority multisigSigners amount =
     (let data = AppendUint64 [tokTransfer] amount;
          accounts = [account source False True, account destination False True]
      in \<lparr>ix_ProgramID = TokenProgramID,
          ix_Accounts = authorityAccounts accounts authority multisigSigners,
          ix_Data = data\<rparr>)"

definition TokenTransferChecked ::
  "Pubkey \<Rightarrow> Pubkey \<Rightarrow> Pubkey \<Rightarrow> Pubkey \<Rightarrow> Pubkey list \<Rightarrow> u64 \<Rightarrow> u8 \<Rightarrow> Instruction" where
  "TokenTransferChecked source mint destination authority multisigSigners amount decimals =
     (let data = AppendUint64 [tokTransferChecked] amount;
          data = data @ [decimals];
          accounts = [account source False True, account mint False False, account destination False True]
      in \<lparr>ix_ProgramID = TokenProgramID,
          ix_Accounts = authorityAccounts accounts authority multisigSigners,
          ix_Data = data\<rparr>)"

definition TokenApprove ::
  "Pubkey \<Rightarrow> Pubkey \<Rightarrow> Pubkey \<Rightarrow> Pubkey list \<Rightarrow> u64 \<Rightarrow> Instruction" where
  "TokenApprove source delegate owner multisigSigners amount =
     (let data = AppendUint64 [tokApprove] amount;
          accounts = [account source False True, account delegate False False]
      in \<lparr>ix_ProgramID = TokenProgramID,
          ix_Accounts = authorityAccounts accounts owner multisigSigners,
          ix_Data = data\<rparr>)"

definition TokenApproveChecked ::
  "Pubkey \<Rightarrow> Pubkey \<Rightarrow> Pubkey \<Rightarrow> Pubkey \<Rightarrow> Pubkey list \<Rightarrow> u64 \<Rightarrow> u8 \<Rightarrow> Instruction" where
  "TokenApproveChecked source mint delegate owner multisigSigners amount decimals =
     (let data = AppendUint64 [tokApproveChecked] amount;
          data = data @ [decimals];
          accounts = [account source False True, account mint False False, account delegate False False]
      in \<lparr>ix_ProgramID = TokenProgramID,
          ix_Accounts = authorityAccounts accounts owner multisigSigners,
          ix_Data = data\<rparr>)"

definition TokenRevoke :: "Pubkey \<Rightarrow> Pubkey \<Rightarrow> Pubkey list \<Rightarrow> Instruction" where
  "TokenRevoke source owner multisigSigners =
     (let accounts = [account source False True]
      in \<lparr>ix_ProgramID = TokenProgramID,
          ix_Accounts = authorityAccounts accounts owner multisigSigners,
          ix_Data = [tokRevoke]\<rparr>)"

definition TokenSetAuthority ::
  "Pubkey \<Rightarrow> Pubkey option \<Rightarrow> AuthorityType \<Rightarrow> Pubkey \<Rightarrow> Pubkey list \<Rightarrow> Instruction" where
  "TokenSetAuthority owned newAuthority authorityType currentAuthority multisigSigners =
     (let data = [tokSetAuthority, authorityType];
          data = appendOptionalPubkey data newAuthority;
          accounts = [account owned False True]
      in \<lparr>ix_ProgramID = TokenProgramID,
          ix_Accounts = authorityAccounts accounts currentAuthority multisigSigners,
          ix_Data = data\<rparr>)"

definition TokenMintTo ::
  "Pubkey \<Rightarrow> Pubkey \<Rightarrow> Pubkey \<Rightarrow> Pubkey list \<Rightarrow> u64 \<Rightarrow> Instruction" where
  "TokenMintTo mint acct mintAuthority multisigSigners amount =
     (let data = AppendUint64 [tokMintTo] amount;
          accounts = [account mint False True, account acct False True]
      in \<lparr>ix_ProgramID = TokenProgramID,
          ix_Accounts = authorityAccounts accounts mintAuthority multisigSigners,
          ix_Data = data\<rparr>)"

definition TokenMintToChecked ::
  "Pubkey \<Rightarrow> Pubkey \<Rightarrow> Pubkey \<Rightarrow> Pubkey list \<Rightarrow> u64 \<Rightarrow> u8 \<Rightarrow> Instruction" where
  "TokenMintToChecked mint acct mintAuthority multisigSigners amount decimals =
     (let ix = TokenMintTo mint acct mintAuthority multisigSigners amount;
          ix = ix\<lparr>ix_Data := (ix_Data ix)[0 := tokMintToChecked]\<rparr>
      in ix\<lparr>ix_Data := ix_Data ix @ [decimals]\<rparr>)"

definition TokenBurn ::
  "Pubkey \<Rightarrow> Pubkey \<Rightarrow> Pubkey \<Rightarrow> Pubkey list \<Rightarrow> u64 \<Rightarrow> Instruction" where
  "TokenBurn acct mint authority multisigSigners amount =
     (let data = AppendUint64 [tokBurn] amount;
          accounts = [account acct False True, account mint False True]
      in \<lparr>ix_ProgramID = TokenProgramID,
          ix_Accounts = authorityAccounts accounts authority multisigSigners,
          ix_Data = data\<rparr>)"

definition TokenBurnChecked ::
  "Pubkey \<Rightarrow> Pubkey \<Rightarrow> Pubkey \<Rightarrow> Pubkey list \<Rightarrow> u64 \<Rightarrow> u8 \<Rightarrow> Instruction" where
  "TokenBurnChecked acct mint authority multisigSigners amount decimals =
     (let ix = TokenBurn acct mint authority multisigSigners amount;
          ix = ix\<lparr>ix_Data := (ix_Data ix)[0 := tokBurnChecked]\<rparr>
      in ix\<lparr>ix_Data := ix_Data ix @ [decimals]\<rparr>)"

definition TokenCloseAccount :: "Pubkey \<Rightarrow> Pubkey \<Rightarrow> Pubkey \<Rightarrow> Pubkey list \<Rightarrow> Instruction" where
  "TokenCloseAccount acct destination owner multisigSigners =
     (let accounts = [account acct False True, account destination False True]
      in \<lparr>ix_ProgramID = TokenProgramID,
          ix_Accounts = authorityAccounts accounts owner multisigSigners,
          ix_Data = [tokCloseAccount]\<rparr>)"

definition TokenFreezeAccount :: "Pubkey \<Rightarrow> Pubkey \<Rightarrow> Pubkey \<Rightarrow> Pubkey list \<Rightarrow> Instruction" where
  "TokenFreezeAccount acct mint freezeAuthority multisigSigners =
     (let accounts = [account acct False True, account mint False False]
      in \<lparr>ix_ProgramID = TokenProgramID,
          ix_Accounts = authorityAccounts accounts freezeAuthority multisigSigners,
          ix_Data = [tokFreezeAccount]\<rparr>)"

definition TokenThawAccount :: "Pubkey \<Rightarrow> Pubkey \<Rightarrow> Pubkey \<Rightarrow> Pubkey list \<Rightarrow> Instruction" where
  "TokenThawAccount acct mint freezeAuthority multisigSigners =
     (let ix = TokenFreezeAccount acct mint freezeAuthority multisigSigners
      in ix\<lparr>ix_Data := (ix_Data ix)[0 := tokThawAccount]\<rparr>)"

definition TokenSyncNative :: "Pubkey \<Rightarrow> Instruction" where
  "TokenSyncNative acct =
     \<lparr>ix_ProgramID = TokenProgramID, ix_Accounts = [account acct False True],
      ix_Data = [tokSyncNative]\<rparr>"

definition CreateAssociatedTokenAccount :: "Pubkey \<Rightarrow> Pubkey \<Rightarrow> Pubkey \<Rightarrow> Pubkey \<Rightarrow> Instruction" where
  "CreateAssociatedTokenAccount funder associatedTokenAccount wallet mint =
     \<lparr>ix_ProgramID = AssociatedTokenProgramID,
      ix_Accounts =
        [account funder True True, account associatedTokenAccount False True,
         account wallet False False, account mint False False,
         account SystemProgramID False False, account TokenProgramID False False],
      ix_Data = []\<rparr>"

definition CreateAssociatedTokenAccountWithAnchor ::
  "Pubkey \<Rightarrow> Pubkey \<Rightarrow> Pubkey \<Rightarrow> Pubkey \<Rightarrow> string \<Rightarrow> u32 \<Rightarrow> Instruction result" where
  "CreateAssociatedTokenAccountWithAnchor funder associatedTokenAccount wallet mint txid vout =
     (case decodeTxid txid of
        Inl err \<Rightarrow> Inl err
      | Inr txidBytes \<Rightarrow>
          (let ix = CreateAssociatedTokenAccount funder associatedTokenAccount wallet mint;
               data = [] @ txidBytes
           in Inr (ix\<lparr>ix_Data := AppendUint32 data vout\<rparr>)))"

section \<open>Abstract syntax and wire layout\<close>

datatype token_instruction =
    TokInitializeMint u8 Pubkey "Pubkey option"
  | TokInitializeAccount
  | TokInitializeMultisig u8
  | TokTransfer u64
  | TokApprove u64
  | TokRevoke
  | TokSetAuthority u8 "Pubkey option"
  | TokMintTo u64
  | TokBurn u64
  | TokCloseAccount
  | TokFreezeAccount
  | TokThawAccount
  | TokTransferChecked u64 u8
  | TokApproveChecked u64 u8
  | TokMintToChecked u64 u8
  | TokBurnChecked u64 u8
  | TokInitializeAccount2 Pubkey
  | TokSyncNative
  | TokInitializeAccount3 Pubkey
  | TokInitializeMint2 u8 Pubkey "Pubkey option"

definition enc_opt :: "Pubkey option \<Rightarrow> byte list" where
  "enc_opt k = (case k of None \<Rightarrow> [0] | Some k \<Rightarrow> 1 # bytes_of k)"

definition dec_opt :: "Pubkey option decoder" where
  "dec_opt =
     dec_bind dec_u8 (\<lambda>t. if t = 0 then dec_return None
       else if t = 1 then dec_bind dec_array (\<lambda>k. dec_return (Some k)) else dec_fail)"

interpretation codec_opt: byte_codec enc_opt dec_opt "\<lambda>_. True"
  by unfold_locales (simp add: enc_opt_def dec_opt_def codec_simps split: option.split)

fun enc_token :: "token_instruction \<Rightarrow> byte list" where
  "enc_token (TokInitializeMint d a f) = 0 # d # bytes_of a @ enc_opt f"
| "enc_token TokInitializeAccount = [1]"
| "enc_token (TokInitializeMultisig m) = [2, m]"
| "enc_token (TokTransfer n) = 3 # le_bytes64 n"
| "enc_token (TokApprove n) = 4 # le_bytes64 n"
| "enc_token TokRevoke = [5]"
| "enc_token (TokSetAuthority t k) = 6 # t # enc_opt k"
| "enc_token (TokMintTo n) = 7 # le_bytes64 n"
| "enc_token (TokBurn n) = 8 # le_bytes64 n"
| "enc_token TokCloseAccount = [9]"
| "enc_token TokFreezeAccount = [10]"
| "enc_token TokThawAccount = [11]"
| "enc_token (TokTransferChecked n d) = 12 # le_bytes64 n @ [d]"
| "enc_token (TokApproveChecked n d) = 13 # le_bytes64 n @ [d]"
| "enc_token (TokMintToChecked n d) = 14 # le_bytes64 n @ [d]"
| "enc_token (TokBurnChecked n d) = 15 # le_bytes64 n @ [d]"
| "enc_token (TokInitializeAccount2 k) = 16 # bytes_of k"
| "enc_token TokSyncNative = [17]"
| "enc_token (TokInitializeAccount3 k) = 18 # bytes_of k"
| "enc_token (TokInitializeMint2 d a f) = 19 # d # bytes_of a @ enc_opt f"

abbreviation dec_amount :: "(u64 \<Rightarrow> 'a) \<Rightarrow> 'a decoder" where
  "dec_amount c \<equiv> dec_bind dec_u64 (\<lambda>n. dec_return (c n))"

abbreviation dec_checked :: "(u64 \<Rightarrow> u8 \<Rightarrow> 'a) \<Rightarrow> 'a decoder" where
  "dec_checked c \<equiv> dec_bind dec_u64 (\<lambda>n. dec_bind dec_u8 (\<lambda>d. dec_return (c n d)))"

abbreviation dec_mint :: "(u8 \<Rightarrow> Pubkey \<Rightarrow> Pubkey option \<Rightarrow> 'a) \<Rightarrow> 'a decoder" where
  "dec_mint c \<equiv>
     dec_bind dec_u8 (\<lambda>d. dec_bind dec_array (\<lambda>a. dec_bind dec_opt (\<lambda>f. dec_return (c d a f))))"

definition dec_token_body :: "u8 \<Rightarrow> token_instruction decoder" where
  "dec_token_body t =
     (if t = 0 then dec_mint TokInitializeMint
      else if t = 1 then dec_return TokInitializeAccount
      else if t = 2 then dec_bind dec_u8 (\<lambda>m. dec_return (TokInitializeMultisig m))
      else if t = 3 then dec_amount TokTransfer
      else if t = 4 then dec_amount TokApprove
      else if t = 5 then dec_return TokRevoke
      else if t = 6 then
        dec_bind dec_u8 (\<lambda>a. dec_bind dec_opt (\<lambda>k. dec_return (TokSetAuthority a k)))
      else if t = 7 then dec_amount TokMintTo
      else if t = 8 then dec_amount TokBurn
      else if t = 9 then dec_return TokCloseAccount
      else if t = 10 then dec_return TokFreezeAccount
      else if t = 11 then dec_return TokThawAccount
      else if t = 12 then dec_checked TokTransferChecked
      else if t = 13 then dec_checked TokApproveChecked
      else if t = 14 then dec_checked TokMintToChecked
      else if t = 15 then dec_checked TokBurnChecked
      else if t = 16 then dec_bind dec_array (\<lambda>k. dec_return (TokInitializeAccount2 k))
      else if t = 17 then dec_return TokSyncNative
      else if t = 18 then dec_bind dec_array (\<lambda>k. dec_return (TokInitializeAccount3 k))
      else if t = 19 then dec_mint TokInitializeMint2
      else dec_fail)"

definition dec_token :: "token_instruction decoder" where
  "dec_token = dec_bind dec_u8 dec_token_body"

interpretation codec_token: byte_codec enc_token dec_token "\<lambda>_. True"
proof
  fix i r
  show "dec_token (enc_token i @ r) = Some (i, r)"
    by (cases i) (simp_all add: dec_token_def dec_token_body_def codec_simps codec_opt.dec_enc)
qed

lemma appendOptionalPubkey_enc: "appendOptionalPubkey data k = data @ enc_opt k"
  by (simp add: appendOptionalPubkey_def enc_opt_def split: option.split)

lemma token_data:
  "ix_Data (TokenInitializeMint mint ma fa d) = enc_token (TokInitializeMint d ma fa)"
  "ix_Data (TokenInitializeMint2 mint ma fa d) = enc_token (TokInitializeMint2 d ma fa)"
  "ix_Data (TokenInitializeAccount a mint ow) = enc_token TokInitializeAccount"
  "ix_Data (TokenInitializeAccount2 a mint ow) = enc_token (TokInitializeAccount2 ow)"
  "ix_Data (TokenInitializeAccount3 a mint ow) = enc_token (TokInitializeAccount3 ow)"
  "ix_Data (TokenInitializeMultisig a ks m) = enc_token (TokInitializeMultisig m)"
  "ix_Data (TokenTransfer src dst au ms n) = enc_token (TokTransfer n)"
  "ix_Data (TokenTransferChecked src mint dst au ms n d) = enc_token (TokTransferChecked n d)"
  "ix_Data (TokenApprove src del ow ms n) = enc_token (TokApprove n)"
  "ix_Data (TokenApproveChecked src mint del ow ms n d) = enc_token (TokApproveChecked n d)"
  "ix_Data (TokenRevoke src ow ms) = enc_token TokRevoke"
  "ix_Data (TokenSetAuthority a na t ca ms) = enc_token (TokSetAuthority t na)"
  "ix_Data (TokenMintTo mint a ma ms n) = enc_token (TokMintTo n)"
  "ix_Data (TokenMintToChecked mint a ma ms n d) = enc_token (TokMintToChecked n d)"
  "ix_Data (TokenBurn a mint au ms n) = enc_token (TokBurn n)"
  "ix_Data (TokenBurnChecked a mint au ms n d) = enc_token (TokBurnChecked n d)"
  "ix_Data (TokenCloseAccount a dst ow ms) = enc_token TokCloseAccount"
  "ix_Data (TokenFreezeAccount a mint fa' ms) = enc_token TokFreezeAccount"
  "ix_Data (TokenThawAccount a mint fa' ms) = enc_token TokThawAccount"
  "ix_Data (TokenSyncNative a) = enc_token TokSyncNative"
  by (simp_all add: TokenInitializeMint_def TokenInitializeMint2_def TokenInitializeAccount_def
      TokenInitializeAccount2_def TokenInitializeAccount3_def TokenInitializeMultisig_def
      TokenTransfer_def TokenTransferChecked_def TokenApprove_def TokenApproveChecked_def
      TokenRevoke_def TokenSetAuthority_def TokenMintTo_def TokenMintToChecked_def TokenBurn_def
      TokenBurnChecked_def TokenCloseAccount_def TokenFreezeAccount_def TokenThawAccount_def
      TokenSyncNative_def tok_tags AppendUint64_def appendOptionalPubkey_enc Let_def)

section \<open>Properties\<close>

text \<open>
  C36 (round trip). The data of every token instruction builder decodes to the instruction the
  builder is named after with its own arguments, nothing left over; this includes the builders that
  patch the discriminant of another builder's data in place.
\<close>

theorem token_data_roundtrip:
  "dec_token (ix_Data (TokenInitializeMint mint ma fa d)) = Some (TokInitializeMint d ma fa, []) \<and>
   dec_token (ix_Data (TokenInitializeMint2 mint ma fa d)) = Some (TokInitializeMint2 d ma fa, []) \<and>
   dec_token (ix_Data (TokenInitializeAccount a mint ow)) = Some (TokInitializeAccount, []) \<and>
   dec_token (ix_Data (TokenInitializeAccount2 a mint ow)) = Some (TokInitializeAccount2 ow, []) \<and>
   dec_token (ix_Data (TokenInitializeAccount3 a mint ow)) = Some (TokInitializeAccount3 ow, []) \<and>
   dec_token (ix_Data (TokenInitializeMultisig a ks m)) = Some (TokInitializeMultisig m, []) \<and>
   dec_token (ix_Data (TokenTransfer src dst au ms n)) = Some (TokTransfer n, []) \<and>
   dec_token (ix_Data (TokenTransferChecked src mint dst au ms n d)) = Some (TokTransferChecked n d, []) \<and>
   dec_token (ix_Data (TokenApprove src del ow ms n)) = Some (TokApprove n, []) \<and>
   dec_token (ix_Data (TokenApproveChecked src mint del ow ms n d)) = Some (TokApproveChecked n d, []) \<and>
   dec_token (ix_Data (TokenRevoke src ow ms)) = Some (TokRevoke, []) \<and>
   dec_token (ix_Data (TokenSetAuthority a na t ca ms)) = Some (TokSetAuthority t na, []) \<and>
   dec_token (ix_Data (TokenMintTo mint a ma ms n)) = Some (TokMintTo n, []) \<and>
   dec_token (ix_Data (TokenMintToChecked mint a ma ms n d)) = Some (TokMintToChecked n d, []) \<and>
   dec_token (ix_Data (TokenBurn a mint au ms n)) = Some (TokBurn n, []) \<and>
   dec_token (ix_Data (TokenBurnChecked a mint au ms n d)) = Some (TokBurnChecked n d, []) \<and>
   dec_token (ix_Data (TokenCloseAccount a dst ow ms)) = Some (TokCloseAccount, []) \<and>
   dec_token (ix_Data (TokenFreezeAccount a mint fz ms)) = Some (TokFreezeAccount, []) \<and>
   dec_token (ix_Data (TokenThawAccount a mint fz ms)) = Some (TokThawAccount, []) \<and>
   dec_token (ix_Data (TokenSyncNative a)) = Some (TokSyncNative, [])"
  by (simp only: token_data codec_token.dec_enc_Nil simp_thms)

lemma foldl_snoc_map: "foldl (\<lambda>xs y. xs @ [f y]) xs ys = xs @ map f ys"
  by (induction ys arbitrary: xs) simp_all

lemma authorityAccounts_eq:
  "authorityAccounts accounts authority ms =
     accounts @ [account authority (ms = []) False] @ map (\<lambda>k. account k True False) ms"
  by (simp add: authorityAccounts_def foldl_snoc_map)

text \<open>
  C37 (safety). The authority convention of every token builder that takes an authority: without
  multisig signers exactly the authority signs; with multisig signers exactly these sign, so the
  authority itself signs only if it is one of them.
\<close>

theorem token_authority_signers:
  "ix_signers (TokenTransfer src dst au ms n) = (if ms = [] then {au} else set ms) \<and>
   ix_signers (TokenTransferChecked src mint dst au ms n d) = (if ms = [] then {au} else set ms) \<and>
   ix_signers (TokenApprove src del au ms n) = (if ms = [] then {au} else set ms) \<and>
   ix_signers (TokenApproveChecked src mint del au ms n d) = (if ms = [] then {au} else set ms) \<and>
   ix_signers (TokenRevoke src au ms) = (if ms = [] then {au} else set ms) \<and>
   ix_signers (TokenSetAuthority a na t au ms) = (if ms = [] then {au} else set ms) \<and>
   ix_signers (TokenMintTo mint a au ms n) = (if ms = [] then {au} else set ms) \<and>
   ix_signers (TokenMintToChecked mint a au ms n d) = (if ms = [] then {au} else set ms) \<and>
   ix_signers (TokenBurn a mint au ms n) = (if ms = [] then {au} else set ms) \<and>
   ix_signers (TokenBurnChecked a mint au ms n d) = (if ms = [] then {au} else set ms) \<and>
   ix_signers (TokenCloseAccount a dst au ms) = (if ms = [] then {au} else set ms) \<and>
   ix_signers (TokenFreezeAccount a mint au ms) = (if ms = [] then {au} else set ms) \<and>
   ix_signers (TokenThawAccount a mint au ms) = (if ms = [] then {au} else set ms)"
  by (simp add: TokenTransfer_def TokenTransferChecked_def TokenApprove_def TokenApproveChecked_def
      TokenRevoke_def TokenSetAuthority_def TokenMintTo_def TokenMintToChecked_def TokenBurn_def
      TokenBurnChecked_def TokenCloseAccount_def TokenFreezeAccount_def TokenThawAccount_def
      Let_def ix_role_simps authorityAccounts_eq)

text \<open>
  The anchored associated-token builder differs from the plain one only in its data,
  which is the 32 txid bytes and the little-endian output index; a malformed txid gives the error
  of \<open>decodeTxid\<close>.
\<close>

theorem associated_token_anchor:
  "(case HashFromHex txid of
      Inr h \<Rightarrow> CreateAssociatedTokenAccountWithAnchor f a w m txid v =
        Inr ((CreateAssociatedTokenAccount f a w m)\<lparr>ix_Data := bytes_of h @ le_bytes32 v\<rparr>)
    | Inl _ \<Rightarrow> (\<exists>e. decodeTxid txid = Inl e \<and>
        CreateAssociatedTokenAccountWithAnchor f a w m txid v = Inl e)) \<and>
   ix_signers (CreateAssociatedTokenAccount f a w m) = {f} \<and>
   ix_writables (CreateAssociatedTokenAccount f a w m) = {f, a}"
proof -
  have "decodeTxid txid = Inr (bytes_of h)" if "HashFromHex txid = Inr h" for h
    using that by (simp add: decodeTxid_Inr)
  moreover have "\<exists>e. decodeTxid txid = Inl e" if "HashFromHex txid = Inl e'" for e'
    using that by (cases "decodeTxid txid") (auto simp: decodeTxid_Inr)
  ultimately show ?thesis
    by (auto simp: CreateAssociatedTokenAccountWithAnchor_def AppendUint32_def
        CreateAssociatedTokenAccount_def ix_role_simps split: sum.split)
qed

end
