(* ===== verification/Arch_Keys.thy ===== *)
theory Arch_Keys
  imports Arch_Pubkey
begin

text \<open>
  \<open>keys.go\<close>. The Bitcoin libraries (btcec, schnorr, txscript, btcutil, wire) are not part of the
  repository: the functions and constants of them that the SDK calls are the fields of the record
  \<open>btclib\<close>, which every definition that needs them takes as an argument. Bitcoin transactions are
  built by the SDK itself, so their struct is a record here.
\<close>

section \<open>The Bitcoin libraries as a parameter\<close>

record OutPoint =
  op_Hash :: Hash
  op_Index :: u32

record TxIn =
  ti_PreviousOutPoint :: OutPoint
  ti_SignatureScript :: "byte list"
  ti_Witness :: "byte list list"
  ti_Sequence :: u32

record TxOut =
  to_Value :: int
  to_PkScript :: "byte list"

record MsgTx =
  tx_TxVersion :: int
  tx_TxIn :: "TxIn list"
  tx_TxOut :: "TxOut list"
  tx_LockTime :: u32

text \<open>The opcodes the SDK names, and what it adds to a script builder.\<close>

datatype opcode = OP_0 | OP_FALSE | OP_IF | OP_ENDIF | OP_CHECKSIG | OP_RETURN

datatype script_item = AddOp opcode | AddData "byte list"

text \<open>A canned previous-output fetcher always answers with one output: its script and amount.\<close>

type_synonym prev_output = "byte list \<times> int"

text \<open>Random bytes as the system's generator yields them, in order.\<close>

type_synonym random = "nat \<Rightarrow> byte"

record ('sk, 'pk, 'net, 'sh, 'vm) btclib =
  lib_NewPrivateKey :: "random \<Rightarrow> 'sk result"
  lib_PubKey :: "'sk \<Rightarrow> 'pk"
  lib_SerializePrivKey :: "'sk \<Rightarrow> byte list"
  lib_SerializePubKey :: "'pk \<Rightarrow> byte list"
  lib_schnorr_ParsePubKey :: "byte list \<Rightarrow> 'pk result"
  lib_btcec_ParsePubKey :: "byte list \<Rightarrow> 'pk result"
  lib_ComputeTaprootKeyNoScript :: "'pk \<Rightarrow> 'pk"
  lib_ComputeTaprootOutputKey :: "'pk \<Rightarrow> byte list \<Rightarrow> 'pk"
  lib_PayToTaprootScript :: "'pk \<Rightarrow> byte list result"
  lib_opcode :: "opcode \<Rightarrow> byte"
  lib_Script :: "script_item list \<Rightarrow> byte list result"
  lib_BaseTapLeafHash :: "byte list \<Rightarrow> Hash"
  lib_TaprootAddress :: "byte list \<Rightarrow> 'net \<Rightarrow> string result"
  lib_TaggedHash :: "byte list \<Rightarrow> byte list \<Rightarrow> Hash"
  lib_TxHash :: "MsgTx \<Rightarrow> Hash"
  lib_MaxPrevOutIndex :: u32
  lib_SigHashAll :: byte
  lib_StandardVerifyFlags :: nat
  lib_NewTxSigHashes :: "MsgTx \<Rightarrow> prev_output \<Rightarrow> 'sh"
  lib_RawTxInTaprootSignature ::
    "MsgTx \<Rightarrow> 'sh \<Rightarrow> nat \<Rightarrow> int \<Rightarrow> byte list \<Rightarrow> byte list \<Rightarrow> byte \<Rightarrow> 'sk \<Rightarrow> byte list result"
  lib_NewEngine ::
    "byte list \<Rightarrow> MsgTx \<Rightarrow> nat \<Rightarrow> nat \<Rightarrow> 'sh \<Rightarrow> int \<Rightarrow> prev_output \<Rightarrow> 'vm result"
  lib_Execute :: "'vm \<Rightarrow> unit result"

section \<open>Operations\<close>

definition NewPrivateKey :: "('sk, 'pk, 'net, 'sh, 'vm) btclib \<Rightarrow> random \<Rightarrow> 'sk result" where
  "NewPrivateKey L rand = lib_NewPrivateKey L rand"

definition XOnlyPubkey :: "('sk, 'pk, 'net, 'sh, 'vm) btclib \<Rightarrow> 'sk \<Rightarrow> Pubkey" where
  "XOnlyPubkey L priv = copy_into (lib_SerializePubKey L (lib_PubKey L priv))"

definition P2TRAddress ::
  "('sk, 'pk, 'net, 'sh, 'vm) btclib \<Rightarrow> Pubkey \<Rightarrow> 'net \<Rightarrow> string result" where
  "P2TRAddress L pubkey params =
     (case lib_schnorr_ParsePubKey L (bytes_of pubkey) of
        Inl err \<Rightarrow> Inl (WrapErr ''invalid x-only pubkey: %w'' err)
      | Inr internalKey \<Rightarrow>
          (let taprootKey = lib_ComputeTaprootKeyNoScript L internalKey
           in lib_TaprootAddress L (lib_SerializePubKey L taprootKey) params))"

definition NetworkPubkeyFromHex :: "string \<Rightarrow> Pubkey result" where
  "NetworkPubkeyFromHex s =
     (case DecodeString s of
        Inl err \<Rightarrow> Inl (WrapErr ''invalid network pubkey hex: %w'' err)
      | Inr b \<Rightarrow>
          if length b = 32 then Inr (copy_into b)
          else if length b = 33 then Inr (copy_into (drop 1 b))
          else Inl (Errorf ''network pubkey must be 32 or 33 bytes, got %d'' [FInt (int (length b))]))"

text \<open>The leaf script: the network key checks the signature, the account key is a dead envelope.\<close>

definition accountLeaf :: "Pubkey \<Rightarrow> Pubkey \<Rightarrow> script_item list" where
  "accountLeaf networkPubkey accountPubkey =
     [AddData (bytes_of networkPubkey), AddOp OP_CHECKSIG, AddOp OP_FALSE, AddOp OP_IF,
      AddData (bytes_of accountPubkey), AddOp OP_ENDIF]"

definition AccountAddress ::
  "('sk, 'pk, 'net, 'sh, 'vm) btclib \<Rightarrow> Pubkey \<Rightarrow> Pubkey \<Rightarrow> 'net \<Rightarrow> string result" where
  "AccountAddress L networkPubkey accountPubkey params =
     (case lib_schnorr_ParsePubKey L (bytes_of networkPubkey) of
        Inl err \<Rightarrow> Inl (WrapErr ''invalid network pubkey: %w'' err)
      | Inr internalKey \<Rightarrow>
          (case lib_Script L (accountLeaf networkPubkey accountPubkey) of
             Inl err \<Rightarrow> Inl err
           | Inr script \<Rightarrow>
               (let root = lib_BaseTapLeafHash L script;
                    outputKey = lib_ComputeTaprootOutputKey L internalKey (bytes_of root)
                in lib_TaprootAddress L (lib_SerializePubKey L outputKey) params)))"

section \<open>Properties\<close>

text \<open>
  The network key parser accepts exactly the hex texts of 32 and of 33 bytes: a
  32-byte key is returned unchanged, and of a 33-byte key the first byte is dropped whatever it is
  (the parity prefix is not checked); every other length is an error that reports it.
\<close>

theorem NetworkPubkeyFromHex_cases:
  "NetworkPubkeyFromHex (Pubkey_String k) = Inr k \<and>
   NetworkPubkeyFromHex (EncodeToString (prefix # bytes_of k)) = Inr k \<and>
   ((\<exists>p. NetworkPubkeyFromHex s = Inr p) \<longleftrightarrow>
      (\<exists>b. DecodeString s = Inr b \<and> (length b = 32 \<or> length b = 33))) \<and>
   (NetworkPubkeyFromHex (EncodeToString b) =
      Inl (Errorf ''network pubkey must be 32 or 33 bytes, got %d'' [FInt (int (length b))]) \<longleftrightarrow>
      length b \<notin> {32, 33})"
  by (auto simp: NetworkPubkeyFromHex_def Pubkey_String_def split: sum.splits if_splits)

end
