(* ===== verification/Arch_Bip322.thy ===== *)
theory Arch_Bip322
  imports Arch_Keys
begin

text \<open>
  \<open>bip322.go\<close>: BIP-322 message signing restricted to taproot key-spend. The two virtual Bitcoin
  transactions are built as the code builds them; hashing, tweaking, Schnorr signing and script
  execution belong to the libraries (record \<open>btclib\<close>).
\<close>

type_synonym Signature = "64 byte_array"

section \<open>Operations\<close>

definition bip322Tag :: "byte list" where
  "bip322Tag = bytes_of_string ''BIP0322-signed-message''"

definition p2trScript :: "('sk, 'pk, 'net, 'sh, 'vm) btclib \<Rightarrow> Pubkey \<Rightarrow> byte list result" where
  "p2trScript L pubkey =
     (case lib_schnorr_ParsePubKey L (bytes_of pubkey) of
        Inl err \<Rightarrow> Inl (WrapErr ''invalid x-only pubkey: %w'' err)
      | Inr internalKey \<Rightarrow>
          lib_PayToTaprootScript L (lib_ComputeTaprootKeyNoScript L internalKey))"

definition NewMsgTx :: "int \<Rightarrow> MsgTx" where
  "NewMsgTx v = \<lparr>tx_TxVersion = v, tx_TxIn = [], tx_TxOut = [], tx_LockTime = 0\<rparr>"

definition AddTxIn :: "MsgTx \<Rightarrow> TxIn \<Rightarrow> MsgTx" where
  "AddTxIn tx ti = tx\<lparr>tx_TxIn := tx_TxIn tx @ [ti]\<rparr>"

definition AddTxOut :: "MsgTx \<Rightarrow> TxOut \<Rightarrow> MsgTx" where
  "AddTxOut tx out = tx\<lparr>tx_TxOut := tx_TxOut tx @ [out]\<rparr>"

definition buildToSpend ::
  "('sk, 'pk, 'net, 'sh, 'vm) btclib \<Rightarrow> byte list \<Rightarrow> byte list \<Rightarrow> MsgTx result" where
  "buildToSpend L script msg =
     (let msgHash = lib_TaggedHash L bip322Tag msg
      in case lib_Script L [AddOp OP_0, AddData (bytes_of msgHash)] of
           Inl err \<Rightarrow> Inl err
         | Inr scriptSig \<Rightarrow>
             (let tx = NewMsgTx 0;
                  tx = AddTxIn tx
                    \<lparr>ti_PreviousOutPoint = \<lparr>op_Hash = copy_into [], op_Index = lib_MaxPrevOutIndex L\<rparr>,
                     ti_SignatureScript = scriptSig, ti_Witness = [], ti_Sequence = 0\<rparr>
              in Inr (AddTxOut tx \<lparr>to_Value = 0, to_PkScript = script\<rparr>)))"

definition buildToSign :: "('sk, 'pk, 'net, 'sh, 'vm) btclib \<Rightarrow> MsgTx \<Rightarrow> MsgTx" where
  "buildToSign L toSpend =
     (let tx = NewMsgTx 0;
          tx = AddTxIn tx
            \<lparr>ti_PreviousOutPoint = \<lparr>op_Hash = lib_TxHash L toSpend, op_Index = 0\<rparr>,
             ti_SignatureScript = [], ti_Witness = [], ti_Sequence = 0\<rparr>
      in AddTxOut tx \<lparr>to_Value = 0, to_PkScript = [lib_opcode L OP_RETURN]\<rparr>)"

definition SignMessageBIP322 ::
  "('sk, 'pk, 'net, 'sh, 'vm) btclib \<Rightarrow> 'sk \<Rightarrow> byte list \<Rightarrow> Signature result" where
  "SignMessageBIP322 L priv msg =
     (case p2trScript L (XOnlyPubkey L priv) of
        Inl err \<Rightarrow> Inl err
      | Inr script \<Rightarrow>
          (case buildToSpend L script msg of
             Inl err \<Rightarrow> Inl err
           | Inr toSpend \<Rightarrow>
               (let toSign = buildToSign L toSpend;
                    fetcher = (script, 0);
                    sigHashes = lib_NewTxSigHashes L toSign fetcher
                in case lib_RawTxInTaprootSignature L toSign sigHashes 0 0 script []
                          (lib_SigHashAll L) priv of
                     Inl err \<Rightarrow> Inl (WrapErr ''taproot signing failed: %w'' err)
                   | Inr rawSig \<Rightarrow>
                       if length rawSig < 64
                       then Inl (Errorf ''unexpected signature length %d'' [FInt (int (length rawSig))])
                       else Inr (copy_into (take 64 rawSig)))))"

text \<open>\<open>toSign.TxIn[0].Witness = \<dots>\<close> on a transaction with one input.\<close>

definition setWitness :: "MsgTx \<Rightarrow> byte list list \<Rightarrow> MsgTx" where
  "setWitness tx w = tx\<lparr>tx_TxIn := (tx_TxIn tx)[0 := (tx_TxIn tx ! 0)\<lparr>ti_Witness := w\<rparr>]\<rparr>"

definition VerifyMessageBIP322 ::
  "('sk, 'pk, 'net, 'sh, 'vm) btclib \<Rightarrow> byte list \<Rightarrow> Pubkey \<Rightarrow> Signature \<Rightarrow> bool \<Rightarrow> unit result" where
  "VerifyMessageBIP322 L msg pubkey sig usesSighashAll =
     (case p2trScript L pubkey of
        Inl err \<Rightarrow> Inl err
      | Inr script \<Rightarrow>
          (case buildToSpend L script msg of
             Inl err \<Rightarrow> Inl err
           | Inr toSpend \<Rightarrow>
               (let toSign = buildToSign L toSpend;
                    witnessSig = bytes_of sig;
                    witnessSig = (if usesSighashAll then witnessSig @ [lib_SigHashAll L] else witnessSig);
                    toSign = setWitness toSign [witnessSig];
                    fetcher = (script, 0);
                    sigHashes = lib_NewTxSigHashes L toSign fetcher
                in case lib_NewEngine L script toSign 0 (lib_StandardVerifyFlags L) sigHashes 0 fetcher of
                     Inl err \<Rightarrow> Inl err
                   | Inr vm \<Rightarrow>
                       (case lib_Execute L vm of
                          Inl err \<Rightarrow> Inl (WrapErr ''BIP-322 verification failed: %w'' err)
                        | Inr _ \<Rightarrow> Inr ()))))"

section \<open>Signing and verification\<close>

text \<open>
  What the SDK relies on of the libraries. A taproot signature made with \<open>SigHashAll\<close> is a 64-byte
  Schnorr signature followed by the sighash byte. The script engine accepts the spend of a key's own
  taproot output when the witness is that signature and, as for every native witness program, the
  signature script of the input is empty; the witness is not part of what is signed. The type \<open>'sk\<close> stands
  for valid private keys.
\<close>

definition signature_shape :: "('sk, 'pk, 'net, 'sh, 'vm) btclib \<Rightarrow> bool" where
  "signature_shape L \<longleftrightarrow>
     (\<forall>tx sh i amt script root priv raw.
        lib_RawTxInTaprootSignature L tx sh i amt script root (lib_SigHashAll L) priv = Inr raw \<longrightarrow>
        length raw = 65 \<and> raw ! 64 = lib_SigHashAll L)"

definition engine_accepts :: "('sk, 'pk, 'net, 'sh, 'vm) btclib \<Rightarrow> bool" where
  "engine_accepts L \<longleftrightarrow>
     (\<forall>tx script priv raw.
        p2trScript L (XOnlyPubkey L priv) = Inr script \<and>
        length (tx_TxIn tx) = 1 \<and> ti_SignatureScript (tx_TxIn tx ! 0) = [] \<and>
        lib_RawTxInTaprootSignature L tx (lib_NewTxSigHashes L tx (script, 0)) 0 0 script []
          (lib_SigHashAll L) priv = Inr raw \<longrightarrow>
        (let tx' = setWitness tx [raw] in
         \<exists>vm. lib_NewEngine L script tx' 0 (lib_StandardVerifyFlags L)
                (lib_NewTxSigHashes L tx' (script, 0)) 0 (script, 0) = Inr vm \<and>
              lib_Execute L vm = Inr ()))"

lemma length_buildToSign:
  "length (tx_TxIn (buildToSign L toSpend)) = 1" "ti_SignatureScript (tx_TxIn (buildToSign L toSpend) ! 0) = []"
  by (simp_all add: buildToSign_def NewMsgTx_def AddTxIn_def AddTxOut_def Let_def)

lemma sign_verify:
  assumes "signature_shape L" and "engine_accepts L"
    and "SignMessageBIP322 L priv msg = Inr sig"
  shows "VerifyMessageBIP322 L msg (XOnlyPubkey L priv) sig True = Inr ()"
proof -
  from assms(3) obtain script toSpend raw where
      script: "p2trScript L (XOnlyPubkey L priv) = Inr script"
    and toSpend: "buildToSpend L script msg = Inr toSpend"
    and raw: "lib_RawTxInTaprootSignature L (buildToSign L toSpend)
      (lib_NewTxSigHashes L (buildToSign L toSpend) (script, 0)) 0 0 script [] (lib_SigHashAll L) priv = Inr raw"
    and sig: "sig = copy_into (take 64 raw)"
    by (auto simp: SignMessageBIP322_def Let_def split: sum.splits if_splits)
  have len: "length raw = 65" "raw ! 64 = lib_SigHashAll L"
    using assms(1) raw unfolding signature_shape_def by blast+
  then have "bytes_of sig @ [lib_SigHashAll L] = raw"
    using take_Suc_conv_app_nth [of 64 raw] by (simp add: sig)
  moreover obtain vm where
    "lib_NewEngine L script (setWitness (buildToSign L toSpend) [raw]) 0 (lib_StandardVerifyFlags L)
      (lib_NewTxSigHashes L (setWitness (buildToSign L toSpend) [raw]) (script, 0)) 0 (script, 0) = Inr vm"
    "lib_Execute L vm = Inr ()"
    using assms(2) script raw length_buildToSign unfolding engine_accepts_def Let_def by blast
  ultimately show ?thesis
    by (simp add: VerifyMessageBIP322_def script toSpend Let_def)
qed

text \<open>
  When signing can fail: never, for a library that parses the signer's own x-only key, builds
  scripts of one opcode and one 32-byte push, pays to taproot keys and signs with \<open>SigHashAll\<close>.
\<close>

definition signing_total :: "('sk, 'pk, 'net, 'sh, 'vm) btclib \<Rightarrow> bool" where
  "signing_total L \<longleftrightarrow>
     (\<forall>priv. \<exists>k. lib_schnorr_ParsePubKey L (bytes_of (XOnlyPubkey L priv)) = Inr k) \<and>
     (\<forall>k. \<exists>s. lib_PayToTaprootScript L k = Inr s) \<and>
     (\<forall>c (h :: Hash). \<exists>s. lib_Script L [AddOp c, AddData (bytes_of h)] = Inr s) \<and>
     (\<forall>tx sh i amt script root priv. i < length (tx_TxIn tx) \<longrightarrow>
        (\<exists>raw. lib_RawTxInTaprootSignature L tx sh i amt script root (lib_SigHashAll L) priv = Inr raw))"

lemma sign_total:
  assumes "signing_total L" and "signature_shape L"
  shows "\<exists>sig. SignMessageBIP322 L priv msg = Inr sig"
proof -
  obtain k script where
      "lib_schnorr_ParsePubKey L (bytes_of (XOnlyPubkey L priv)) = Inr k"
    and "lib_PayToTaprootScript L (lib_ComputeTaprootKeyNoScript L k) = Inr script"
    using assms(1) unfolding signing_total_def by metis
  then have script: "p2trScript L (XOnlyPubkey L priv) = Inr script"
    by (simp add: p2trScript_def)
  obtain scriptSig where
    "lib_Script L [AddOp OP_0, AddData (bytes_of (lib_TaggedHash L bip322Tag msg))] = Inr scriptSig"
    using assms(1) unfolding signing_total_def by metis
  then obtain toSpend where toSpend: "buildToSpend L script msg = Inr toSpend"
    by (simp add: buildToSpend_def Let_def)
  obtain raw where raw: "lib_RawTxInTaprootSignature L (buildToSign L toSpend)
      (lib_NewTxSigHashes L (buildToSign L toSpend) (script, 0)) 0 0 script [] (lib_SigHashAll L) priv = Inr raw"
    using assms(1) length_buildToSign(1) [of L toSpend] unfolding signing_total_def by fastforce
  moreover have "length raw = 65"
    using assms(2) raw unfolding signature_shape_def by blast
  ultimately show ?thesis
    by (simp add: SignMessageBIP322_def script toSpend Let_def)
qed

lemmas lib_laws_defs = signature_shape_def engine_accepts_def signing_total_def

text \<open>
  A small library that satisfies the laws and still tells keys and messages apart: a key is its own
  public key, a hash keeps the first 32 bytes of its argument, a signature is the key followed by the
  hash of what it spends, and the engine compares the witness with that and insists on an empty
  signature script.
\<close>

definition toyLib :: "(Pubkey, Pubkey, unit, Hash, bool) btclib" where
  "toyLib =
     \<lparr>lib_NewPrivateKey = (\<lambda>rand. Inr (copy_into (map rand [0..<32]))), lib_PubKey = (\<lambda>k. k), lib_SerializePrivKey = bytes_of, lib_SerializePubKey = bytes_of,
      lib_schnorr_ParsePubKey =
        (\<lambda>b. if length b = 32 then Inr (copy_into b) else Inl (External ''bad pubkey byte string size'')),
      lib_btcec_ParsePubKey =
        (\<lambda>b. if length b = 33 then Inr (copy_into (drop 1 b)) else Inl (External ''malformed public key'')),
      lib_ComputeTaprootKeyNoScript = (\<lambda>k. k), lib_ComputeTaprootOutputKey = (\<lambda>k _. k),
      lib_PayToTaprootScript = (\<lambda>k. Inr (bytes_of k)), lib_opcode = (\<lambda>_. 0),
      lib_Script = (\<lambda>items. Inr (concat (map (case_script_item (\<lambda>_. []) (\<lambda>d. d)) items))),
      lib_BaseTapLeafHash = copy_into, lib_TaprootAddress = (\<lambda>_ _. Inr []),
      lib_TaggedHash = (\<lambda>_ m. copy_into m),
      lib_TxHash = (\<lambda>tx. copy_into (ti_SignatureScript (tx_TxIn tx ! 0))),
      lib_MaxPrevOutIndex = - 1, lib_SigHashAll = 1, lib_StandardVerifyFlags = 0,
      lib_NewTxSigHashes = (\<lambda>tx _. op_Hash (ti_PreviousOutPoint (tx_TxIn tx ! 0))),
      lib_RawTxInTaprootSignature =
        (\<lambda>tx sh i amt script root t k. Inr (bytes_of k @ bytes_of sh @ [t])),
      lib_NewEngine =
        (\<lambda>script tx i flags sh amt prev.
           if ti_SignatureScript (tx_TxIn tx ! 0) \<noteq> [] then Inl (External ''native witness program cannot also have a signature script'')
           else Inr (ti_Witness (tx_TxIn tx ! 0) = [script @ bytes_of sh @ [1]])),
      lib_Execute = (\<lambda>ok. if ok then Inr () else Inl (External ''signature not empty on failed checksig''))\<rparr>"

lemma toyLib_laws: "signing_total toyLib" "signature_shape toyLib" "engine_accepts toyLib"
  by (auto simp: lib_laws_defs toyLib_def XOnlyPubkey_def p2trScript_def setWitness_def nth_append)

section \<open>Properties\<close>

text \<open>
  C16 (functional). Signing always produces a signature, and verifying that signature for the
  signer's x-only key, with the sighash flag the SDK documents, succeeds: dropping the trailing sighash
  byte on signing and appending it on verification cancel, and both sides rebuild the same pair of
  virtual transactions.
\<close>

theorem sign_then_verify:
  assumes "signing_total L" and "signature_shape L" and "engine_accepts L"
  shows "\<exists>sig. SignMessageBIP322 L priv msg = Inr sig \<and>
    VerifyMessageBIP322 L msg (XOnlyPubkey L priv) sig True = Inr ()"
  using sign_total [OF assms(1,2)] sign_verify [OF assms(2,3)] by blast

theorem sign_then_verify_witness:
  "(\<exists>sig. SignMessageBIP322 toyLib (copy_into [1, 2, 3]) [10, 20] = Inr sig \<and>
     VerifyMessageBIP322 toyLib [10, 20] (XOnlyPubkey toyLib (copy_into [1, 2, 3])) sig True = Inr ()) \<and>
   (\<exists>sig. SignMessageBIP322 toyLib (copy_into [1, 2, 3]) [10, 20] = Inr sig \<and>
     VerifyMessageBIP322 toyLib [10, 21] (XOnlyPubkey toyLib (copy_into [1, 2, 3])) sig True \<noteq> Inr ())"
proof (intro conjI)
  show "\<exists>sig. SignMessageBIP322 toyLib (copy_into [1, 2, 3]) [10, 20] = Inr sig \<and>
     VerifyMessageBIP322 toyLib [10, 20] (XOnlyPubkey toyLib (copy_into [1, 2, 3])) sig True = Inr ()"
    by (rule sign_then_verify [OF toyLib_laws])
qed (simp add: SignMessageBIP322_def VerifyMessageBIP322_def p2trScript_def XOnlyPubkey_def toyLib_def
    buildToSpend_def buildToSign_def NewMsgTx_def AddTxIn_def AddTxOut_def setWitness_def Let_def
    bytes_of_copy_into)

end
