(* ===== verification/Arch_Transaction.thy ===== *)
theory Arch_Transaction
  imports Arch_Message Arch_Bip322
begin

text \<open>
  \<open>transaction.go\<close> and the envelope \<open>RuntimeTransaction\<close> of \<open>types.go\<close>: the binary form, the
  transaction id, building and signing a transaction from a compiled message, and normalising a wallet
  signature. The Go map from x-only keys to private keys is a map; signing stops at the first error.
\<close>

section \<open>Data and operations\<close>

record RuntimeTransaction =
  rt_Version :: u32
  rt_Signatures :: "Signature list"
  rt_Message :: SanitizedMessage

definition RuntimeTxVersion :: u32 where
  "RuntimeTxVersion = 0"

definition RuntimeTxSizeLimit :: nat where
  "RuntimeTxSizeLimit = 1232"

text \<open>The signature count is the conversion \<open>uint8(len(\<dots>))\<close>: it wraps at 256.\<close>

definition Tx_Serialize :: "RuntimeTransaction \<Rightarrow> byte list" where
  "Tx_Serialize tx =
     (let buf = AppendUint32 [] (rt_Version tx);
          buf = buf @ [word_of_nat (length (rt_Signatures tx))];
          buf = foldl (\<lambda>b sig. b @ bytes_of sig) buf (rt_Signatures tx)
      in buf @ Message_Serialize (rt_Message tx))"

definition TxID :: "RuntimeTransaction \<Rightarrow> string" where
  "TxID tx =
     (let first = Sum256 (Tx_Serialize tx);
          firstHex = bytes_of_string (EncodeToString (bytes_of first));
          second = Sum256 firstHex
      in EncodeToString (bytes_of second))"

definition signersByPubkey ::
  "('sk, 'pk, 'net, 'sh, 'vm) btclib \<Rightarrow> 'sk list \<Rightarrow> (Pubkey \<rightharpoonup> 'sk)" where
  "signersByPubkey L signers =
     foldl (\<lambda>byPubkey signer. byPubkey(XOnlyPubkey L signer \<mapsto> signer)) Map.empty signers"

fun signEach ::
  "('sk, 'pk, 'net, 'sh, 'vm) btclib \<Rightarrow> (Pubkey \<rightharpoonup> 'sk) \<Rightarrow> byte list \<Rightarrow> Pubkey list \<Rightarrow> Signature list
     \<Rightarrow> Signature list result" where
  "signEach L byPubkey digest [] signatures = Inr signatures"
| "signEach L byPubkey digest (key # keys) signatures =
     (case byPubkey key of
        None \<Rightarrow> Inl (Errorf ''required signer %s not found'' [FStr (Pubkey_String key)])
      | Some signer \<Rightarrow>
          (case SignMessageBIP322 L signer digest of
             Inl err \<Rightarrow> Inl err
           | Inr sig \<Rightarrow> signEach L byPubkey digest keys (signatures @ [sig])))"

definition BuildAndSignTransaction ::
  "('sk, 'pk, 'net, 'sh, 'vm) btclib \<Rightarrow> SanitizedMessage \<Rightarrow> 'sk list \<Rightarrow> RuntimeTransaction result" where
  "BuildAndSignTransaction L message signers =
     (let digest = Message_Hash message;
          numRequired = unat (hd_NumRequiredSignatures (msg_Header message))
      in if numRequired > length (msg_AccountKeys message)
         then Inl (Errorf ''message requires %d signatures but has only %d account keys''
                [FInt (int numRequired), FInt (int (length (msg_AccountKeys message)))])
         else case signEach L (signersByPubkey L signers) digest
                     (take numRequired (msg_AccountKeys message)) [] of
                Inl err \<Rightarrow> Inl err
              | Inr signatures \<Rightarrow>
                  Inr \<lparr>rt_Version = RuntimeTxVersion, rt_Signatures = signatures, rt_Message = message\<rparr>)"

definition AdjustSignature :: "byte list \<Rightarrow> Signature result" where
  "AdjustSignature sig =
     (if length sig = 64 then Inr (copy_into sig)
      else if length sig = 66 then Inr (copy_into (drop 2 sig))
      else if length sig = 67 then Inr (copy_into (drop 2 (take 66 sig)))
      else Inl (Errorf ''invalid signature length %d'' [FInt (int (length sig))]))"

section \<open>Layout and decoding\<close>

lemma Tx_Serialize_layout:
  "Tx_Serialize tx =
     le_bytes32 (rt_Version tx) @ [word_of_nat (length (rt_Signatures tx))] @
     concat (map bytes_of (rt_Signatures tx)) @ Message_Serialize (rt_Message tx)"
  by (simp add: Tx_Serialize_def AppendUint32_def foldl_append_concat Let_def)

lemma length_Tx_Serialize [layout_simps]:
  "length (Tx_Serialize tx) =
     5 + 64 * length (rt_Signatures tx) + length (Message_Serialize (rt_Message tx))"
  by (simp add: Tx_Serialize_layout length_concat_map_const [of _ _ 64])

definition dec_tx :: "RuntimeTransaction decoder" where
  "dec_tx =
     dec_bind dec_u32 (\<lambda>v. dec_bind dec_u8 (\<lambda>n. dec_bind (dec_many dec_array (unat n)) (\<lambda>sigs.
       dec_bind dec_message (\<lambda>m.
         dec_return \<lparr>rt_Version = v, rt_Signatures = sigs, rt_Message = m\<rparr>))))"

definition ok_tx :: "RuntimeTransaction \<Rightarrow> bool" where
  "ok_tx tx \<longleftrightarrow> length (rt_Signatures tx) < 256 \<and> ok_message (rt_Message tx)"

interpretation codec_tx: byte_codec Tx_Serialize dec_tx ok_tx
proof
  fix tx r
  assume "ok_tx tx"
  then show "dec_tx (Tx_Serialize tx @ r) = Some (tx, r)"
    by (simp add: ok_tx_def dec_tx_def Tx_Serialize_layout codec_simps unat_word_of_nat8
        codec_array.dec_many_enc codec_message.dec_enc)
qed

section \<open>Signing\<close>

text \<open>Of several private keys with the same x-only key the last one is used.\<close>

lemma signersByPubkey_find:
  "signersByPubkey L signers key = find (\<lambda>s. XOnlyPubkey L s = key) (rev signers)"
proof -
  have "foldl (\<lambda>m s. m(XOnlyPubkey L s \<mapsto> s)) m0 signers key =
      (case find (\<lambda>s. XOnlyPubkey L s = key) (rev signers) of None \<Rightarrow> m0 key | Some s \<Rightarrow> Some s)" for m0
    by (induction signers rule: rev_induct) auto
  from this [of Map.empty] show ?thesis
    by (simp add: signersByPubkey_def split: option.splits)
qed

lemma signersByPubkey_SomeD:
  "signersByPubkey L signers key = Some s \<Longrightarrow> s \<in> set signers \<and> XOnlyPubkey L s = key"
  using nth_mem [of _ "rev signers"] by (auto simp: signersByPubkey_find find_Some_iff)

lemma signersByPubkey_None_iff:
  "signersByPubkey L signers key = None \<longleftrightarrow> key \<notin> XOnlyPubkey L ` set signers"
  by (auto simp: signersByPubkey_find find_None_iff)

text \<open>The signature that belongs to a key, when there is one.\<close>

definition signed_by ::
  "('sk, 'pk, 'net, 'sh, 'vm) btclib \<Rightarrow> 'sk list \<Rightarrow> byte list \<Rightarrow> Pubkey \<Rightarrow> Signature \<Rightarrow> bool" where
  "signed_by L signers digest key sig \<longleftrightarrow>
     (case find (\<lambda>s. XOnlyPubkey L s = key) (rev signers) of
        None \<Rightarrow> False | Some s \<Rightarrow> SignMessageBIP322 L s digest = Inr sig)"

lemma signEach_Inr_iff:
  "signEach L (signersByPubkey L signers) digest keys acc = Inr sigs \<longleftrightarrow>
     (\<exists>new. sigs = acc @ new \<and> list_all2 (signed_by L signers digest) keys new)"
proof (induction keys arbitrary: acc)
  case (Cons key keys)
  then show ?case
    by (auto simp: signersByPubkey_find signed_by_def list_all2_Cons1 split: option.splits sum.splits)
qed auto

lemma signEach_missing:
  assumes "signing_total L" and "signature_shape L"
  shows "signEach L (signersByPubkey L signers) digest keys acc = Inl e \<longleftrightarrow>
    (\<exists>key. find (\<lambda>k. k \<notin> XOnlyPubkey L ` set signers) keys = Some key \<and>
       e = Errorf ''required signer %s not found'' [FStr (Pubkey_String key)])"
proof (induction keys arbitrary: acc)
  case (Cons key keys)
  show ?case
  proof (cases "signersByPubkey L signers key")
    case None
    then have "key \<notin> XOnlyPubkey L ` set signers"
      by (simp add: signersByPubkey_None_iff)
    with None show ?thesis by auto
  next
    case (Some s)
    then have "key \<in> XOnlyPubkey L ` set signers"
      using signersByPubkey_SomeD by fast
    moreover obtain sig where "SignMessageBIP322 L s digest = Inr sig"
      using sign_total [OF assms] by blast
    ultimately show ?thesis using Some Cons.IH by simp
  qed
qed simp

lemma signed_by_verifies:
  assumes "signature_shape L" and "engine_accepts L" and "signed_by L signers digest key sig"
  shows "VerifyMessageBIP322 L digest key sig True = Inr ()"
proof -
  from assms(3) obtain s where
      "find (\<lambda>s. XOnlyPubkey L s = key) (rev signers) = Some s" "SignMessageBIP322 L s digest = Inr sig"
    by (auto simp: signed_by_def split: option.splits)
  moreover from this have "XOnlyPubkey L s = key"
    by (auto simp: find_Some_iff)
  ultimately show ?thesis
    using sign_verify [OF assms(1,2)] by blast
qed

lemma BuildAndSign_Inr_iff:
  "BuildAndSignTransaction L m signers = Inr tx \<longleftrightarrow>
     unat (hd_NumRequiredSignatures (msg_Header m)) \<le> length (msg_AccountKeys m) \<and>
     rt_Version tx = RuntimeTxVersion \<and> rt_Message tx = m \<and>
     list_all2 (signed_by L signers (Message_Hash m))
       (take (unat (hd_NumRequiredSignatures (msg_Header m))) (msg_AccountKeys m)) (rt_Signatures tx)"
proof -
  have "tx = \<lparr>rt_Version = v, rt_Signatures = s, rt_Message = m'\<rparr> \<longleftrightarrow>
      rt_Version tx = v \<and> rt_Signatures tx = s \<and> rt_Message tx = m'" for v s m'
    by (cases tx) auto
  then show ?thesis
    by (auto simp: BuildAndSignTransaction_def Let_def signEach_Inr_iff not_less
        split: sum.splits if_splits) (auto simp flip: signEach_Inr_iff [where acc = "[]", simplified])
qed

lemma BuildAndSign_Inl_iff:
  assumes "signing_total L" and "signature_shape L"
  shows "BuildAndSignTransaction L m signers = Inl e \<longleftrightarrow>
    (let n = unat (hd_NumRequiredSignatures (msg_Header m)); keys = msg_AccountKeys m in
     if n > length keys
     then e = Errorf ''message requires %d signatures but has only %d account keys''
                [FInt (int n), FInt (int (length keys))]
     else \<exists>key. find (\<lambda>k. k \<notin> XOnlyPubkey L ` set signers) (take n keys) = Some key \<and>
            e = Errorf ''required signer %s not found'' [FStr (Pubkey_String key)])"
  unfolding Let_def BuildAndSignTransaction_def
    signEach_missing [OF assms, of signers "Message_Hash m" _ "[]", symmetric]
  by (auto split: sum.splits)

section \<open>Properties\<close>

text \<open>
  C14 (round trip). A transaction with at most 255 signatures and a well-formed message is recovered
  from its serialised bytes, together with the bytes that follow; so two such transactions never have
  the same bytes. The single-byte signature count is what bounds the signatures.
\<close>

theorem Tx_Serialize_roundtrip:
  assumes "ok_tx tx"
  shows "dec_tx (Tx_Serialize tx @ r) = Some (tx, r) \<and>
    (\<forall>tx' r'. ok_tx tx' \<and> Tx_Serialize tx' @ r' = Tx_Serialize tx @ r \<longrightarrow> tx' = tx \<and> r' = r)"
  using assms codec_tx.dec_enc codec_tx.enc_append_inject by blast

definition fixtureTx :: RuntimeTransaction where
  "fixtureTx = \<lparr>rt_Version = 0, rt_Signatures = [copy_into (replicate 64 0xCC)], rt_Message = fixtureMessage\<rparr>"

lemma ok_fixtureTx: "ok_tx fixtureTx"
  by (simp add: ok_tx_def fixtureTx_def fixtureMessage_def ok_message_def ok_instruction_def)

theorem Tx_Serialize_roundtrip_witness:
  "ok_tx fixtureTx \<and> dec_tx (Tx_Serialize fixtureTx @ [1, 2]) = Some (fixtureTx, [1, 2])"
  using ok_fixtureTx Tx_Serialize_roundtrip [OF ok_fixtureTx] by blast

text \<open>
  C15 (safety). The transaction id is the text of 64 lowercase hex digits, and it binds the whole
  transaction, signatures included: two well-formed transactions share an id exactly when they are
  equal or exhibit a SHA-256 collision in one of the two hashing steps.
\<close>

theorem TxID_binding:
  assumes "ok_tx tx" and "ok_tx tx'"
  shows "length (TxID tx) = 64 \<and> set (TxID tx) \<subseteq> set ''0123456789abcdef'' \<and>
    (TxID tx = TxID tx' \<longleftrightarrow>
     (let x = Tx_Serialize tx; x' = Tx_Serialize tx';
          y = bytes_of_string (Hash_String (Sum256 x));
          y' = bytes_of_string (Hash_String (Sum256 x'))
      in tx = tx' \<or> (x \<noteq> x' \<and> Sum256 x = Sum256 x') \<or> (y \<noteq> y' \<and> Sum256 y = Sum256 y')))"
proof -
  have "Tx_Serialize tx = Tx_Serialize tx' \<longleftrightarrow> tx = tx'"
    using assms codec_tx.enc_inject by blast
  moreover have "set (TxID tx) \<subseteq> set ''0123456789abcdef''"
    unfolding TxID_def Let_def Hash_String_def by (rule EncodeToString_digits)
  ultimately show ?thesis
    by (auto simp: TxID_def Let_def Hash_String_def bytes_of_eq_iff)
qed

theorem TxID_binding_witness:
  "ok_tx fixtureTx \<and> length (TxID fixtureTx) = 64 \<and> set (TxID fixtureTx) \<subseteq> set ''0123456789abcdef'' \<and>
   (TxID fixtureTx = TxID (fixtureTx\<lparr>rt_Signatures := []\<rparr>) \<longleftrightarrow>
    (let x = Tx_Serialize fixtureTx; x' = Tx_Serialize (fixtureTx\<lparr>rt_Signatures := []\<rparr>);
         y = bytes_of_string (Hash_String (Sum256 x));
         y' = bytes_of_string (Hash_String (Sum256 x'))
     in (x \<noteq> x' \<and> Sum256 x = Sum256 x') \<or> (y \<noteq> y' \<and> Sum256 y = Sum256 y')))"
proof -
  have "ok_tx (fixtureTx\<lparr>rt_Signatures := []\<rparr>)"
    using ok_fixtureTx by (simp add: ok_tx_def)
  moreover have "fixtureTx \<noteq> fixtureTx\<lparr>rt_Signatures := []\<rparr>"
    by (simp add: fixtureTx_def)
  ultimately show ?thesis
    using ok_fixtureTx TxID_binding [OF ok_fixtureTx] by (simp only: Let_def simp_thms)
qed

text \<open>
  C12 (functional). Building succeeds with a transaction exactly when the message has as many account
  keys as it requires signatures and the transaction carries version 0, that message, and in order one
  signature per required account key, made over the message digest with the last supplied private key
  whose x-only key it is.
\<close>

theorem BuildAndSignTransaction_result:
  "BuildAndSignTransaction L m signers = Inr tx \<longleftrightarrow>
     unat (hd_NumRequiredSignatures (msg_Header m)) \<le> length (msg_AccountKeys m) \<and>
     rt_Version tx = 0 \<and> rt_Message tx = m \<and>
     list_all2 (\<lambda>key sig. case find (\<lambda>s. XOnlyPubkey L s = key) (rev signers) of
         None \<Rightarrow> False | Some s \<Rightarrow> SignMessageBIP322 L s (Message_Hash m) = Inr sig)
       (take (unat (hd_NumRequiredSignatures (msg_Header m))) (msg_AccountKeys m)) (rt_Signatures tx)"
  using BuildAndSign_Inr_iff [of L m signers tx] by (simp add: signed_by_def [abs_def] RuntimeTxVersion_def)

text \<open>
  When every required account key belongs to one of the supplied private keys, building
  succeeds, and the transaction has exactly one signature per required key, each of which verifies for
  its key over the message digest.
\<close>

theorem BuildAndSignTransaction_verifies:
  assumes "signing_total L" and "signature_shape L" and "engine_accepts L"
    and "unat (hd_NumRequiredSignatures (msg_Header m)) \<le> length (msg_AccountKeys m)"
    and "set (take (unat (hd_NumRequiredSignatures (msg_Header m))) (msg_AccountKeys m))
           \<subseteq> XOnlyPubkey L ` set signers"
  shows "\<exists>tx. BuildAndSignTransaction L m signers = Inr tx \<and> rt_Message tx = m \<and>
    length (rt_Signatures tx) = unat (hd_NumRequiredSignatures (msg_Header m)) \<and>
    list_all2 (\<lambda>key sig. VerifyMessageBIP322 L (Message_Hash m) key sig True = Inr ())
      (take (unat (hd_NumRequiredSignatures (msg_Header m))) (msg_AccountKeys m)) (rt_Signatures tx)"
proof -
  let ?n = "unat (hd_NumRequiredSignatures (msg_Header m))"
  have "find (\<lambda>k. k \<notin> XOnlyPubkey L ` set signers) (take ?n (msg_AccountKeys m)) = None"
    using assms(5) by (auto simp: find_None_iff)
  then have "BuildAndSignTransaction L m signers \<noteq> Inl e" for e
    using assms(4) by (simp add: BuildAndSign_Inl_iff [OF assms(1,2)] Let_def)
  then obtain tx where tx: "BuildAndSignTransaction L m signers = Inr tx"
    by (cases "BuildAndSignTransaction L m signers") auto
  then have signed: "rt_Message tx = m"
      "list_all2 (signed_by L signers (Message_Hash m)) (take ?n (msg_AccountKeys m)) (rt_Signatures tx)"
    by (simp_all add: BuildAndSign_Inr_iff)
  moreover have "length (rt_Signatures tx) = ?n"
    using list_all2_lengthD [OF signed(2)] assms(4) by simp
  moreover have "list_all2 (\<lambda>key sig. VerifyMessageBIP322 L (Message_Hash m) key sig True = Inr ())
      (take ?n (msg_AccountKeys m)) (rt_Signatures tx)"
    using signed(2) by (rule list_all2_mono) (rule signed_by_verifies [OF assms(2,3)])
  ultimately show ?thesis using tx by blast
qed

theorem BuildAndSignTransaction_verifies_witness:
  "\<exists>tx. BuildAndSignTransaction toyLib fixtureMessage
      [SystemProgramID, copy_into (map word_of_nat [1..<33])] = Inr tx \<and>
    rt_Message tx = fixtureMessage \<and>
    length (rt_Signatures tx) = unat (hd_NumRequiredSignatures (msg_Header fixtureMessage)) \<and>
    list_all2 (\<lambda>key sig. VerifyMessageBIP322 toyLib (Message_Hash fixtureMessage) key sig True = Inr ())
      (take (unat (hd_NumRequiredSignatures (msg_Header fixtureMessage))) (msg_AccountKeys fixtureMessage))
      (rt_Signatures tx)"
  by (rule BuildAndSignTransaction_verifies [OF toyLib_laws])
     (simp_all add: fixtureMessage_def XOnlyPubkey_def toyLib_def)

text \<open>
  C13 (error). Building fails exactly when the message requires more signatures than it has account
  keys, or some required key belongs to none of the supplied private keys; the error then names the
  first such key.
\<close>

theorem BuildAndSignTransaction_errors:
  assumes "signing_total L" and "signature_shape L"
  shows "BuildAndSignTransaction L m signers = Inl e \<longleftrightarrow>
    (let n = unat (hd_NumRequiredSignatures (msg_Header m)); keys = msg_AccountKeys m in
     if n > length keys
     then e = Errorf ''message requires %d signatures but has only %d account keys''
                [FInt (int n), FInt (int (length keys))]
     else \<exists>key. find (\<lambda>k. k \<notin> XOnlyPubkey L ` set signers) (take n keys) = Some key \<and>
            e = Errorf ''required signer %s not found'' [FStr (Pubkey_String key)])"
  by (rule BuildAndSign_Inl_iff [OF assms])

theorem BuildAndSignTransaction_errors_witness:
  "BuildAndSignTransaction toyLib fixtureMessage [SystemProgramID] =
     Inl (Errorf ''required signer %s not found''
       [FStr (Pubkey_String (copy_into (map word_of_nat [1..<33])))])"
proof -
  have "copy_into (map word_of_nat [1..<33]) \<noteq> SystemProgramID"
    by (simp add: SystemProgramID_def bytes_of_copy_into upt_rec numeral_eq_Suc flip: bytes_of_eq_iff)
  then show ?thesis
    by (subst BuildAndSignTransaction_errors [OF toyLib_laws(1,2)])
       (simp add: fixtureMessage_def XOnlyPubkey_def toyLib_def)
qed

text \<open>
  A wallet signature is normalised to the same 64 bytes whether it comes bare, with a
  two-byte prefix, or with prefix and a trailing sighash byte; every other length, and only that, is
  an error which reports it.
\<close>

theorem AdjustSignature_normalises:
  "AdjustSignature (bytes_of s) = Inr s \<and>
   AdjustSignature ([p, q] @ bytes_of s) = Inr s \<and>
   AdjustSignature ([p, q] @ bytes_of s @ [t]) = Inr s \<and>
   ((\<exists>s'. AdjustSignature sig = Inr s') \<longleftrightarrow> length sig \<in> {64, 66, 67}) \<and>
   (AdjustSignature sig = Inl e \<longleftrightarrow>
      length sig \<notin> {64, 66, 67} \<and> e = Errorf ''invalid signature length %d'' [FInt (int (length sig))])"
  by (auto simp: AdjustSignature_def)

end
