(* ===== verification/Arch_Loader.thy ===== *)
theory Arch_Loader
  imports Arch_Compile_Correct Arch_System Arch_Transaction
begin

text \<open>
  \<open>loader.go\<close>: the builders of BPF loader instructions, and the size of the largest payload a
  write can carry. As for the system program, the data is compared with an abstract syntax.
\<close>

section \<open>Discriminants and builders\<close>

definition loaderWrite :: u32 where "loaderWrite = 0"
definition loaderTruncate :: u32 where "loaderTruncate = 1"
definition loaderDeploy :: u32 where "loaderDeploy = 2"
definition loaderRetract :: u32 where "loaderRetract = 3"
definition loaderTransferAuthority :: u32 where "loaderTransferAuthority = 4"
definition loaderFinalize :: u32 where "loaderFinalize = 5"

lemmas loader_tags =
  loaderWrite_def loaderTruncate_def loaderDeploy_def loaderRetract_def loaderTransferAuthority_def
  loaderFinalize_def

definition LoaderWrite :: "Pubkey \<Rightarrow> Pubkey \<Rightarrow> u32 \<Rightarrow> byte list \<Rightarrow> Instruction" where
  "LoaderWrite programAccount authority offset bytes =
     (let data = appendU32 [] loaderWrite;
          data = appendU32 data offset;
          data = appendU64 data (word_of_nat (length bytes));
          data = data @ bytes
      in \<lparr>ix_ProgramID = BpfLoaderProgramID,
          ix_Accounts = [account programAccount False True, account authority True False],
          ix_Data = data\<rparr>)"

definition LoaderTruncate :: "Pubkey \<Rightarrow> Pubkey \<Rightarrow> u32 \<Rightarrow> Instruction" where
  "LoaderTruncate programAccount authority newSize =
     (let data = appendU32 [] loaderTruncate;
          data = appendU32 data newSize
      in \<lparr>ix_ProgramID = BpfLoaderProgramID,
          ix_Accounts = [account programAccount True True, account authority True False],
          ix_Data = data\<rparr>)"

definition LoaderDeploy :: "Pubkey \<Rightarrow> Pubkey \<Rightarrow> Instruction" where
  "LoaderDeploy programAccount authority =
     \<lparr>ix_ProgramID = BpfLoaderProgramID,
      ix_Accounts = [account programAccount False True, account authority True False],
      ix_Data = appendU32 [] loaderDeploy\<rparr>"

definition LoaderRetract :: "Pubkey \<Rightarrow> Pubkey \<Rightarrow> Instruction" where
  "LoaderRetract programAccount authority =
     \<lparr>ix_ProgramID = BpfLoaderProgramID,
      ix_Accounts = [account programAccount False True, account authority True False],
      ix_Data = appendU32 [] loaderRetract\<rparr>"

definition LoaderTransferAuthority :: "Pubkey \<Rightarrow> Pubkey \<Rightarrow> Pubkey \<Rightarrow> Instruction" where
  "LoaderTransferAuthority programAccount currentAuthority newAuthority =
     \<lparr>ix_ProgramID = BpfLoaderProgramID,
      ix_Accounts = [account programAccount True True, account currentAuthority True False,
        account newAuthority True False],
      ix_Data = appendU32 [] loaderTransferAuthority\<rparr>"

definition LoaderFinalize :: "Pubkey \<Rightarrow> Pubkey \<Rightarrow> Pubkey \<Rightarrow> Instruction" where
  "LoaderFinalize programAccount authority nextVersion =
     \<lparr>ix_ProgramID = BpfLoaderProgramID,
      ix_Accounts = [account programAccount True True, account authority True False,
        account nextVersion False False],
      ix_Data = appendU32 [] loaderFinalize\<rparr>"

text \<open>
  The size of the transaction with an empty payload, subtracted from the limit. The two sample keys
  are filled with the bytes 1 and 2 by a loop over the array.
\<close>

definition ExtendBytesMaxLen :: "(Pubkey list \<Rightarrow> Pubkey list) \<Rightarrow> int result" where
  "ExtendBytesMaxLen ord =
     (let program = copy_into (replicate 32 1);
          authority = copy_into (replicate 32 2)
      in case NewSanitizedMessage ord [LoaderWrite program authority 0 []] None (copy_into []) of
           Inl err \<Rightarrow> Inl err
         | Inr message \<Rightarrow>
             (let tx = \<lparr>rt_Version = RuntimeTxVersion, rt_Signatures = [copy_into []], rt_Message = message\<rparr>
              in Inr (int RuntimeTxSizeLimit - int (length (Tx_Serialize tx)))))"

section \<open>Abstract syntax of loader instructions\<close>

datatype loader_instruction =
    LdrWrite u32 "byte list"
  | LdrTruncate u32
  | LdrDeploy
  | LdrRetract
  | LdrTransferAuthority
  | LdrFinalize

fun enc_loader :: "loader_instruction \<Rightarrow> byte list" where
  "enc_loader (LdrWrite off bs) =
     le_bytes32 0 @ le_bytes32 off @ le_bytes64 (word_of_nat (length bs)) @ bs"
| "enc_loader (LdrTruncate n) = le_bytes32 1 @ le_bytes32 n"
| "enc_loader LdrDeploy = le_bytes32 2"
| "enc_loader LdrRetract = le_bytes32 3"
| "enc_loader LdrTransferAuthority = le_bytes32 4"
| "enc_loader LdrFinalize = le_bytes32 5"

definition dec_loader_body :: "u32 \<Rightarrow> loader_instruction decoder" where
  "dec_loader_body tag =
     (if tag = 0 then dec_bind dec_u32 (\<lambda>off. dec_bind dec_bytes64 (\<lambda>bs. dec_return (LdrWrite off bs)))
      else if tag = 1 then dec_bind dec_u32 (\<lambda>n. dec_return (LdrTruncate n))
      else if tag = 2 then dec_return LdrDeploy
      else if tag = 3 then dec_return LdrRetract
      else if tag = 4 then dec_return LdrTransferAuthority
      else if tag = 5 then dec_return LdrFinalize
      else dec_fail)"

definition dec_loader :: "loader_instruction decoder" where
  "dec_loader = dec_bind dec_u32 dec_loader_body"

fun ok_loader :: "loader_instruction \<Rightarrow> bool" where
  "ok_loader (LdrWrite off bs) \<longleftrightarrow> length bs < 2 ^ 64"
| "ok_loader _ \<longleftrightarrow> True"

interpretation codec_loader: byte_codec enc_loader dec_loader ok_loader
proof
  fix i r
  assume "ok_loader i"
  then show "dec_loader (enc_loader i @ r) = Some (i, r)"
    by (cases i) (simp_all add: dec_loader_def dec_loader_body_def codec_simps)
qed

lemma loader_data:
  "ix_Data (LoaderWrite p a off bs) = enc_loader (LdrWrite off bs)"
  "ix_Data (LoaderTruncate p a n) = enc_loader (LdrTruncate n)"
  "ix_Data (LoaderDeploy p a) = enc_loader LdrDeploy"
  "ix_Data (LoaderRetract p a) = enc_loader LdrRetract"
  "ix_Data (LoaderTransferAuthority p a b) = enc_loader LdrTransferAuthority"
  "ix_Data (LoaderFinalize p a b) = enc_loader LdrFinalize"
  by (simp_all add: LoaderWrite_def LoaderTruncate_def LoaderDeploy_def LoaderRetract_def
      LoaderTransferAuthority_def LoaderFinalize_def append_helpers loader_tags Let_def)

section \<open>Size of a compiled message\<close>

lemma compiled_size:
  assumes "map_order ord" and "NewSanitizedMessage ord ixs payer bh = Inr m"
  shows "length (Message_Serialize m) =
    43 + 32 * card (referenced ixs payer) +
    (\<Sum>ix\<leftarrow>ixs. 9 + length (ix_Accounts ix) + length (ix_Data ix))"
proof -
  have "compile_spec ixs payer bh = Inr m"
    using assms NewSanitizedMessage_spec_eq by metis
  then have "msg_AccountKeys m = spec_keys ixs payer"
      and "msg_Instructions m = map (spec_instruction (spec_keys ixs payer)) ixs"
    by (auto simp: compile_spec_def Let_def split: if_splits)
  then show ?thesis
    by (simp add: length_Message_Serialize spec_keys_card spec_instruction_def comp_def)
qed

lemma referenced_LoaderWrite:
  "referenced [LoaderWrite p a off bs] payer = set_option payer \<union> {BpfLoaderProgramID, p, a}"
  by (auto simp: referenced_def ix_keys_def LoaderWrite_def Let_def)

lemma compile_small:
  assumes "map_order ord" and "card (referenced ixs payer) \<le> 255"
  shows "\<exists>m. NewSanitizedMessage ord ixs payer bh = Inr m"
proof -
  have "spec_signers ixs payer \<le> length (spec_keys ixs payer)"
    by (simp add: spec_signers_def)
  moreover have "length (spec_group ixs payer False False) \<le> length (spec_keys ixs payer)"
    by (simp add: spec_keys_def)
  ultimately show ?thesis
    using assms(2) by (simp add: NewSanitizedMessage_spec_eq [OF assms(1)] compile_spec_def Let_def
        flip: spec_keys_card)
qed

lemma LoaderWrite_tx_size:
  assumes "map_order ord" and "distinct [BpfLoaderProgramID, p, a]" and "payer \<in> {None, Some a}"
  shows "\<exists>m. NewSanitizedMessage ord [LoaderWrite p a off bs] payer bh = Inr m \<and>
    length (Tx_Serialize \<lparr>rt_Version = v, rt_Signatures = [sig], rt_Message = m\<rparr>) = 235 + length bs"
proof -
  have card: "card (referenced [LoaderWrite p a off bs] payer) = 3"
    using assms(2,3) by (auto simp: referenced_LoaderWrite insert_commute)
  then obtain m where m: "NewSanitizedMessage ord [LoaderWrite p a off bs] payer bh = Inr m"
    using compile_small [OF assms(1), of "[LoaderWrite p a off bs]" payer bh] by auto
  have "length (ix_Accounts (LoaderWrite p a off bs)) = 2"
    by (simp add: LoaderWrite_def Let_def)
  with compiled_size [OF assms(1) m] card m show ?thesis
    by (simp add: length_Tx_Serialize loader_data)
qed

lemma sample_keys_distinct:
  "distinct [BpfLoaderProgramID, copy_into (replicate 32 1), copy_into (replicate 32 2)]"
  by (simp add: BpfLoaderProgramID_def replicate_numeral_step flip: bytes_of_eq_iff)

lemma ExtendBytesMaxLen_value:
  assumes "map_order ord"
  shows "ExtendBytesMaxLen ord = Inr 997"
proof -
  obtain m where
    "NewSanitizedMessage ord [LoaderWrite (copy_into (replicate 32 1)) (copy_into (replicate 32 2)) 0 []]
       None (copy_into []) = Inr m"
    "length (Tx_Serialize \<lparr>rt_Version = RuntimeTxVersion, rt_Signatures = [copy_into []], rt_Message = m\<rparr>) = 235"
    using LoaderWrite_tx_size [OF assms sample_keys_distinct, of None 0 "[]" "copy_into []"
        RuntimeTxVersion "copy_into []"] by auto
  then show ?thesis
    by (simp add: ExtendBytesMaxLen_def RuntimeTxSizeLimit_def Let_def)
qed

section \<open>Properties\<close>

text \<open>
  C38 (round trip). The data of every loader builder decodes, under the documented layout (u32
  discriminant in the order of the Rust enum, u32 offset and size, u64-prefixed payload), to the
  instruction the builder is named after with its own arguments, and nothing is left over.
\<close>

theorem loader_data_roundtrip:
  assumes "length bs < 2 ^ 64"
  shows "dec_loader (ix_Data (LoaderWrite p a off bs)) = Some (LdrWrite off bs, []) \<and>
   dec_loader (ix_Data (LoaderTruncate p a n)) = Some (LdrTruncate n, []) \<and>
   dec_loader (ix_Data (LoaderDeploy p a)) = Some (LdrDeploy, []) \<and>
   dec_loader (ix_Data (LoaderRetract p a)) = Some (LdrRetract, []) \<and>
   dec_loader (ix_Data (LoaderTransferAuthority p a b)) = Some (LdrTransferAuthority, []) \<and>
   dec_loader (ix_Data (LoaderFinalize p a b)) = Some (LdrFinalize, [])"
  using assms by (simp only: loader_data codec_loader.dec_enc_Nil ok_loader.simps simp_thms)

theorem loader_data_roundtrip_witness:
  "dec_loader (ix_Data (LoaderWrite (pk 1) (pk 2) 1000 [9, 8, 7])) = Some (LdrWrite 1000 [9, 8, 7], [])"
  using loader_data_roundtrip [of "[9, 8, 7]"] by simp

text \<open>
  Every loader instruction is signed by the authority and can change only the program
  account; resizing, handing over and finalising are in addition signed by the program account, and
  handing over also by the new authority.
\<close>

theorem loader_roles:
  "ix_signers (LoaderWrite p a off bs) = {a} \<and> ix_signers (LoaderDeploy p a) = {a} \<and>
   ix_signers (LoaderRetract p a) = {a} \<and> ix_signers (LoaderTruncate p a n) = {p, a} \<and>
   ix_signers (LoaderTransferAuthority p a b) = {p, a, b} \<and> ix_signers (LoaderFinalize p a b) = {p, a} \<and>
   (\<Union>ix \<in> {LoaderWrite p a off bs, LoaderTruncate p a n, LoaderDeploy p a, LoaderRetract p a,
      LoaderTransferAuthority p a b, LoaderFinalize p a b}. ix_writables ix) = {p}"
  by (simp add: LoaderWrite_def LoaderTruncate_def LoaderDeploy_def LoaderRetract_def
      LoaderTransferAuthority_def LoaderFinalize_def Let_def ix_role_simps insert_commute)

text \<open>
  C39 (bounds). The reported maximal payload is 997 bytes, and it is exact: for any program account
  and authority that differ from each other and from the loader program, with no payer or with the
  authority paying, a write compiles and the single-signature transaction fits the size limit exactly
  when its payload has at most that many bytes.
\<close>

theorem ExtendBytesMaxLen_exact:
  assumes "map_order ord" and "distinct [BpfLoaderProgramID, p, a]" and "payer \<in> {None, Some a}"
  shows "\<exists>m limit. NewSanitizedMessage ord [LoaderWrite p a off bs] payer bh = Inr m \<and>
    ExtendBytesMaxLen ord = Inr limit \<and> limit = 997 \<and>
    (length (Tx_Serialize \<lparr>rt_Version = 0, rt_Signatures = [sig], rt_Message = m\<rparr>) \<le> RuntimeTxSizeLimit
      \<longleftrightarrow> int (length bs) \<le> limit)"
proof -
  obtain m where "NewSanitizedMessage ord [LoaderWrite p a off bs] payer bh = Inr m"
      "length (Tx_Serialize \<lparr>rt_Version = 0, rt_Signatures = [sig], rt_Message = m\<rparr>) = 235 + length bs"
    using LoaderWrite_tx_size [OF assms] by blast
  then show ?thesis
    by (auto simp: ExtendBytesMaxLen_value [OF assms(1)] RuntimeTxSizeLimit_def)
qed

theorem ExtendBytesMaxLen_exact_witness:
  "\<exists>m limit. NewSanitizedMessage rev [LoaderWrite (copy_into (replicate 32 1)) (copy_into (replicate 32 2)) 0
      (replicate 998 0)] None (copy_into []) = Inr m \<and> ExtendBytesMaxLen rev = Inr limit \<and> limit = 997 \<and>
    (length (Tx_Serialize \<lparr>rt_Version = 0, rt_Signatures = [copy_into []], rt_Message = m\<rparr>)
      \<le> RuntimeTxSizeLimit \<longleftrightarrow> int (length (replicate 998 (0 :: byte))) \<le> limit)"
  by (rule ExtendBytesMaxLen_exact [OF map_order_rev sample_keys_distinct]) simp

text \<open>
  The serialised size of a compiled message depends only on how many different keys are
  referenced and on the instructions: 43 bytes, 32 per referenced key, and per instruction 9 bytes and
  one per account and data byte. Repeating an account costs one byte, not 32.
\<close>

theorem compiled_message_size:
  assumes "map_order ord" and "NewSanitizedMessage ord ixs payer bh = Inr m"
  shows "length (Message_Serialize m) =
    43 + 32 * card (referenced ixs payer) +
    (\<Sum>ix\<leftarrow>ixs. 9 + length (ix_Accounts ix) + length (ix_Data ix))"
  by (rule compiled_size [OF assms])

theorem compiled_message_size_witness:
  "length (Message_Serialize exampleMessage) =
    43 + 32 * card (referenced [exampleInstruction] (Some (pk 200))) + (9 + 5 + 1)"
  using compiled_message_size [OF map_order_rev compile_example] by (simp add: exampleInstruction_def)

end
