(* ===== verification/Arch_Pda.thy ===== *)
theory Arch_Pda
  imports Go_Sha256 Arch_Bip322
begin

text \<open>
  \<open>pda.go\<close>: program-derived addresses. The curve test belongs to btcec and is a field of the library
  record; the laws below need of it only that it rejects 32-byte strings, since compressed public keys
  have 33 bytes and uncompressed ones 65.
\<close>

section \<open>Operations\<close>

definition MaxSeeds :: nat where
  "MaxSeeds = 16"

definition MaxSeedLen :: nat where
  "MaxSeedLen = 32"

definition isOnCurve :: "('sk, 'pk, 'net, 'sh, 'vm) btclib \<Rightarrow> byte list \<Rightarrow> bool" where
  "isOnCurve L candidate =
     (case lib_btcec_ParsePubKey L candidate of Inl err \<Rightarrow> False | Inr _ \<Rightarrow> True)"

text \<open>The loop that checks the seeds: the error of the first one that is too long.\<close>

fun checkSeeds :: "nat \<Rightarrow> byte list list \<Rightarrow> go_error option" where
  "checkSeeds i [] = None"
| "checkSeeds i (seed # seeds) =
     (if length seed > MaxSeedLen
      then Some (Errorf ''seed %d too long: %d > %d''
             [FInt (int i), FInt (int (length seed)), FInt (int MaxSeedLen)])
      else checkSeeds (Suc i) seeds)"

definition CreateProgramAddress ::
  "('sk, 'pk, 'net, 'sh, 'vm) btclib \<Rightarrow> byte list list \<Rightarrow> Pubkey \<Rightarrow> Pubkey result" where
  "CreateProgramAddress L seeds programID =
     (if length seeds > MaxSeeds
      then Inl (Errorf ''too many seeds: %d > %d'' [FInt (int (length seeds)), FInt (int MaxSeeds)])
      else case checkSeeds 0 seeds of
             Some err \<Rightarrow> Inl err
           | None \<Rightarrow>
               (let h = sha256_New;
                    h = foldl hash_Write h seeds;
                    h = hash_Write h (bytes_of programID);
                    digest = hash_Sum h []
                in if isOnCurve L digest then Inl (Errorf ''invalid seeds: address is on curve'' [])
                   else Inr (copy_into digest)))"

text \<open>
  The loop over the bumps, from the given one down to 1; the caller starts it at 255. The counter is
  an \<open>int\<close> in the code and never leaves that range.
\<close>

fun findBump ::
  "('sk, 'pk, 'net, 'sh, 'vm) btclib \<Rightarrow> byte list list \<Rightarrow> Pubkey \<Rightarrow> nat \<Rightarrow> (Pubkey \<times> u8) result" where
  "findBump L seeds programID 0 =
     Inl (Errorf ''unable to find a viable program address bump seed'' [])"
| "findBump L seeds programID (Suc b) =
     (let bump = Suc b;
          seedsWithBump = seeds @ [[word_of_nat bump]]
      in case CreateProgramAddress L seedsWithBump programID of
           Inr pda \<Rightarrow> Inr (pda, word_of_nat bump)
         | Inl err \<Rightarrow> findBump L seeds programID b)"

definition FindProgramAddress ::
  "('sk, 'pk, 'net, 'sh, 'vm) btclib \<Rightarrow> byte list list \<Rightarrow> Pubkey \<Rightarrow> (Pubkey \<times> u8) result" where
  "FindProgramAddress L seeds programID = findBump L seeds programID 255"

definition AssociatedTokenAddress ::
  "('sk, 'pk, 'net, 'sh, 'vm) btclib \<Rightarrow> Pubkey \<Rightarrow> Pubkey \<Rightarrow> (Pubkey \<times> u8) result" where
  "AssociatedTokenAddress L wallet mint =
     FindProgramAddress L [bytes_of wallet, bytes_of TokenProgramID, bytes_of mint]
       AssociatedTokenProgramID"

section \<open>Derivation\<close>

definition seeds_ok :: "byte list list \<Rightarrow> bool" where
  "seeds_ok seeds \<longleftrightarrow> length seeds \<le> 16 \<and> list_all (\<lambda>s. length s \<le> 32) seeds"

lemma checkSeeds_None: "checkSeeds i seeds = None \<longleftrightarrow> list_all (\<lambda>s. length s \<le> 32) seeds"
  by (induction i seeds rule: checkSeeds.induct) (auto simp: MaxSeedLen_def)

lemma checkSeeds_first:
  "checkSeeds i seeds =
     map_option (\<lambda>(j, s). Errorf ''seed %d too long: %d > %d'' [FInt (int j), FInt (int (length s)), FInt 32])
       (find (\<lambda>(j, s). 32 < length s) (enumerate i seeds))"
  by (induction i seeds rule: checkSeeds.induct) (auto simp: MaxSeedLen_def)

lemma foldl_hash_Write: "foldl hash_Write h ps = h @ concat ps"
  by (induction ps arbitrary: h) (simp_all add: hash_Write_def)

lemma CreateProgramAddress_eq:
  "CreateProgramAddress L seeds programID =
     (if length seeds > 16
      then Inl (Errorf ''too many seeds: %d > %d'' [FInt (int (length seeds)), FInt 16])
      else case checkSeeds 0 seeds of
             Some err \<Rightarrow> Inl err
           | None \<Rightarrow>
               (let pda = Sum256 (concat seeds @ bytes_of programID)
                in if isOnCurve L (bytes_of pda) then Inl (Errorf ''invalid seeds: address is on curve'' [])
                   else Inr pda))"
  unfolding CreateProgramAddress_def Let_def
  by (simp add: MaxSeeds_def foldl_hash_Write sha256_New_def hash_Write_def hash_Sum_def
      split: option.split)

lemma CreateProgramAddress_Inr_iff:
  "CreateProgramAddress L seeds programID = Inr pda \<longleftrightarrow>
     seeds_ok seeds \<and> pda = Sum256 (concat seeds @ bytes_of programID) \<and> \<not> isOnCurve L (bytes_of pda)"
  unfolding CreateProgramAddress_eq seeds_ok_def checkSeeds_None [of 0, symmetric] Let_def
  by (auto split: option.splits)

text \<open>The search returns the largest bump whose derivation succeeds.\<close>

lemma findBump_Inr_iff:
  "findBump L seeds programID n = Inr (pda, b) \<longleftrightarrow>
     (\<exists>k. 0 < k \<and> k \<le> n \<and> b = word_of_nat k \<and>
        CreateProgramAddress L (seeds @ [[word_of_nat k]]) programID = Inr pda \<and>
        (\<forall>j. k < j \<and> j \<le> n \<longrightarrow>
           (\<exists>e. CreateProgramAddress L (seeds @ [[word_of_nat j]]) programID = Inl e)))"
proof -
  define C where "C k = CreateProgramAddress L (seeds @ [[word_of_nat k]]) programID" for k
  have step: "findBump L seeds programID (Suc n) =
      (case C (Suc n) of Inr p \<Rightarrow> Inr (p, word_of_nat (Suc n)) | Inl e \<Rightarrow> findBump L seeds programID n)" for n
    by (simp add: C_def Let_def)
  have "findBump L seeds programID n = Inr (pda, b) \<longleftrightarrow>
    (\<exists>k. 0 < k \<and> k \<le> n \<and> b = word_of_nat k \<and> C k = Inr pda \<and> (\<forall>j. k < j \<and> j \<le> n \<longrightarrow> (\<exists>e. C j = Inl e)))"
  proof (induction n)
    case (Suc n)
    show ?case
    proof (cases "C (Suc n)")
      case (Inl e)
      with Suc show ?thesis
        unfolding step by (simp del: of_nat_Suc) (metis Inr_Inl_False le_Suc_eq)
    next
      case (Inr p)
      have "p = pda \<and> word_of_nat (Suc n) = b"
        if k: "0 < k" "k \<le> Suc n" "b = word_of_nat k" "C k = Inr pda"
          "\<forall>j. k < j \<and> j \<le> Suc n \<longrightarrow> (\<exists>e. C j = Inl e)" for k
      proof (cases "k = Suc n")
        case False
        with k(2) have "k < Suc n \<and> Suc n \<le> Suc n" by simp
        with k(5) obtain e where "C (Suc n) = Inl e" by blast
        with Inr show ?thesis by simp
      qed (use k Inr in simp)
      moreover have "p = pda \<and> word_of_nat (Suc n) = b \<Longrightarrow>
          (\<exists>k. 0 < k \<and> k \<le> Suc n \<and> b = word_of_nat k \<and> C k = Inr pda \<and>
            (\<forall>j. k < j \<and> j \<le> Suc n \<longrightarrow> (\<exists>e. C j = Inl e)))"
        using Inr by (intro exI [of _ "Suc n"]) auto
      ultimately show ?thesis
        using Inr unfolding step by (simp del: of_nat_Suc) blast
    qed
  qed simp
  then show ?thesis by (simp only: C_def)
qed

definition parse_rejects_32 :: "('sk, 'pk, 'net, 'sh, 'vm) btclib \<Rightarrow> bool" where
  "parse_rejects_32 L \<longleftrightarrow> (\<forall>b. length b = 32 \<longrightarrow> (\<exists>e. lib_btcec_ParsePubKey L b = Inl e))"

lemma isOnCurve_digest: "parse_rejects_32 L \<Longrightarrow> \<not> isOnCurve L (bytes_of (k :: Pubkey))"
proof -
  assume "parse_rejects_32 L"
  then obtain e where "lib_btcec_ParsePubKey L (bytes_of k) = Inl e"
    unfolding parse_rejects_32_def by force
  then show ?thesis by (simp add: isOnCurve_def)
qed

lemma seeds_ok_snoc: "seeds_ok (seeds @ [[b]]) \<longleftrightarrow> length seeds \<le> 15 \<and> list_all (\<lambda>s. length s \<le> 32) seeds"
  by (auto simp: seeds_ok_def)

lemma CreateProgramAddress_Inl_bump:
  "\<not> (length seeds \<le> 15 \<and> list_all (\<lambda>s. length s \<le> 32) seeds) \<Longrightarrow>
     \<exists>e. CreateProgramAddress L (seeds @ [[b]]) programID = Inl e"
  using CreateProgramAddress_Inr_iff [of L "seeds @ [[b]]" programID] seeds_ok_snoc [of seeds b]
  by (cases "CreateProgramAddress L (seeds @ [[b]]) programID") auto

lemma findBump_fails:
  "\<not> (length seeds \<le> 15 \<and> list_all (\<lambda>s. length s \<le> 32) seeds) \<Longrightarrow>
     findBump L seeds programID n = Inl (Errorf ''unable to find a viable program address bump seed'' [])"
  by (induction n) (simp_all del: de_Morgan_conj add: Let_def split: sum.splits,
      metis CreateProgramAddress_Inl_bump Inr_Inl_False)

lemma FindProgramAddress_eq:
  assumes "parse_rejects_32 L"
  shows "FindProgramAddress L seeds programID =
    (if length seeds \<le> 15 \<and> list_all (\<lambda>s. length s \<le> 32) seeds
     then Inr (Sum256 (concat seeds @ [255] @ bytes_of programID), 255)
     else Inl (Errorf ''unable to find a viable program address bump seed'' []))"
proof (cases "length seeds \<le> 15 \<and> list_all (\<lambda>s. length s \<le> 32) seeds")
  case True
  then have "CreateProgramAddress L (seeds @ [[255]]) programID =
      Inr (Sum256 (concat seeds @ [255] @ bytes_of programID))"
    using isOnCurve_digest [OF assms]
    by (simp only: CreateProgramAddress_Inr_iff seeds_ok_snoc) simp
  moreover have "findBump L seeds programID 255 = findBump L seeds programID (Suc 254)"
    by simp
  ultimately show ?thesis
    using True unfolding FindProgramAddress_def by (simp only: findBump.simps) (simp add: Let_def)
next
  case False
  then show ?thesis
    unfolding FindProgramAddress_def by (simp only: findBump_fails [OF False] if_False)
qed

lemma toyLib_rejects_32: "parse_rejects_32 toyLib"
  by (simp add: parse_rejects_32_def toyLib_def)

section \<open>Properties\<close>

text \<open>
  C30 (equivalence). A program address is SHA-256 of the seeds, one after the other, and the program
  id. The derivation succeeds exactly for at most 16 seeds of at most 32 bytes each whose digest is not
  the encoding of a curve point; otherwise the error says which limit was exceeded, and for an
  over-long seed it gives the position and length of the first one.
\<close>

theorem CreateProgramAddress_cases:
  "CreateProgramAddress L seeds programID =
     (let pda = Sum256 (concat seeds @ bytes_of programID) in
      if length seeds > 16 then Inl (Errorf ''too many seeds: %d > %d'' [FInt (int (length seeds)), FInt 16])
      else case find (\<lambda>(i, s). 32 < length s) (enumerate 0 seeds) of
             Some (i, s) \<Rightarrow>
               Inl (Errorf ''seed %d too long: %d > %d'' [FInt (int i), FInt (int (length s)), FInt 32])
           | None \<Rightarrow>
               if isOnCurve L (bytes_of pda) then Inl (Errorf ''invalid seeds: address is on curve'' [])
               else Inr pda)"
  unfolding CreateProgramAddress_eq checkSeeds_first Let_def
  by (simp split: option.split prod.split)

text \<open>
  C28 (functional). The search returns an address and a bump exactly when the bump is not 0, the
  derivation with that bump appended as a one-byte seed gives that address, and the derivation fails
  for every larger bump. So the result is the first success counting down from 255, and deriving
  directly with the returned bump gives the same address.
\<close>

theorem FindProgramAddress_largest_bump:
  "FindProgramAddress L seeds programID = Inr (pda, b) \<longleftrightarrow>
     b \<noteq> 0 \<and> CreateProgramAddress L (seeds @ [[b]]) programID = Inr pda \<and>
     (\<forall>b'. b < b' \<longrightarrow> (\<exists>e. CreateProgramAddress L (seeds @ [[b']]) programID = Inl e))"
    (is "?l \<longleftrightarrow> ?r")
proof
  assume ?l
  then obtain k where k: "0 < k" "k \<le> 255" "b = word_of_nat k"
      "CreateProgramAddress L (seeds @ [[b]]) programID = Inr pda"
    and above: "\<And>j. k < j \<and> j \<le> 255 \<Longrightarrow>
      \<exists>e. CreateProgramAddress L (seeds @ [[word_of_nat j]]) programID = Inl e"
    unfolding FindProgramAddress_def findBump_Inr_iff by blast
  have "unat b = k"
    using k by (simp add: unat_word_of_nat8)
  then have "\<exists>e. CreateProgramAddress L (seeds @ [[b']]) programID = Inl e" if "b < b'" for b'
    using above [of "unat b'"] that unsigned_less [where 'a = nat, of b'] by (simp add: word_less_nat_alt)
  then show ?r
    using k \<open>unat b = k\<close> by auto
next
  assume ?r
  moreover have "b < word_of_nat j" if "unat b < j \<and> j \<le> 255" for j
    using that by (simp add: word_less_nat_alt unat_word_of_nat8)
  ultimately show ?l
    unfolding FindProgramAddress_def findBump_Inr_iff
    using unsigned_less [where 'a = nat, of b] by (intro exI [of _ "unat b"]) (auto simp: unat_gt_0)
qed

theorem FindProgramAddress_largest_bump_witness:
  "\<exists>pda. FindProgramAddress toyLib [[1, 2, 3]] TokenProgramID = Inr (pda, 255) \<and>
     CreateProgramAddress toyLib ([[1, 2, 3]] @ [[255]]) TokenProgramID = Inr pda"
proof -
  have "FindProgramAddress toyLib [[1, 2, 3]] TokenProgramID =
      Inr (Sum256 (concat [[1, 2, 3]] @ [255] @ bytes_of TokenProgramID), 255)"
    by (simp add: FindProgramAddress_eq [OF toyLib_rejects_32])
  with FindProgramAddress_largest_bump show ?thesis by fast
qed

text \<open>
  C29 (liveness). For a curve parser that accepts only 33- and 65-byte encodings, as the parser the SDK
  uses does, a 32-byte digest is never on the curve: with at most 15 seeds of at most 32 bytes each the
  search always succeeds, at once, with bump 255, and in every other case it tries all bumps and
  reports that none is viable. The on-curve rejection is never taken.
\<close>

theorem FindProgramAddress_always_255:
  assumes "parse_rejects_32 L"
  shows "FindProgramAddress L seeds programID =
    (if length seeds \<le> 15 \<and> (\<forall>s \<in> set seeds. length s \<le> 32)
     then Inr (Sum256 (concat seeds @ [255] @ bytes_of programID), 255)
     else Inl (Errorf ''unable to find a viable program address bump seed'' [])) \<and>
    CreateProgramAddress L seeds programID \<noteq> Inl (Errorf ''invalid seeds: address is on curve'' [])"
proof
  show "CreateProgramAddress L seeds programID \<noteq> Inl (Errorf ''invalid seeds: address is on curve'' [])"
    by (auto simp: CreateProgramAddress_eq checkSeeds_first isOnCurve_digest [OF assms] Let_def
        split: option.splits)
qed (simp only: FindProgramAddress_eq [OF assms] list_all_iff)

definition vaultSeeds :: "byte list list" where
  "vaultSeeds = [bytes_of_string ''vault'', [1, 2, 3]]"

lemma vault_bytes:
  "concat vaultSeeds @ [255] @ bytes_of TokenProgramID =
    [118, 97, 117, 108, 116, 1, 2, 3, 255, 6, 221, 246, 225, 185, 234, 132, 65, 44, 16, 184, 223,
     2, 28, 16, 15, 200, 135, 25, 7, 195, 9, 195, 53, 53, 222, 32, 156, 52, 23, 99, 191]"
  by (simp add: vaultSeeds_def TokenProgramID_def bytes_of_string_def)

lemma vault_words:
  "map sha_words (chunks 64 (sha_pad (concat vaultSeeds @ [255] @ bytes_of TokenProgramID))) =
    [[1986098540, 1946223107, 4278640118, 3787057796, 1093406904, 3741457424, 264800025,
     130222531, 892722720, 2620659555, 3212836864, 0, 0, 0, 0, 328]]"
  unfolding vault_bytes
  by (simp add: sha_words_eval)

lemma vault_state:
  "sha_block sha_init
    [1986098540, 1946223107, 4278640118, 3787057796, 1093406904, 3741457424, 264800025,
     130222531, 892722720, 2620659555, 3212836864, 0, 0, 0, 0, 328] =
    (3747338546, 4125819766, 2900146727, 444889593, 3996702895, 814440609, 3738623078, 1414451172)"
  by (simp add: sha_eval)

lemma vault_digest:
  "Sum256 (concat vaultSeeds @ [255] @ bytes_of TokenProgramID) =
    copy_into
     [223, 91, 217, 50, 245, 235, 3, 118, 172, 220, 186, 39, 26, 132, 121, 249, 238, 56, 216, 175,
     48, 139, 96, 161, 222, 214, 220, 102, 84, 78, 207, 228]"
  unfolding Sum256_def vault_words
  by (rule arg_cong [where f = copy_into]) (simp add: vault_state be_bytes32_def le_bytes32_def)

text \<open>The first fixture of the SDK's own tests, computed by the model's SHA-256.\<close>

theorem FindProgramAddress_always_255_witness:
  "FindProgramAddress toyLib vaultSeeds TokenProgramID =
     Inr (copy_into
         [223, 91, 217, 50, 245, 235, 3, 118, 172, 220, 186, 39, 26, 132, 121, 249, 238, 56, 216, 175,
         48, 139, 96, 161, 222, 214, 220, 102, 84, 78, 207, 228], 255)"
proof -
  have "length vaultSeeds \<le> 15 \<and> (\<forall>s \<in> set vaultSeeds. length s \<le> 32)"
    by (simp add: vaultSeeds_def)
  with FindProgramAddress_always_255 [OF toyLib_rejects_32, of vaultSeeds TokenProgramID]
  show ?thesis unfolding vault_digest by simp
qed

text \<open>
  C31 (safety). Only the concatenation of the seeds matters: seed lists within the limits that
  concatenate to the same bytes derive the same result, so the boundaries between seeds do not separate
  addresses. Conversely two addresses of the same program agree only when the seeds concatenate to the
  same bytes or SHA-256 collides.
\<close>

theorem CreateProgramAddress_seed_boundaries:
  assumes "CreateProgramAddress L seeds programID = Inr pda"
  shows "CreateProgramAddress L seeds' programID = Inr pda \<longleftrightarrow>
    length seeds' \<le> 16 \<and> (\<forall>s \<in> set seeds'. length s \<le> 32) \<and>
    (let x = concat seeds @ bytes_of programID; x' = concat seeds' @ bytes_of programID in
     concat seeds' = concat seeds \<or> (x \<noteq> x' \<and> Sum256 x = Sum256 x'))"
proof -
  have "pda = Sum256 (concat seeds @ bytes_of programID)" "\<not> isOnCurve L (bytes_of pda)"
    using assms unfolding CreateProgramAddress_Inr_iff by blast+
  then show ?thesis
    by (auto simp: CreateProgramAddress_Inr_iff seeds_ok_def list_all_iff Let_def)
qed

theorem CreateProgramAddress_seed_boundaries_witness:
  "CreateProgramAddress toyLib [[1, 2], [3]] TokenProgramID =
   CreateProgramAddress toyLib [[1], [2, 3]] TokenProgramID"
proof -
  have "CreateProgramAddress toyLib [[1, 2], [3]] TokenProgramID =
      Inr (Sum256 ([1, 2, 3] @ bytes_of TokenProgramID))"
    by (simp add: CreateProgramAddress_Inr_iff seeds_ok_def isOnCurve_digest [OF toyLib_rejects_32])
  note ok = this
  have "CreateProgramAddress toyLib [[1], [2, 3]] TokenProgramID =
      Inr (Sum256 ([1, 2, 3] @ bytes_of TokenProgramID))"
    by (subst CreateProgramAddress_seed_boundaries [OF ok]) simp
  with ok show ?thesis by simp
qed

text \<open>
  C32 (functional). The associated token address of any wallet and mint exists: it is SHA-256 of wallet,
  token program, mint, the byte 255 and the associated-token program, with bump 255. Two pairs share an
  address only if they are equal or SHA-256 collides.
\<close>

theorem AssociatedTokenAddress_total:
  assumes "parse_rejects_32 L"
  shows "AssociatedTokenAddress L wallet mint =
      Inr (Sum256 (bytes_of wallet @ bytes_of TokenProgramID @ bytes_of mint @ [255] @
        bytes_of AssociatedTokenProgramID), 255) \<and>
    (AssociatedTokenAddress L wallet mint = AssociatedTokenAddress L wallet' mint' \<longleftrightarrow>
     (let seed = (\<lambda>w m. bytes_of w @ bytes_of TokenProgramID @ bytes_of m @ [255] @
            bytes_of AssociatedTokenProgramID) in
      wallet = wallet' \<and> mint = mint' \<or>
      (seed wallet mint \<noteq> seed wallet' mint' \<and> Sum256 (seed wallet mint) = Sum256 (seed wallet' mint'))))"
proof -
  have ata: "AssociatedTokenAddress L w m =
      Inr (Sum256 (bytes_of w @ bytes_of TokenProgramID @ bytes_of m @ [255] @
        bytes_of AssociatedTokenProgramID), 255)" for w m
    by (simp add: AssociatedTokenAddress_def FindProgramAddress_eq [OF assms])
  show ?thesis
    unfolding ata Let_def by (auto simp: bytes_of_eq_iff)
qed

theorem AssociatedTokenAddress_total_witness:
  "AssociatedTokenAddress toyLib (copy_into (replicate 32 7)) (copy_into (replicate 32 9)) =
     Inr (Sum256 (replicate 32 7 @ bytes_of TokenProgramID @ replicate 32 9 @ [255] @
       bytes_of AssociatedTokenProgramID), 255)"
  using AssociatedTokenAddress_total
    [OF toyLib_rejects_32, of "copy_into (replicate 32 7)" "copy_into (replicate 32 9)"]
  by simp

end
