(* ===== verification/Go_Json.thy ===== *)
theory Go_Json
  imports Arch_Prelude
begin

text \<open>
  Go's \<open>encoding/json\<close> as the SDK uses it, on JSON values; the text layer is \<open>Go_Json_Text\<close>. Encoding produces a value; decoding stores a value into a Go variable, so a decoder takes the
  variable's present contents and returns the new ones: \<open>null\<close> leaves scalars, arrays and structs
  unchanged, object members are matched to struct fields by exact and otherwise by case-insensitive
  name, unknown members are skipped, and a mismatch is an error (which of several mismatches is reported
  is not tracked). Slices are lists; a nil slice
  and an empty one are not distinguished unless a definition says so.
\<close>

named_theorems json_simps \<open>decoding encoded values\<close>

section \<open>Values\<close>

datatype json =
    JNull
  | JBool bool
  | JInt int
  | JFrac string
  | JStr string
  | JArr "json list"
  | JObj "(string \<times> json) list"

text \<open>\<open>JFrac\<close> is a number literal with a fraction or an exponent, or \<open>-0\<close>, which Go reads as a signed
  integer but not as an unsigned one; no field of the SDK accepts a fraction.\<close>

definition typeError :: go_error where
  "typeError = External ''json: cannot unmarshal value into Go value''"

definition syntaxError :: go_error where
  "syntaxError = External ''json: syntax error''"

type_synonym 'a unmarshaler = "json \<Rightarrow> 'a \<Rightarrow> 'a result"

section \<open>Decoding into Go types\<close>

definition un_string :: "string unmarshaler" where
  "un_string v x = (case v of JStr s \<Rightarrow> Inr s | JNull \<Rightarrow> Inr x | _ \<Rightarrow> Inl typeError)"

definition un_bool :: "bool unmarshaler" where
  "un_bool v x = (case v of JBool b \<Rightarrow> Inr b | JNull \<Rightarrow> Inr x | _ \<Rightarrow> Inl typeError)"

text \<open>Unsigned integers of any width, and Go's \<open>int\<close> (64 bits).\<close>

definition un_uint :: "'a::len word unmarshaler" where
  "un_uint v x =
     (case v of
        JInt n \<Rightarrow> if 0 \<le> n \<and> n < 2 ^ LENGTH('a) then Inr (word_of_int n) else Inl typeError
      | JNull \<Rightarrow> Inr x
      | _ \<Rightarrow> Inl typeError)"

definition un_int :: "int unmarshaler" where
  "un_int v x =
     (case v of
        JInt n \<Rightarrow> if - (2 ^ 63) \<le> n \<and> n < 2 ^ 63 then Inr n else Inl typeError
      | JFrac s \<Rightarrow> if s = ''-0'' then Inr 0 else Inl typeError
      | JNull \<Rightarrow> Inr x
      | _ \<Rightarrow> Inl typeError)"

fun un_elems :: "'a \<Rightarrow> 'a unmarshaler \<Rightarrow> json list \<Rightarrow> 'a list result" where
  "un_elems z un [] = Inr []"
| "un_elems z un (v # vs) =
     (case un v z of
        Inl e \<Rightarrow> Inl e
      | Inr x \<Rightarrow> (case un_elems z un vs of Inl e \<Rightarrow> Inl e | Inr xs \<Rightarrow> Inr (x # xs)))"

definition un_slice :: "'a \<Rightarrow> 'a unmarshaler \<Rightarrow> 'a list unmarshaler" where
  "un_slice z un v xs =
     (case v of JArr vs \<Rightarrow> un_elems z un vs | JNull \<Rightarrow> Inr [] | _ \<Rightarrow> Inl typeError)"

text \<open>
  A byte array \<open>[N]byte\<close>: surplus elements of the JSON array are skipped unread, and missing ones leave
  zero bytes. A \<open>null\<close> element keeps the byte that is there.
\<close>

fun un_array_elems :: "json list \<Rightarrow> byte list \<Rightarrow> byte list result" where
  "un_array_elems vs [] = Inr []"
| "un_array_elems [] (b # bs) = Inr (0 # map (\<lambda>_. 0) bs)"
| "un_array_elems (v # vs) (b # bs) =
     (case un_uint v b of
        Inl e \<Rightarrow> Inl e
      | Inr x \<Rightarrow> (case un_array_elems vs bs of Inl e \<Rightarrow> Inl e | Inr xs \<Rightarrow> Inr (x # xs)))"

definition un_array :: "'n::len byte_array unmarshaler" where
  "un_array v a =
     (case v of
        JArr vs \<Rightarrow> (case un_array_elems vs (bytes_of a) of Inl e \<Rightarrow> Inl e | Inr bs \<Rightarrow> Inr (copy_into bs))
      | JNull \<Rightarrow> Inr a
      | _ \<Rightarrow> Inl typeError)"

text \<open>A pointer: \<open>null\<close> makes it nil, anything else is decoded into the target, allocated if nil.\<close>

definition un_ptr :: "'a \<Rightarrow> 'a unmarshaler \<Rightarrow> 'a option unmarshaler" where
  "un_ptr z un v p =
     (if v = JNull then Inr None
      else case un v (case p of None \<Rightarrow> z | Some x \<Rightarrow> x) of Inl e \<Rightarrow> Inl e | Inr x \<Rightarrow> Inr (Some x))"

text \<open>\<open>json.RawMessage\<close> keeps the value as it is, \<open>null\<close> included; \<open>None\<close> is the nil slice.\<close>

definition un_raw :: "json option unmarshaler" where
  "un_raw v x = Inr (Some v)"

section \<open>Structs\<close>

type_synonym 'r struct_fields = "(string \<times> ('r unmarshaler)) list"

definition fld :: "'a unmarshaler \<Rightarrow> ('r \<Rightarrow> 'a) \<Rightarrow> (('a \<Rightarrow> 'a) \<Rightarrow> 'r \<Rightarrow> 'r) \<Rightarrow> 'r unmarshaler" where
  "fld un get upd v r = (case un v (get r) of Inl e \<Rightarrow> Inl e | Inr x \<Rightarrow> Inr (upd (\<lambda>_. x) r))"

text \<open>Field names are compared ignoring the case of ASCII letters when no field matches exactly.\<close>

definition fold_char :: "char \<Rightarrow> char" where
  "fold_char c =
     (if 97 \<le> (of_char c :: nat) \<and> (of_char c :: nat) \<le> 122 then char_of ((of_char c :: nat) - 32) else c)"

definition lookup_field :: "'r struct_fields \<Rightarrow> string \<Rightarrow> 'r unmarshaler option" where
  "lookup_field fs k =
     (case map_of fs k of
        Some f \<Rightarrow> Some f
      | None \<Rightarrow> map_of (map (\<lambda>(n, f). (map fold_char n, f)) fs) (map fold_char k))"

fun un_members :: "'r struct_fields \<Rightarrow> (string \<times> json) list \<Rightarrow> 'r \<Rightarrow> 'r result" where
  "un_members fs [] r = Inr r"
| "un_members fs ((k, v) # ms) r =
     (case lookup_field fs k of
        None \<Rightarrow> un_members fs ms r
      | Some f \<Rightarrow> (case f v r of Inl e \<Rightarrow> Inl e | Inr r' \<Rightarrow> un_members fs ms r'))"

definition un_struct :: "'r struct_fields \<Rightarrow> 'r unmarshaler" where
  "un_struct fs v r =
     (case v of JObj ms \<Rightarrow> un_members fs ms r | JNull \<Rightarrow> Inr r | _ \<Rightarrow> Inl typeError)"

section \<open>Encoding Go types\<close>

definition mar_uint :: "'a::len word \<Rightarrow> json" where
  "mar_uint w = JInt (uint w)"

definition mar_array :: "'n::len byte_array \<Rightarrow> json" where
  "mar_array a = JArr (map mar_uint (bytes_of a))"

definition mar_slice :: "('a \<Rightarrow> json) \<Rightarrow> 'a list \<Rightarrow> json" where
  "mar_slice mar xs = JArr (map mar xs)"

definition mar_ptr :: "('a \<Rightarrow> json) \<Rightarrow> 'a option \<Rightarrow> json" where
  "mar_ptr mar p = (case p of None \<Rightarrow> JNull | Some x \<Rightarrow> mar x)"

text \<open>A field tagged \<open>omitempty\<close>: left out when it holds the empty value of its type.\<close>

definition omitempty :: "bool \<Rightarrow> string \<Rightarrow> json \<Rightarrow> (string \<times> json) list" where
  "omitempty isEmpty name v = (if isEmpty then [] else [(name, v)])"

definition omit_nil :: "string \<Rightarrow> ('a \<Rightarrow> json) \<Rightarrow> 'a option \<Rightarrow> (string \<times> json) list" where
  "omit_nil name mar p = omitempty (p = None) name (mar_ptr mar p)"

section \<open>The interface of a JSON type\<close>

text \<open>
  What the wire types of the SDK promise: decoding an encoded value into a fresh variable gives the
  value back, and no value is encoded as \<open>null\<close>. Slices of such a type and pointers to it inherit it.
\<close>

locale json_type =
  fixes mar :: "'a \<Rightarrow> json"
    and un :: "'a unmarshaler"
    and zero :: 'a
  assumes un_mar: "un (mar x) zero = Inr x"
    and mar_not_null: "mar x \<noteq> JNull"
begin

lemma mar_inject: "mar x = mar y \<Longrightarrow> x = y"
  by (metis sum.inject(2) un_mar)

lemma un_elems_mar: "un_elems zero un (map mar xs) = Inr xs"
  by (induction xs) (simp_all add: un_mar)

lemma un_slice_mar: "un_slice zero un (mar_slice mar xs) ys = Inr xs"
  by (simp add: un_slice_def mar_slice_def un_elems_mar)

lemma un_ptr_mar: "un_ptr zero un (mar_ptr mar p) None = Inr p"
  by (cases p) (simp_all add: un_ptr_def mar_ptr_def un_mar mar_not_null)

lemma un_ptr_mar_Some: "un_ptr zero un (mar x) None = Inr (Some x)"
  using un_ptr_mar [of "Some x"] by (simp add: mar_ptr_def)

lemma slice: "json_type (mar_slice mar) (un_slice zero un) []"
  by unfold_locales (simp_all add: un_slice_mar, simp add: mar_slice_def)

end

lemma un_uint_mar: "un_uint (mar_uint w) x = Inr w"
proof -
  have "uint w < 2 ^ LENGTH('a)" for w :: "'a::len word"
    by (rule unsigned_less)
  then show ?thesis by (simp add: un_uint_def mar_uint_def)
qed

lemma un_array_elems_mar:
  "length bs = length cs \<Longrightarrow> un_array_elems (map mar_uint bs) cs = Inr bs"
  by (induction bs cs rule: list_induct2) (simp_all add: un_uint_mar)

lemma un_array_mar: "un_array (mar_array a) b = Inr a"
  by (simp add: un_array_def mar_array_def un_array_elems_mar)

interpretation json_string: json_type JStr un_string "[]"
  by unfold_locales (simp_all add: un_string_def)

interpretation json_bool: json_type JBool un_bool False
  by unfold_locales (simp_all add: un_bool_def)

interpretation json_uint: json_type mar_uint un_uint 0
  by unfold_locales (simp_all add: un_uint_mar, simp add: mar_uint_def)

interpretation json_array: json_type mar_array un_array "copy_into []"
  by unfold_locales (simp_all add: un_array_mar, simp add: mar_array_def)

lemmas [json_simps] =
  un_uint_mar un_array_mar json_array.un_slice_mar json_array.un_ptr_mar
  json_array.un_ptr_mar_Some json_uint.un_ptr_mar_Some json_string.un_slice_mar

lemma un_scalar_simps [json_simps]:
  "un_string (JStr s) t = Inr s" "un_bool (JBool b) c = Inr b"
  by (simp_all add: un_string_def un_bool_def)

lemma un_members_append [json_simps]:
  "un_members fs (ms @ ns) r =
     (case un_members fs ms r of Inl e \<Rightarrow> Inl e | Inr r' \<Rightarrow> un_members fs ns r')"
  by (induction fs ms r rule: un_members.induct) (auto split: option.split sum.split)

lemma un_members_omitempty [json_simps]:
  "un_members fs (omitempty isEmpty n v) r =
     (if isEmpty then Inr r else un_members fs [(n, v)] r)"
  by (simp add: omitempty_def)

lemma un_members_omit_nil [json_simps]:
  "un_members fs (omit_nil n mar p) r =
     (case p of None \<Rightarrow> Inr r | Some x \<Rightarrow> un_members fs [(n, mar x)] r)"
  by (simp add: omit_nil_def omitempty_def mar_ptr_def split: option.split)

lemma lookup_field_exact [json_simps]: "map_of fs k = Some f \<Longrightarrow> lookup_field fs k = Some f"
  by (simp add: lookup_field_def)

lemmas un_struct_simps [json_simps] = un_struct_def fld_def

end
