(* ===== verification/Go_Json_Text.thy ===== *)
theory Go_Json_Text
  imports Go_Json Go_Hex
begin

text \<open>
  The text layer of \<open>encoding/json\<close>: how \<open>Marshal\<close> prints a value (compactly, strings escaped for HTML
  as well, bytes that are not UTF-8 replaced) and how \<open>Unmarshal\<close> reads one (white space, the number
  grammar, escapes with surrogate pairs, nesting up to 10000, nothing but white space after the value).
  Go strings are byte sequences, so a \<open>char\<close> is one byte of UTF-8. Reading back what was printed gives
  the value again, whenever its strings are UTF-8 and it is not nested too deeply.
\<close>

named_theorems json_text_simps \<open>encoded values have a text\<close>

section \<open>UTF-8\<close>

abbreviation ch_code :: "char \<Rightarrow> nat" where
  "ch_code c \<equiv> of_char c"

definition cont_in :: "nat \<Rightarrow> nat \<Rightarrow> char \<Rightarrow> bool" where
  "cont_in lo hi c \<longleftrightarrow> lo \<le> ch_code c \<and> ch_code c \<le> hi"

text \<open>\<open>utf8.DecodeRune\<close>: the number of bytes of the encoded rune at the front, 0 if there is none.\<close>

fun rune_size :: "string \<Rightarrow> nat" where
  "rune_size [] = 0"
| "rune_size (c # s) =
     (let n = ch_code c in
      if n < 128 then 1
      else if 194 \<le> n \<and> n \<le> 223 then
        (case s of c1 # _ \<Rightarrow> if cont_in 128 191 c1 then 2 else 0 | _ \<Rightarrow> 0)
      else if 224 \<le> n \<and> n \<le> 239 then
        (case s of c1 # c2 # _ \<Rightarrow>
           if cont_in (if n = 224 then 160 else 128) (if n = 237 then 159 else 191) c1 \<and> cont_in 128 191 c2
           then 3 else 0
         | _ \<Rightarrow> 0)
      else if 240 \<le> n \<and> n \<le> 244 then
        (case s of c1 # c2 # c3 # _ \<Rightarrow>
           if cont_in (if n = 240 then 144 else 128) (if n = 244 then 143 else 191) c1 \<and>
              cont_in 128 191 c2 \<and> cont_in 128 191 c3
           then 4 else 0
         | _ \<Rightarrow> 0)
      else 0)"

lemma rune_size_le: "rune_size s \<le> length s"
  by (cases s) (auto simp: Let_def split: list.splits)

declare rune_size.simps [simp del]

function valid_utf8 :: "string \<Rightarrow> bool" where
  "valid_utf8 [] = True"
| "valid_utf8 (c # s) =
     (if rune_size (c # s) = 0 then False else valid_utf8 (drop (rune_size (c # s)) (c # s)))"
  by pat_completeness auto
termination
  by (relation "measure length") simp_all

text \<open>\<open>utf8.AppendRune\<close>; surrogates and values beyond the last code point become U+FFFD.\<close>

definition replacement :: string where
  "replacement = [CHR 0xEF, CHR 0xBF, CHR 0xBD]"

definition encode_rune :: "nat \<Rightarrow> string" where
  "encode_rune r =
     (if r < 128 then [char_of r]
      else if r < 2048 then [char_of (192 + r div 64), char_of (128 + r mod 64)]
      else if 55296 \<le> r \<and> r < 57344 \<or> 1114112 \<le> r then replacement
      else if r < 65536
      then [char_of (224 + r div 4096), char_of (128 + r div 64 mod 64), char_of (128 + r mod 64)]
      else [char_of (240 + r div 262144), char_of (128 + r div 4096 mod 64),
            char_of (128 + r div 64 mod 64), char_of (128 + r mod 64)])"

section \<open>Printing\<close>

definition esc_char :: "char \<Rightarrow> string" where
  "esc_char c =
     (let n = ch_code c in
      if n = 34 \<or> n = 92 then [CHR 0x5C, c]
      else if n = 8 then [CHR 0x5C, CHR ''b'']
      else if n = 12 then [CHR 0x5C, CHR ''f'']
      else if n = 10 then [CHR 0x5C, CHR ''n'']
      else if n = 13 then [CHR 0x5C, CHR ''r'']
      else if n = 9 then [CHR 0x5C, CHR ''t'']
      else if n < 32 \<or> n = 60 \<or> n = 62 \<or> n = 38
      then [CHR 0x5C, CHR ''u'', CHR ''0'', CHR ''0'', hextable ! (n div 16), hextable ! (n mod 16)]
      else [c])"

function esc_string :: "string \<Rightarrow> string" where
  "esc_string [] = []"
| "esc_string (c # s) =
     (if ch_code c < 128 then esc_char c @ esc_string s
      else if rune_size (c # s) = 0 then CHR 0x5C # ''ufffd'' @ esc_string s
      else if take 3 (c # s) = [CHR 0xE2, CHR 0x80, CHR 0xA8] then CHR 0x5C # ''u2028'' @ esc_string (drop 2 s)
      else if take 3 (c # s) = [CHR 0xE2, CHR 0x80, CHR 0xA9] then CHR 0x5C # ''u2029'' @ esc_string (drop 2 s)
      else take (rune_size (c # s)) (c # s) @ esc_string (drop (rune_size (c # s)) (c # s)))"
  by pat_completeness auto
termination
  by (relation "measure length") simp_all

definition print_string :: "string \<Rightarrow> string" where
  "print_string s = CHR 0x22 # esc_string s @ [CHR 0x22]"

fun print_nat :: "nat \<Rightarrow> string" where
  "print_nat n = (if n < 10 then [char_of (48 + n)] else print_nat (n div 10) @ [char_of (48 + n mod 10)])"

declare print_nat.simps [simp del]

definition print_int :: "int \<Rightarrow> string" where
  "print_int i = (if i < 0 then CHR ''-'' # print_nat (nat (- i)) else print_nat (nat i))"

fun join_commas :: "string list \<Rightarrow> string" where
  "join_commas [] = []"
| "join_commas [x] = x"
| "join_commas (x # y # xs) = x @ CHR '','' # join_commas (y # xs)"

fun print_json :: "json \<Rightarrow> string" where
  "print_json JNull = ''null''"
| "print_json (JBool b) = (if b then ''true'' else ''false'')"
| "print_json (JInt n) = print_int n"
| "print_json (JFrac s) = s"
| "print_json (JStr s) = print_string s"
| "print_json (JArr vs) = CHR ''['' # join_commas (map print_json vs) @ '']''"
| "print_json (JObj ms) =
     CHR ''{'' # join_commas (map (\<lambda>(k, v). print_string k @ CHR '':'' # print_json v) ms) @ ''}''"

section \<open>Reading\<close>

definition is_digit :: "char \<Rightarrow> bool" where
  "is_digit c \<longleftrightarrow> 48 \<le> ch_code c \<and> ch_code c \<le> 57"

definition is_space :: "char \<Rightarrow> bool" where
  "is_space c \<longleftrightarrow> ch_code c \<in> {32, 9, 10, 13}"

abbreviation skip_ws :: "string \<Rightarrow> string" where
  "skip_ws \<equiv> dropWhile is_space"

definition nat_of_digits :: "string \<Rightarrow> nat" where
  "nat_of_digits = foldl (\<lambda>n c. 10 * n + (ch_code c - 48)) 0"

text \<open>The parts of a number literal; a fraction or exponent that has begun must have digits.\<close>

fun int_part :: "string \<Rightarrow> (string \<times> string) option" where
  "int_part [] = None"
| "int_part (c # s) =
     (if c = CHR ''0'' then Some ([c], s)
      else if is_digit c then Some (c # takeWhile is_digit s, dropWhile is_digit s)
      else None)"

definition digits1 :: "string \<Rightarrow> (string \<times> string) option" where
  "digits1 s =
     (case takeWhile is_digit s of [] \<Rightarrow> None | ds \<Rightarrow> Some (ds, dropWhile is_digit s))"

fun frac_part :: "string \<Rightarrow> (string \<times> string) option" where
  "frac_part [] = Some ([], [])"
| "frac_part (c # s) =
     (if c = CHR ''.'' then map_option (\<lambda>(ds, r). (c # ds, r)) (digits1 s) else Some ([], c # s))"

fun exp_sign :: "string \<Rightarrow> string \<times> string" where
  "exp_sign [] = ([], [])"
| "exp_sign (c # s) = (if c = CHR ''+'' \<or> c = CHR ''-'' then ([c], s) else ([], c # s))"

fun exp_part :: "string \<Rightarrow> (string \<times> string) option" where
  "exp_part [] = Some ([], [])"
| "exp_part (c # s) =
     (if c = CHR ''e'' \<or> c = CHR ''E''
      then (case exp_sign s of (sg, t) \<Rightarrow> map_option (\<lambda>(ds, r). (c # sg @ ds, r)) (digits1 t))
      else Some ([], c # s))"

definition unsigned_number :: "bool \<Rightarrow> string \<Rightarrow> (json \<times> string) option" where
  "unsigned_number neg s =
     (case int_part s of None \<Rightarrow> None | Some (ip, s) \<Rightarrow>
      (case frac_part s of None \<Rightarrow> None | Some (fp, s) \<Rightarrow>
       (case exp_part s of None \<Rightarrow> None | Some (ep, s) \<Rightarrow>
          Some (if fp = [] \<and> ep = [] \<and> \<not> (neg \<and> ip = ''0'')
                then JInt ((if neg then - 1 else 1) * int (nat_of_digits ip))
                else JFrac ((if neg then ''-'' else []) @ ip @ fp @ ep), s))))"

fun scan_number :: "string \<Rightarrow> (json \<times> string) option" where
  "scan_number [] = None"
| "scan_number (c # s) = (if c = CHR ''-'' then unsigned_number True s else unsigned_number False (c # s))"

text \<open>Four hex digits after \<open>\u\<close>, and a second such escape.\<close>

fun u4 :: "string \<Rightarrow> (nat \<times> string) option" where
  "u4 (a # b # c # d # s) =
     (case (fromHexChar a, fromHexChar b, fromHexChar c, fromHexChar d) of
        (Some a, Some b, Some c, Some d) \<Rightarrow> Some (((unat a * 16 + unat b) * 16 + unat c) * 16 + unat d, s)
      | _ \<Rightarrow> None)"
| "u4 _ = None"

fun u4_escape :: "string \<Rightarrow> (nat \<times> string) option" where
  "u4_escape (a # b # s) = (if a = CHR 0x5C \<and> b = CHR ''u'' then u4 s else None)"
| "u4_escape _ = None"

definition simple_escape :: "char \<Rightarrow> char option" where
  "simple_escape e =
     map_of [(CHR 0x22, CHR 0x22), (CHR 0x5C, CHR 0x5C), (CHR ''/'', CHR ''/''), (CHR ''b'', CHR 0x08),
       (CHR ''f'', CHR 0x0C), (CHR ''n'', CHR 0x0A), (CHR ''r'', CHR 0x0D), (CHR ''t'', CHR 0x09)] e"

text \<open>One character of a string literal after its opening quote: its bytes and the rest.\<close>

fun string_char :: "string \<Rightarrow> (string \<times> string) option" where
  "string_char [] = None"
| "string_char (c # s) =
     (if ch_code c < 32 then None
      else if c = CHR 0x5C then
        (case s of
           [] \<Rightarrow> None
         | e # t \<Rightarrow>
             if e = CHR ''u'' then
               (case u4 t of
                  None \<Rightarrow> None
                | Some (r, t) \<Rightarrow>
                    if 55296 \<le> r \<and> r < 57344 then
                      (case u4_escape t of
                         Some (r1, t1) \<Rightarrow>
                           if r < 56320 \<and> 56320 \<le> r1 \<and> r1 < 57344
                           then Some (encode_rune (65536 + (r - 55296) * 1024 + (r1 - 56320)), t1)
                           else Some (replacement, t)
                       | None \<Rightarrow> Some (replacement, t))
                    else Some (encode_rune r, t))
             else (case simple_escape e of None \<Rightarrow> None | Some x \<Rightarrow> Some ([x], t)))
      else if rune_size (c # s) = 0 then Some (replacement, s)
      else Some (take (rune_size (c # s)) (c # s), drop (rune_size (c # s)) (c # s)))"

lemma u4_shorter: "u4 s = Some (r, t) \<Longrightarrow> length t < length s"
  by (cases s rule: u4.cases) (auto split: option.splits)

lemma u4_escape_shorter: "u4_escape s = Some (r, t) \<Longrightarrow> length t < length s"
  by (cases s rule: u4_escape.cases) (auto split: if_splits dest: u4_shorter)

lemma string_char_shorter: "string_char s = Some (x, t) \<Longrightarrow> length t < length s"
  by (cases s) (auto split: if_splits list.splits option.splits prod.splits dest!: u4_shorter u4_escape_shorter)

declare string_char.simps [simp del]

function read_string :: "string \<Rightarrow> (string \<times> string) option" where
  "read_string s =
     (case s of
        [] \<Rightarrow> None
      | c # t \<Rightarrow>
          if c = CHR 0x22 then Some ([], t)
          else (case string_char s of
                  None \<Rightarrow> None
                | Some (x, r) \<Rightarrow> map_option (\<lambda>(y, q). (x @ y, q)) (read_string r)))"
  by pat_completeness auto
termination
  by (relation "measure length") (auto dest: string_char_shorter)

declare read_string.simps [simp del]

lemma read_string_shorter: "read_string s = Some (x, t) \<Longrightarrow> length t < length s"
proof (induction s arbitrary: x rule: read_string.induct)
  case (1 s)
  then show ?case
    by (subst (asm) (2) read_string.simps)
      (fastforce split: list.splits if_splits option.splits dest: string_char_shorter)
qed

lemma skip_ws_shorter: "skip_ws s = c # t \<Longrightarrow> length t < length s"
  by (metis length_dropWhile_le length_Cons not_less_eq le_imp_less_Suc Suc_le_lessD)

text \<open>
  Values, elements after \<open>[\<close> and members after \<open>{\<close>, with the nesting that is still allowed. The length
  tests only serve termination: what is left after a value is always shorter.
\<close>

function parse_value :: "nat \<Rightarrow> string \<Rightarrow> (json \<times> string) option"
  and parse_elems :: "nat \<Rightarrow> string \<Rightarrow> (json list \<times> string) option"
  and parse_members :: "nat \<Rightarrow> string \<Rightarrow> ((string \<times> json) list \<times> string) option"
where
  "parse_value d s =
     (case skip_ws s of
        [] \<Rightarrow> None
      | c # t \<Rightarrow>
          if c = CHR ''['' then
            (if d = 0 then None
             else case skip_ws t of
                    [] \<Rightarrow> None
                  | c' # t' \<Rightarrow>
                      if c' = CHR '']'' then Some (JArr [], t')
                      else map_option (\<lambda>(vs, r). (JArr vs, r)) (parse_elems (d - 1) t))
          else if c = CHR ''{'' then
            (if d = 0 then None
             else case skip_ws t of
                    [] \<Rightarrow> None
                  | c' # t' \<Rightarrow>
                      if c' = CHR ''}'' then Some (JObj [], t')
                      else map_option (\<lambda>(ms, r). (JObj ms, r)) (parse_members (d - 1) t))
          else if c = CHR 0x22 then map_option (\<lambda>(x, r). (JStr x, r)) (read_string t)
          else if take 4 (c # t) = ''null'' then Some (JNull, drop 3 t)
          else if take 4 (c # t) = ''true'' then Some (JBool True, drop 3 t)
          else if take 5 (c # t) = ''false'' then Some (JBool False, drop 4 t)
          else scan_number (c # t))"
| "parse_elems d s =
     (case parse_value d s of
        None \<Rightarrow> None
      | Some (v, r) \<Rightarrow>
          if length r < length s then
            (case skip_ws r of
               [] \<Rightarrow> None
             | c # t \<Rightarrow>
                 if c = CHR '']'' then Some ([v], t)
                 else if c = CHR '','' then map_option (\<lambda>(vs, q). (v # vs, q)) (parse_elems d t)
                 else None)
          else None)"
| "parse_members d s =
     (case skip_ws s of
        [] \<Rightarrow> None
      | c # t \<Rightarrow>
          if c \<noteq> CHR 0x22 then None
          else (case read_string t of
                  None \<Rightarrow> None
                | Some (k, r) \<Rightarrow>
                    (case skip_ws r of
                       [] \<Rightarrow> None
                     | c' # t' \<Rightarrow>
                         if c' \<noteq> CHR '':'' then None
                         else (case parse_value d t' of
                                 None \<Rightarrow> None
                               | Some (v, q) \<Rightarrow>
                                   if length q < length t' then
                                     (case skip_ws q of
                                        [] \<Rightarrow> None
                                      | c'' # t'' \<Rightarrow>
                                          if c'' = CHR ''}'' then Some ([(k, v)], t'')
                                          else if c'' = CHR '',''
                                          then map_option (\<lambda>(ms, q'). ((k, v) # ms, q')) (parse_members d t'')
                                          else None)
                                   else None))))"
  by pat_completeness auto

termination
  by (relation "measure (\<lambda>x. case x of Inl (d, s) \<Rightarrow> 2 * length s
    | Inr (Inl (d, s)) \<Rightarrow> 2 * length s + 1 | Inr (Inr (d, s)) \<Rightarrow> 2 * length s + 1)")
    (auto dest!: skip_ws_shorter read_string_shorter)

declare parse_value.simps [simp del] parse_elems.simps [simp del] parse_members.simps [simp del]

definition maxNestingDepth :: nat where
  "maxNestingDepth = 10000"

definition parse_json :: "string \<Rightarrow> json option" where
  "parse_json s =
     (case parse_value maxNestingDepth s of
        None \<Rightarrow> None
      | Some (v, r) \<Rightarrow> if skip_ws r = [] then Some v else None)"

section \<open>What is left is shorter\<close>

lemma digits1_shorter: "digits1 s = Some (ds, r) \<Longrightarrow> length r < length s"
  by (cases s) (auto simp: digits1_def split: if_splits intro: le_imp_less_Suc length_dropWhile_le)

lemma int_part_shorter: "int_part s = Some (ds, r) \<Longrightarrow> length r < length s"
  by (cases s) (auto split: if_splits intro: le_imp_less_Suc length_dropWhile_le)

lemma frac_part_le: "frac_part s = Some (ds, r) \<Longrightarrow> length r \<le> length s"
  by (cases s) (auto split: if_splits dest: digits1_shorter)

lemma exp_sign_le: "exp_sign s = (sg, r) \<Longrightarrow> length r \<le> length s"
  by (cases s) (auto split: if_splits)

lemma exp_part_le: "exp_part s = Some (ds, r) \<Longrightarrow> length r \<le> length s"
  by (cases s) (auto split: if_splits prod.splits dest!: digits1_shorter exp_sign_le)

lemma unsigned_number_shorter: "unsigned_number neg s = Some (v, r) \<Longrightarrow> length r < length s"
  by (auto simp: unsigned_number_def split: option.splits
      dest!: int_part_shorter frac_part_le exp_part_le)

lemma scan_number_shorter: "scan_number s = Some (v, r) \<Longrightarrow> length r < length s"
  by (cases s) (auto split: if_splits dest: unsigned_number_shorter)

lemma parse_value_shorter:
  assumes pv: "parse_value d s = Some (v, r)" and st: "skip_ws s = c # t"
    and elems: "\<And>x y vs r. c = CHR ''['' \<Longrightarrow> d \<noteq> 0 \<Longrightarrow> skip_ws t = x # y \<Longrightarrow> x \<noteq> CHR '']'' \<Longrightarrow>
      parse_elems (d - 1) t = Some (vs, r) \<Longrightarrow> length r < length t"
    and mems: "\<And>x y ms r. c \<noteq> CHR ''['' \<Longrightarrow> c = CHR ''{'' \<Longrightarrow> d \<noteq> 0 \<Longrightarrow> skip_ws t = x # y \<Longrightarrow> x \<noteq> CHR ''}'' \<Longrightarrow>
      parse_members (d - 1) t = Some (ms, r) \<Longrightarrow> length r < length t"
  shows "length r < length s"
proof -
  consider "c = CHR ''[''" | "c = CHR ''{''" | "c \<notin> {CHR ''['', CHR ''{''}" by blast
  then show ?thesis
  proof cases
    case 1
    obtain x y a where d: "d \<noteq> 0" and xy: "skip_ws t = x # y"
      and r: "x = CHR '']'' \<and> r = y \<or> x \<noteq> CHR '']'' \<and> parse_elems (d - 1) t = Some (a, r)"
      using pv 1 by (subst (asm) parse_value.simps) (auto simp: st split: list.splits if_splits)
    show ?thesis
      using r skip_ws_shorter [OF st] skip_ws_shorter [OF xy] elems [OF 1 d xy] by fastforce
  next
    case 2
    then have ne: "c \<noteq> CHR ''[''" by simp
    obtain x y a where d: "d \<noteq> 0" and xy: "skip_ws t = x # y"
      and r: "x = CHR ''}'' \<and> r = y \<or> x \<noteq> CHR ''}'' \<and> parse_members (d - 1) t = Some (a, r)"
      using pv 2 by (subst (asm) parse_value.simps) (auto simp: st split: list.splits if_splits)
    show ?thesis
      using r skip_ws_shorter [OF st] skip_ws_shorter [OF xy] mems [OF ne 2 d xy] by fastforce
  next
    case 3
    then show ?thesis
      using pv skip_ws_shorter [OF st]
      by (subst (asm) parse_value.simps)
        (auto simp: st simp del: scan_number.simps split: if_splits dest!: read_string_shorter scan_number_shorter)
  qed
qed

lemma parse_shorter:
  "parse_value d s = Some (v, r) \<Longrightarrow> length r < length s"
  "parse_elems d s = Some (vs, r) \<Longrightarrow> length r < length s"
  "parse_members d s = Some (ms, r) \<Longrightarrow> length r < length s"
proof (induction d s and d s and d s arbitrary: v r and vs r and ms r
    rule: parse_value_parse_elems_parse_members.induct)
  case (1 d s)
  obtain c t where st: "skip_ws s = c # t"
    using 1(3) by (subst (asm) parse_value.simps) (auto split: list.splits)
  show ?case
    by (rule parse_value_shorter [OF 1(3) st 1(1,2) [OF st]])
next
  case (2 d s)
  obtain v q c t where pv: "parse_value d s = Some (v, q)" and q: "length q < length s" and ct: "skip_ws q = c # t"
    and r: "c = CHR '']'' \<and> r = t \<or> c \<noteq> CHR '']'' \<and> c = CHR '','' \<and> (\<exists>vs. parse_elems d t = Some (vs, r))"
    using 2(3) by (subst (asm) parse_elems.simps) (auto split: option.splits list.splits if_splits)
  have "length r < length t" if "c \<noteq> CHR '']''"
    using that r 2(2) [OF pv refl q ct that] by blast
  then show ?case
    using r q skip_ws_shorter [OF ct] by fastforce
next
  case (3 d s)
  obtain k t p t' v q c u where t: "skip_ws s = CHR 0x22 # t" and k: "read_string t = Some (k, p)"
    and t': "skip_ws p = CHR '':'' # t'" and pv: "parse_value d t' = Some (v, q)" and q: "length q < length t'"
    and u: "skip_ws q = c # u"
    and r: "c = CHR ''}'' \<and> r = u \<or> c \<noteq> CHR ''}'' \<and> c = CHR '','' \<and> (\<exists>ms. parse_members d u = Some (ms, r))"
    using 3(3) by (subst (asm) parse_members.simps) (auto split: option.splits list.splits if_splits)
  have "length r < length u" if "c \<noteq> CHR ''}''"
    using that r 3(2) [OF t _ k refl t' _ pv refl q u that] by blast
  then show ?case
    using r q skip_ws_shorter [OF t] read_string_shorter [OF k] skip_ws_shorter [OF t'] skip_ws_shorter [OF u]
    by fastforce
qed

section \<open>Reading printed strings\<close>

lemma rune_size_cases:
  assumes "rune_size s \<noteq> 0"
  obtains (one) c t where "s = c # t" "ch_code c < 128"
    | (two) c c1 t where "s = c # c1 # t" "194 \<le> ch_code c" "ch_code c \<le> 223" "cont_in 128 191 c1"
    | (three) c c1 c2 t where "s = c # c1 # c2 # t" "224 \<le> ch_code c" "ch_code c \<le> 239"
        "cont_in (if ch_code c = 224 then 160 else 128) (if ch_code c = 237 then 159 else 191) c1"
        "cont_in 128 191 c2"
    | (four) c c1 c2 c3 t where "s = c # c1 # c2 # c3 # t" "240 \<le> ch_code c" "ch_code c \<le> 244"
        "cont_in (if ch_code c = 240 then 144 else 128) (if ch_code c = 244 then 143 else 191) c1"
        "cont_in 128 191 c2" "cont_in 128 191 c3"
proof -
  obtain c t where s: "s = c # t"
    using assms by (cases s) (auto simp: rune_size.simps)
  consider "ch_code c < 128" | "194 \<le> ch_code c" "ch_code c \<le> 223" | "224 \<le> ch_code c" "ch_code c \<le> 239"
    | "240 \<le> ch_code c" "ch_code c \<le> 244"
    using assms by (auto simp: s rune_size.simps Let_def split: if_splits)
  then show thesis
  proof cases
    case 1
    with s show ?thesis by (rule one)
  next
    case 2
    then show ?thesis
      using assms two s by (simp add: rune_size.simps Let_def split: list.splits if_split_asm)
  next
    case 3
    then show ?thesis
      using assms three s by (simp add: rune_size.simps Let_def split: list.splits if_split_asm)
  next
    case 4
    then show ?thesis
      using assms four s by (simp add: rune_size.simps Let_def split: list.splits if_split_asm)
  qed
qed

lemma rune_size_append: "rune_size s \<noteq> 0 \<Longrightarrow> rune_size (take (rune_size s) s @ r) = rune_size s"
  by (erule rune_size_cases) (simp_all add: rune_size.simps)

lemma rune_size_ascii: "ch_code c < 128 \<Longrightarrow> rune_size (c # s) = 1"
  by (simp add: rune_size.simps)

lemma string_char_rune:
  assumes "rune_size s \<noteq> 0" and "32 \<le> ch_code (hd s)" and "hd s \<noteq> CHR 0x5C"
  shows "string_char (take (rune_size s) s @ r) = Some (take (rune_size s) s, r)"
proof -
  obtain c t where s: "s = c # t" and n: "0 < rune_size s"
    using assms(1) by (cases s) (auto simp: rune_size.simps)
  then obtain u where u: "take (rune_size s) s = c # u"
    by (cases "rune_size s") auto
  have "rune_size (c # u @ r) = length (c # u)"
    using rune_size_append [OF assms(1), of r] rune_size_le [of s] u by (metis append_Cons length_take min.absorb2)
  then show ?thesis
    using assms(2,3) s u by (simp add: string_char.simps)
qed

lemma u4_hex:
  assumes "n < 128"
  shows "u4 (CHR ''0'' # CHR ''0'' # hextable ! (n div 16) # hextable ! (n mod 16) # r) = Some (n, r)"
proof -
  have "fromHexChar (CHR ''0'') = Some 0"
    by (simp add: fromHexChar_def)
  moreover have "n div 16 < 16" "n mod 16 < 16"
    using assms by auto
  ultimately show ?thesis
    by (simp add: fromHexChar_hextable unat_of_nat)
qed

lemma string_char_esc:
  assumes "ch_code c < 128"
  shows "string_char (esc_char c @ r) = Some ([c], r)"
proof -
  have u: "string_char (CHR 0x5C # CHR ''u'' # CHR ''0'' # CHR ''0'' # hextable ! (ch_code c div 16) #
      hextable ! (ch_code c mod 16) # r) = Some ([c], r)"
    using u4_hex [OF assms, of r] assms by (simp add: string_char.simps encode_rune_def)
  have lit: "ch_code c = ch_code d \<Longrightarrow> c = d" for d
    by (simp only: of_char_eq_iff)
  show ?thesis
  proof (cases "c \<in> {CHR 0x22, CHR 0x5C, CHR 0x08, CHR 0x0C, CHR 0x0A, CHR 0x0D, CHR 0x09}")
    case True
    then show ?thesis
      by (auto simp: esc_char_def string_char.simps simple_escape_def)
  next
    case False
    then show ?thesis
      using u assms lit [of "CHR 0x22"] lit [of "CHR 0x5C"] lit [of "CHR 0x08"] lit [of "CHR 0x0C"]
        lit [of "CHR 0x0A"] lit [of "CHR 0x0D"] lit [of "CHR 0x09"]
      by (auto simp: esc_char_def Let_def string_char.simps rune_size_ascii)
  qed
qed

lemma esc_char_head: "ch_code c < 128 \<Longrightarrow> \<exists>x t. esc_char c = x # t \<and> x \<noteq> CHR 0x22"
  by (auto simp: esc_char_def Let_def)

lemma read_string_step:
  assumes "string_char s = Some (x, t)" and "hd s \<noteq> CHR 0x22"
  shows "read_string s = map_option (\<lambda>(y, q). (x @ y, q)) (read_string t)"
  using assms by (subst read_string.simps) (auto simp: string_char.simps split: list.split)

lemma char_of_eq: "char_of n = c \<longleftrightarrow> n mod 256 = ch_code c"
  by (metis of_char_eq_iff of_char_of)

lemma separator_escapes:
  "string_char (CHR 0x5C # CHR ''u'' # CHR ''2'' # CHR ''0'' # CHR ''2'' # CHR ''8'' # t) =
     Some ([CHR 0xE2, CHR 0x80, CHR 0xA8], t)"
  "string_char (CHR 0x5C # CHR ''u'' # CHR ''2'' # CHR ''0'' # CHR ''2'' # CHR ''9'' # t) =
     Some ([CHR 0xE2, CHR 0x80, CHR 0xA9], t)"
proof -
  have "encode_rune 8232 = [CHR 0xE2, CHR 0x80, CHR 0xA8]" "encode_rune 8233 = [CHR 0xE2, CHR 0x80, CHR 0xA9]"
    by (simp_all add: encode_rune_def char_of_eq)
  then show
    "string_char (CHR 0x5C # CHR ''u'' # CHR ''2'' # CHR ''0'' # CHR ''2'' # CHR ''8'' # t) =
       Some ([CHR 0xE2, CHR 0x80, CHR 0xA8], t)"
    "string_char (CHR 0x5C # CHR ''u'' # CHR ''2'' # CHR ''0'' # CHR ''2'' # CHR ''9'' # t) =
       Some ([CHR 0xE2, CHR 0x80, CHR 0xA9], t)"
    by (simp_all add: string_char.simps fromHexChar_def)
qed

lemma read_string_esc:
  "valid_utf8 s \<Longrightarrow> read_string (esc_string s @ CHR 0x22 # r) = Some (s, r)"
proof (induction s rule: esc_string.induct)
  case 1
  then show ?case by (simp add: read_string.simps)
next
  case (2 c s)
  let ?s = "c # s" and ?n = "rune_size (c # s)" and ?q = "CHR 0x22 # r"
  have n: "?n \<noteq> 0" and valid: "valid_utf8 (drop ?n ?s)"
    using 2(6) by (auto split: if_splits)
  show ?case
  proof (cases "ch_code c < 128")
    case True
    obtain x t where "esc_char c = x # t" "x \<noteq> CHR 0x22"
      using esc_char_head [OF True] by blast
    then show ?thesis
      using 2(1) True valid read_string_step [OF string_char_esc [OF True, of "esc_string s @ ?q"]]
      by (simp add: rune_size_ascii)
  next
    case False
    note F = False
    show ?thesis
    proof (cases "take 3 ?s \<in> {[CHR 0xE2, CHR 0x80, CHR 0xA8], [CHR 0xE2, CHR 0x80, CHR 0xA9]}")
      case True
      then obtain z t where s: "c = CHR 0xE2" "s = CHR 0x80 # z # t" and z: "z \<in> {CHR 0xA8, CHR 0xA9}"
        by (cases s; cases "tl s") auto
      then have "?n = 3" by (auto simp: rune_size.simps cont_in_def)
      then show ?thesis
        using 2(3,4) F n valid s z separator_escapes [of "esc_string t @ ?q"]
        by (auto simp: read_string_step)
    next
      case False
      have "hd ?s \<noteq> CHR 0x5C" "32 \<le> ch_code (hd ?s)" "hd (take ?n ?s @ w) \<noteq> CHR 0x22" for w
        using F n by (auto simp: take_Cons split: nat.split)
      then show ?thesis
        using 2(5) False F n valid
          read_string_step [OF string_char_rune [OF n, of "esc_string (drop ?n ?s) @ ?q"]]
        by auto
    qed
  qed
qed

section \<open>Reading printed numbers\<close>

text \<open>Where a number literal ends: no character follows that could continue it.\<close>

definition number_end :: "string \<Rightarrow> bool" where
  "number_end r \<longleftrightarrow> (case r of [] \<Rightarrow> True | c # _ \<Rightarrow> \<not> is_digit c \<and> c \<notin> {CHR ''.'', CHR ''e'', CHR ''E''})"

lemma print_nat_digits: "print_nat n \<noteq> [] \<and> list_all is_digit (print_nat n) \<and> (hd (print_nat n) = CHR ''0'' \<longleftrightarrow> n = 0)"
proof (induction n rule: print_nat.induct)
  case (1 n)
  have digit: "is_digit (char_of (48 + k))" "char_of (48 + k) = CHR ''0'' \<longleftrightarrow> k = 0" if "k < 10" for k :: nat
    using that by (simp_all add: is_digit_def char_of_eq)
  show ?case
    using 1 digit [of n] digit [of "n mod 10"] by (subst (1 2 3) print_nat.simps) auto
qed

lemma nat_of_digits_append: "nat_of_digits (s @ [c]) = 10 * nat_of_digits s + (ch_code c - 48)"
  by (simp add: nat_of_digits_def)

lemma nat_of_digits_print: "nat_of_digits (print_nat n) = n"
proof (induction n rule: print_nat.induct)
  case (1 n)
  then show ?case
    by (subst print_nat.simps) (simp add: nat_of_digits_append, simp add: nat_of_digits_def)
qed

lemma takeWhile_digits:
  assumes "list_all is_digit ds" and "number_end r"
  shows "takeWhile is_digit (ds @ r) = ds" and "dropWhile is_digit (ds @ r) = r"
  using assms by (induction ds) (auto simp: number_end_def split: list.splits)

lemma parts_at_end: "number_end r \<Longrightarrow> frac_part r = Some ([], r)" "number_end r \<Longrightarrow> exp_part r = Some ([], r)"
  by (cases r; auto simp: number_end_def)+

lemma scan_print_int: "number_end r \<Longrightarrow> scan_number (print_int i @ r) = Some (JInt i, r)"
proof -
  assume r: "number_end r"
  have ip: "int_part (print_nat n @ r) = Some (print_nat n, r)" for n
  proof (cases "n = 0")
    case True
    then show ?thesis by (simp add: print_nat.simps char_of_eq)
  next
    case False
    then obtain c t where "print_nat n = c # t" "is_digit c" "list_all is_digit t" "c \<noteq> CHR ''0''"
      using print_nat_digits [of n] by (cases "print_nat n") auto
    then show ?thesis using takeWhile_digits [OF _ r] by simp
  qed
  have zero: "print_nat n = ''0'' \<longleftrightarrow> n = 0" for n
  proof
    assume "print_nat n = ''0''"
    then have "nat_of_digits (print_nat n) = 0" by (simp add: nat_of_digits_def)
    then show "n = 0" by (simp only: nat_of_digits_print)
  qed (simp add: print_nat.simps char_of_eq)
  have un: "unsigned_number neg (print_nat n @ r) = Some (JInt ((if neg then - 1 else 1) * int n), r)"
    if "neg \<Longrightarrow> n \<noteq> 0" for neg n
    using that by (auto simp: unsigned_number_def ip parts_at_end [OF r] nat_of_digits_print zero)
  show ?thesis
  proof (cases "i < 0")
    case True
    then show ?thesis using un [of True "nat (- i)"] by (simp add: print_int_def)
  next
    case False
    obtain c t where ct: "print_nat (nat i) = c # t" "is_digit c"
      using print_nat_digits [of "nat i"] by (cases "print_nat (nat i)") auto
    then have "c \<noteq> CHR ''-''" by (auto simp: is_digit_def)
    with ct False show ?thesis using un [of False "nat i"] by (simp add: print_int_def)
  qed
qed

text \<open>A literal that is read completely is also read in front of anything that ends a number.\<close>

lemma digits_append:
  "number_end r \<Longrightarrow> takeWhile is_digit (s @ r) = takeWhile is_digit s \<and> dropWhile is_digit (s @ r) = dropWhile is_digit s @ r"
  by (induction s) (auto simp: number_end_def split: list.splits)

lemma digits1_append: "digits1 s = Some (ds, t) \<Longrightarrow> number_end r \<Longrightarrow> digits1 (s @ r) = Some (ds, t @ r)"
  by (auto simp: digits1_def digits_append split: list.splits)

lemma int_part_append: "int_part s = Some (ds, t) \<Longrightarrow> number_end r \<Longrightarrow> int_part (s @ r) = Some (ds, t @ r)"
  by (cases s) (auto simp: digits_append split: if_splits)

lemma frac_part_append: "frac_part s = Some (ds, t) \<Longrightarrow> number_end r \<Longrightarrow> frac_part (s @ r) = Some (ds, t @ r)"
  by (cases s) (auto simp: parts_at_end split: if_splits dest: digits1_append)

lemma exp_part_append: "exp_part s = Some (ds, t) \<Longrightarrow> number_end r \<Longrightarrow> exp_part (s @ r) = Some (ds, t @ r)"
proof (cases s)
  case (Cons c u)
  assume a: "exp_part s = Some (ds, t)" and r: "number_end r"
  have "exp_sign (u @ r) = (case exp_sign u of (sg, w) \<Rightarrow> (sg, w @ r))" if "u \<noteq> []"
    using that by (cases u) auto
  moreover have "u \<noteq> [] \<or> c \<notin> {CHR ''e'', CHR ''E''}"
    using a by (auto simp: Cons digits1_def)
  ultimately show ?thesis
    using a digits1_append [OF _ r] by (auto simp: Cons split: if_splits prod.splits)
qed (simp add: parts_at_end)

lemma scan_number_append:
  assumes "scan_number s = Some (v, t)" and "number_end r"
  shows "scan_number (s @ r) = Some (v, t @ r)"
proof -
  have un: "unsigned_number neg (s @ r) = Some (v, t @ r)" if "unsigned_number neg s = Some (v, t)" for neg s
    using that int_part_append [OF _ assms(2)] frac_part_append [OF _ assms(2)] exp_part_append [OF _ assms(2)]
    by (fastforce simp: unsigned_number_def split: option.splits)
  show ?thesis
    using assms(1) un [of True "tl s"] un [of False s] by (cases s) (auto split: if_splits)
qed

lemma scan_number_head:
  assumes "scan_number s = Some (v, t)"
  obtains c u where "s = c # u" "c = CHR ''-'' \<or> is_digit c"
proof (cases s)
  case Nil
  with assms show ?thesis by simp
next
  case (Cons c u)
  then have "c = CHR ''-'' \<or> is_digit c"
    using assms by (auto simp: unsigned_number_def is_digit_def split: if_splits option.splits)
  with Cons show ?thesis by (rule that)
qed

section \<open>Reading printed values\<close>

definition frac_literal :: "string \<Rightarrow> bool" where
  "frac_literal s \<longleftrightarrow> scan_number s = Some (JFrac s, [])"

text \<open>Values with a text of their own: UTF-8 strings, literals that are numbers, nested at most \<open>d\<close> deep.\<close>

fun json_ok :: "nat \<Rightarrow> json \<Rightarrow> bool" where
  "json_ok d (JFrac s) = frac_literal s"
| "json_ok d (JStr s) = valid_utf8 s"
| "json_ok d (JArr vs) = (0 < d \<and> list_all (json_ok (d - 1)) vs)"
| "json_ok d (JObj ms) = (0 < d \<and> list_all (\<lambda>(k, v). valid_utf8 k \<and> json_ok (d - 1) v) ms)"
| "json_ok d _ = True"

lemma print_head:
  assumes "json_ok d v"
  obtains c t where "print_json v = c # t" "\<not> is_space c" "c \<notin> {CHR '']'', CHR ''}''}"
proof (cases v)
  case (JInt n)
  obtain c t where "print_int n = c # t" "c = CHR ''-'' \<or> is_digit c"
    using scan_print_int [of "[]" n] by (auto simp: number_end_def elim: scan_number_head)
  with JInt show ?thesis by (intro that) (auto simp: is_space_def is_digit_def)
next
  case (JFrac s)
  with assms obtain c t where "s = c # t" "c = CHR ''-'' \<or> is_digit c"
    by (auto simp: frac_literal_def elim: scan_number_head)
  with JFrac show ?thesis by (intro that) (auto simp: is_space_def is_digit_def)
next
  case (JBool b)
  then show ?thesis using that by (cases b) (auto simp: is_space_def)
qed (use that in \<open>auto simp: is_space_def print_string_def\<close>)

lemma parse_number:
  assumes "scan_number s = Some (v, t)"
  shows "parse_value d s = Some (v, t)"
proof -
  obtain c u where "s = c # u" "c = CHR ''-'' \<or> is_digit c"
    using assms by (rule scan_number_head)
  then have "\<not> is_space c" "c \<notin> {CHR ''['', CHR ''{'', CHR 0x22, CHR ''n'', CHR ''t'', CHR ''f''}" and s: "s = c # u"
    by (auto simp: is_space_def is_digit_def)
  then show ?thesis
    using assms by (subst parse_value.simps) (simp add: s)
qed

lemma parse_string_literal: "valid_utf8 s \<Longrightarrow> parse_value d (print_string s @ r) = Some (JStr s, r)"
  by (subst parse_value.simps) (simp add: print_string_def is_space_def read_string_esc)

lemma number_end_delims [simp]: "number_end []" "number_end (CHR '','' # r)" "number_end (CHR '']'' # r)" "number_end (CHR ''}'' # r)"
  by (simp_all add: number_end_def is_digit_def)

lemma parse_elems_print:
  assumes "vs \<noteq> []" and "\<And>v r. v \<in> set vs \<Longrightarrow> number_end r \<Longrightarrow> parse_value d (print_json v @ r) = Some (v, r)"
  shows "parse_elems d (join_commas (map print_json vs) @ CHR '']'' # r) = Some (vs, r)"
  using assms
proof (induction vs rule: list_nonempty_induct)
  case (single v)
  then show ?case
    using parse_shorter(1) [of d "print_json v @ CHR '']'' # r" v "CHR '']'' # r"]
    by (subst parse_elems.simps) (simp add: is_space_def)
next
  case (cons v vs)
  let ?r = "CHR '','' # join_commas (map print_json vs) @ CHR '']'' # r"
  have "parse_value d (print_json v @ ?r) = Some (v, ?r)"
    by (rule cons.prems) simp_all
  then show ?case
    using cons parse_shorter(1) [of d "print_json v @ ?r" v ?r]
    by (cases vs) (simp_all add: parse_elems.simps [of d "print_json v @ w" for w] is_space_def)
qed

abbreviation print_member :: "string \<times> json \<Rightarrow> string" where
  "print_member \<equiv> \<lambda>(k, v). print_string k @ CHR '':'' # print_json v"

lemma parse_member:
  assumes "valid_utf8 k" and "parse_value d t = Some (v, c # q)" and "\<not> is_space c"
  shows "parse_members d (print_string k @ CHR '':'' # t) =
     (if c = CHR ''}'' then Some ([(k, v)], q)
      else if c = CHR '','' then map_option (\<lambda>(ms, q'). ((k, v) # ms, q')) (parse_members d q)
      else None)"
  using assms parse_shorter(1) [OF assms(2)]
  by (subst parse_members.simps) (simp add: print_string_def is_space_def read_string_esc)

lemma parse_members_print:
  assumes "ms \<noteq> []" and "list_all (\<lambda>(k, v). valid_utf8 k) ms"
    and "\<And>k v r. (k, v) \<in> set ms \<Longrightarrow> number_end r \<Longrightarrow> parse_value d (print_json v @ r) = Some (v, r)"
  shows "parse_members d (join_commas (map print_member ms) @ CHR ''}'' # r) = Some (ms, r)"
  using assms
proof (induction ms rule: list_nonempty_induct)
  case (single m)
  then show ?case
    by (cases m) (simp add: parse_member is_space_def)
next
  case (cons m ms)
  obtain k v where m: "m = (k, v)" by fastforce
  let ?r = "join_commas (map print_member ms) @ CHR ''}'' # r"
  have "parse_value d (print_json v @ CHR '','' # ?r) = Some (v, CHR '','' # ?r)"
    by (rule cons.prems(2) [of k]) (simp_all add: m)
  then show ?case
    using cons.IH cons.prems cons.hyps
    by (cases ms) (simp_all add: m parse_member is_space_def, blast)
qed

lemma parse_array_print:
  assumes ok: "json_ok d (JArr vs)"
    and IH: "\<And>v d r. v \<in> set vs \<Longrightarrow> json_ok d v \<Longrightarrow> number_end r \<Longrightarrow> parse_value d (print_json v @ r) = Some (v, r)"
  shows "parse_value d (print_json (JArr vs) @ r) = Some (JArr vs, r)"
proof (cases vs)
  case Nil
  then show ?thesis using ok by (subst parse_value.simps) (simp add: is_space_def)
next
  case (Cons v ws)
  obtain c t where head: "print_json v = c # t" "\<not> is_space c" "c \<noteq> CHR '']''"
    using ok Cons print_head [of "d - 1" v] by (metis insertCI json_ok.simps(3) list.pred_inject(2))
  have join: "\<exists>u. join_commas (map print_json vs) @ CHR '']'' # r = c # u"
    using head Cons by (cases ws) auto
  have elems: "parse_elems (d - 1) (join_commas (map print_json vs) @ CHR '']'' # r) = Some (vs, r)"
    using ok IH Cons by (intro parse_elems_print) (auto simp: list_all_iff)
  show ?thesis
    using ok head join elems
    by (subst parse_value.simps) (auto simp: is_space_def [of "CHR ''[''"])
qed

lemma parse_object_print:
  assumes ok: "json_ok d (JObj ms)"
    and IH: "\<And>k v d r. (k, v) \<in> set ms \<Longrightarrow> json_ok d v \<Longrightarrow> number_end r \<Longrightarrow>
      parse_value d (print_json v @ r) = Some (v, r)"
  shows "parse_value d (print_json (JObj ms) @ r) = Some (JObj ms, r)"
proof (cases ms)
  case Nil
  then show ?thesis using ok by (subst parse_value.simps) (simp add: is_space_def)
next
  case (Cons m ws)
  have join: "\<exists>u. join_commas (map print_member ms) @ CHR ''}'' # r = CHR 0x22 # u"
    using Cons by (cases ws; cases m) (auto simp: print_string_def)
  have mems: "parse_members (d - 1) (join_commas (map print_member ms) @ CHR ''}'' # r) = Some (ms, r)"
    using ok IH Cons by (intro parse_members_print) (fastforce simp: list_all_iff)+
  show ?thesis
    using ok join mems
    by (subst parse_value.simps) (auto simp: is_space_def)
qed

theorem parse_print: "json_ok d v \<Longrightarrow> number_end r \<Longrightarrow> parse_value d (print_json v @ r) = Some (v, r)"
proof (induction v arbitrary: d r)
  case JNull
  then show ?case by (subst parse_value.simps) (simp add: is_space_def)
next
  case (JBool b)
  then show ?case by (subst parse_value.simps) (simp add: is_space_def)
next
  case (JInt n)
  then show ?case by (simp add: parse_number scan_print_int)
next
  case (JFrac s)
  then show ?case using scan_number_append [of s "JFrac s" "[]" r] by (simp add: frac_literal_def parse_number)
next
  case (JStr s)
  then show ?case by (simp add: parse_string_literal)
next
  case (JArr vs)
  then show ?case by (intro parse_array_print)
next
  case (JObj ms)
  then show ?case by (intro parse_object_print) auto
qed

corollary parse_json_print: "json_ok maxNestingDepth v \<Longrightarrow> parse_json (print_json v) = Some v"
  using parse_print [of maxNestingDepth v "[]"] by (simp add: parse_json_def)

section \<open>Documents as bytes\<close>

definition string_of_bytes :: "byte list \<Rightarrow> string" where
  "string_of_bytes bs = map (\<lambda>b. char_of (unat b)) bs"

definition json_Marshal :: "json \<Rightarrow> byte list" where
  "json_Marshal v = bytes_of_string (print_json v)"

text \<open>The whole text is checked before anything is stored, so a syntax error comes before any other.\<close>

definition json_Unmarshal :: "'a unmarshaler \<Rightarrow> byte list \<Rightarrow> 'a \<Rightarrow> 'a result" where
  "json_Unmarshal un data x =
     (case parse_json (string_of_bytes data) of None \<Rightarrow> Inl syntaxError | Some v \<Rightarrow> un v x)"

abbreviation json_text :: "json \<Rightarrow> bool" where
  "json_text v \<equiv> json_ok maxNestingDepth v"

lemma string_of_bytes_of_string [simp]: "string_of_bytes (bytes_of_string s) = s"
proof -
  have "unat (of_char c :: byte) = ch_code c" for c
    by (subst of_nat_of_char [symmetric]) (simp add: unat_of_nat)
  then show ?thesis
    by (simp add: string_of_bytes_def bytes_of_string_def comp_def)
qed

lemma json_Unmarshal_Marshal: "json_text v \<Longrightarrow> json_Unmarshal un (json_Marshal v) x = un v x"
  by (simp add: json_Unmarshal_def json_Marshal_def parse_json_print)

lemma json_Unmarshal_empty [simp]: "json_Unmarshal un [] x = Inl syntaxError"
  by (simp add: json_Unmarshal_def parse_json_def string_of_bytes_def parse_value.simps)

section \<open>Encoded values have a text\<close>

lemma valid_utf8_ascii [simp]: "ch_code c < 128 \<Longrightarrow> valid_utf8 (c # s) = valid_utf8 s"
  by (subst valid_utf8.simps) (simp add: rune_size_ascii)

declare valid_utf8.simps(2) [simp del]

lemma json_ok_encoders [json_text_simps]:
  "json_ok d (mar_uint w)"
  "json_ok d (mar_array a) \<longleftrightarrow> 0 < d"
  "json_ok d (mar_slice mar xs) \<longleftrightarrow> 0 < d \<and> list_all (\<lambda>x. json_ok (d - 1) (mar x)) xs"
  "json_ok d (mar_ptr mar p) \<longleftrightarrow> (case p of None \<Rightarrow> True | Some x \<Rightarrow> json_ok d (mar x))"
  "list_all P (omitempty isEmpty n v) \<longleftrightarrow> isEmpty \<or> P (n, v)"
  "list_all P (omit_nil n mar p) \<longleftrightarrow> (case p of None \<Rightarrow> True | Some x \<Rightarrow> P (n, mar x))"
  by (auto simp: mar_uint_def mar_array_def mar_slice_def mar_ptr_def omitempty_def omit_nil_def list_all_iff
      split: option.split)

section \<open>The interface of a type on the wire\<close>

text \<open>
  A JSON type whose values, as far as their strings are UTF-8, have a text: the text nests at most
  \<open>depth\<close> levels. Such values survive the way over bytes, and so do slices of them and of pointers to
  them.
\<close>

locale json_wire = json_type +
  fixes ok :: "'a \<Rightarrow> bool"
    and depth :: nat
  assumes wire_text: "ok x \<Longrightarrow> depth \<le> d \<Longrightarrow> json_ok d (mar x)"
    and shallow: "depth < 100"
begin

lemma depth_ok: "depth < maxNestingDepth" "depth \<le> maxNestingDepth - 1"
  using shallow by (simp_all add: maxNestingDepth_def)

lemma bytes_roundtrip: "ok x \<Longrightarrow> json_Unmarshal un (json_Marshal (mar x)) zero = Inr x"
  using wire_text [of x maxNestingDepth] depth_ok by (simp add: json_Unmarshal_Marshal un_mar)

lemma slice_text: "list_all ok xs \<Longrightarrow> Suc depth \<le> d \<Longrightarrow> json_ok d (mar_slice mar xs)"
  using wire_text by (auto simp: json_text_simps list_all_iff)

lemma slice_ptr_text: "list_all (pred_option ok) ps \<Longrightarrow> Suc depth \<le> d \<Longrightarrow> json_ok d (mar_slice (mar_ptr mar) ps)"
  using wire_text by (fastforce simp: json_text_simps list_all_iff split: option.split)

lemma slice_ptr: "json_type (mar_slice (mar_ptr mar)) (un_slice None (un_ptr zero un)) []"
proof unfold_locales
  have "un_elems None (un_ptr zero un) (map (mar_ptr mar) xs) = Inr xs" for xs
    by (induction xs) (simp_all add: un_ptr_mar)
  then show "un_slice None (un_ptr zero un) (mar_slice (mar_ptr mar) xs) [] = Inr xs" for xs
    by (simp add: un_slice_def mar_slice_def)
qed (simp add: mar_slice_def)

end

interpretation wire_string: json_wire JStr un_string "[]" valid_utf8 0
  by unfold_locales simp_all

interpretation wire_bool: json_wire JBool un_bool False "\<lambda>_. True" 0
  by unfold_locales simp_all

interpretation wire_uint: json_wire mar_uint un_uint 0 "\<lambda>_. True" 0
  by unfold_locales (simp_all add: json_text_simps)

end
