(* ===== verification/Arch_Json.thy ===== *)
theory Arch_Json
  imports Go_Json_Text Arch_Transaction
begin

text \<open>
  The JSON side of the wire types: \<open>bytes.go\<close> (byte slices as arrays of numbers) and the structs of
  \<open>types.go\<close> and \<open>message.go\<close> with their JSON tags. For each struct \<open>S\<close> there is its encoder \<open>mar_S\<close>,
  its zero value \<open>zero_S\<close> and its decoder \<open>un_S\<close>, and an interpretation of the interface of a JSON type.
  Strings are byte sequences; only UTF-8 ones survive being printed.
\<close>

section \<open>Bytes\<close>

type_synonym Bytes = "byte list"

definition Bytes_MarshalJSON :: "Bytes \<Rightarrow> json" where
  "Bytes_MarshalJSON b =
     (if b = [] then JArr []
      else (let nums = map (\<lambda>v. ucast v :: 16 word) b in mar_slice mar_uint nums))"

fun bytesInRange :: "nat \<Rightarrow> int list \<Rightarrow> byte list \<Rightarrow> byte list result" where
  "bytesInRange i [] out = Inr out"
| "bytesInRange i (v # nums) out =
     (if v < 0 \<or> v > 255
      then Inl (Errorf ''byte array element %d out of range: %d'' [FInt (int i), FInt v])
      else bytesInRange (Suc i) nums (out @ [word_of_int v]))"

text \<open>The receiver is assigned only on success.\<close>

definition Bytes_UnmarshalJSON :: "Bytes unmarshaler" where
  "Bytes_UnmarshalJSON data b =
     (case un_slice 0 un_int data [] of
        Inl err \<Rightarrow> Inl err
      | Inr nums \<Rightarrow> bytesInRange 0 nums [])"

lemma Bytes_MarshalJSON_eq: "Bytes_MarshalJSON b = JArr (map (\<lambda>v. JInt (uint v)) b)"
proof -
  have "take_bit 16 (uint v) = uint v" for v :: byte
    using unsigned_less [where 'a = int, of v] by (simp add: take_bit_int_eq_self)
  then show ?thesis
    by (simp add: Bytes_MarshalJSON_def mar_slice_def mar_uint_def comp_def unsigned_ucast_eq)
qed

lemma un_elems_ints:
  "(\<And>n. n \<in> set ns \<Longrightarrow> - (2 ^ 63) \<le> n \<and> n < 2 ^ 63) \<Longrightarrow> un_elems 0 un_int (map JInt ns) = Inr ns"
  by (induction ns) (simp_all add: un_int_def)

lemma bytesInRange_map:
  "bytesInRange i (map uint (bs :: byte list)) out = Inr (out @ bs)"
proof (induction bs arbitrary: i out)
  case (Cons b bs)
  have "uint b < 256" using unsigned_less [where 'a = int, of b] by simp
  with Cons show ?case by simp
qed simp

lemma Bytes_roundtrip [json_simps]: "Bytes_UnmarshalJSON (Bytes_MarshalJSON b) c = Inr b"
proof -
  have "- (2 ^ 63) \<le> uint v \<and> uint v < 2 ^ 63" for v :: byte
    using unsigned_less [where 'a = int, of v] by (simp add: order.trans [of _ 0])
  then have "un_elems 0 un_int (map JInt (map uint b)) = Inr (map uint b)"
    by (intro un_elems_ints) auto
  then show ?thesis
    using bytesInRange_map [of 0 b "[]"]
    by (simp add: Bytes_UnmarshalJSON_def Bytes_MarshalJSON_eq un_slice_def comp_def)
qed

interpretation json_Bytes: json_type Bytes_MarshalJSON Bytes_UnmarshalJSON "[]"
  by unfold_locales (simp_all add: json_simps, simp add: Bytes_MarshalJSON_eq)

section \<open>Structs\<close>

definition mar_AccountMeta :: "AccountMeta \<Rightarrow> json" where
  "mar_AccountMeta x = JObj
     ([(''pubkey'', mar_array (am_Pubkey x)),
      (''is_signer'', JBool (am_IsSigner x)),
      (''is_writable'', JBool (am_IsWritable x))])"

definition zero_AccountMeta :: AccountMeta where
  "zero_AccountMeta = \<lparr>am_Pubkey = copy_into [],
     am_IsSigner = False,
     am_IsWritable = False\<rparr>"

definition un_AccountMeta :: "AccountMeta unmarshaler" where
  "un_AccountMeta = un_struct
     [(''pubkey'', fld un_array am_Pubkey am_Pubkey_update),
      (''is_signer'', fld un_bool am_IsSigner am_IsSigner_update),
      (''is_writable'', fld un_bool am_IsWritable am_IsWritable_update)]"

interpretation json_AccountMeta:
  json_type mar_AccountMeta un_AccountMeta zero_AccountMeta
  by unfold_locales
    (simp_all add: mar_AccountMeta_def un_AccountMeta_def zero_AccountMeta_def json_simps
      split: option.splits)

lemmas [json_simps] =
  json_AccountMeta.un_mar json_AccountMeta.un_slice_mar json_AccountMeta.un_ptr_mar_Some

definition mar_MessageHeader :: "MessageHeader \<Rightarrow> json" where
  "mar_MessageHeader x = JObj
     ([(''num_required_signatures'', mar_uint (hd_NumRequiredSignatures x)),
      (''num_readonly_signed_accounts'', mar_uint (hd_NumReadonlySignedAccounts x)),
      (''num_readonly_unsigned_accounts'', mar_uint (hd_NumReadonlyUnsignedAccounts x))])"

definition zero_MessageHeader :: MessageHeader where
  "zero_MessageHeader = \<lparr>hd_NumRequiredSignatures = 0,
     hd_NumReadonlySignedAccounts = 0,
     hd_NumReadonlyUnsignedAccounts = 0\<rparr>"

definition un_MessageHeader :: "MessageHeader unmarshaler" where
  "un_MessageHeader = un_struct
     [(''num_required_signatures'', fld un_uint hd_NumRequiredSignatures hd_NumRequiredSignatures_update),
      (''num_readonly_signed_accounts'', fld un_uint hd_NumReadonlySignedAccounts hd_NumReadonlySignedAccounts_update),
      (''num_readonly_unsigned_accounts'', fld un_uint hd_NumReadonlyUnsignedAccounts hd_NumReadonlyUnsignedAccounts_update)]"

interpretation json_MessageHeader:
  json_type mar_MessageHeader un_MessageHeader zero_MessageHeader
  by unfold_locales
    (simp_all add: mar_MessageHeader_def un_MessageHeader_def zero_MessageHeader_def json_simps
      split: option.splits)

lemmas [json_simps] =
  json_MessageHeader.un_mar json_MessageHeader.un_slice_mar json_MessageHeader.un_ptr_mar_Some

definition mar_SanitizedInstruction :: "SanitizedInstruction \<Rightarrow> json" where
  "mar_SanitizedInstruction x = JObj
     ([(''program_id_index'', mar_uint (si_ProgramIDIndex x)),
      (''accounts'', Bytes_MarshalJSON (si_Accounts x)),
      (''data'', Bytes_MarshalJSON (si_Data x))])"

definition zero_SanitizedInstruction :: SanitizedInstruction where
  "zero_SanitizedInstruction = \<lparr>si_ProgramIDIndex = 0,
     si_Accounts = [],
     si_Data = []\<rparr>"

definition un_SanitizedInstruction :: "SanitizedInstruction unmarshaler" where
  "un_SanitizedInstruction = un_struct
     [(''program_id_index'', fld un_uint si_ProgramIDIndex si_ProgramIDIndex_update),
      (''accounts'', fld Bytes_UnmarshalJSON si_Accounts si_Accounts_update),
      (''data'', fld Bytes_UnmarshalJSON si_Data si_Data_update)]"

interpretation json_SanitizedInstruction:
  json_type mar_SanitizedInstruction un_SanitizedInstruction zero_SanitizedInstruction
  by unfold_locales
    (simp_all add: mar_SanitizedInstruction_def un_SanitizedInstruction_def zero_SanitizedInstruction_def json_simps
      split: option.splits)

lemmas [json_simps] =
  json_SanitizedInstruction.un_mar json_SanitizedInstruction.un_slice_mar json_SanitizedInstruction.un_ptr_mar_Some

definition mar_SanitizedMessage :: "SanitizedMessage \<Rightarrow> json" where
  "mar_SanitizedMessage x = JObj
     ([(''header'', mar_MessageHeader (msg_Header x)),
      (''account_keys'', mar_slice mar_array (msg_AccountKeys x)),
      (''recent_blockhash'', mar_array (msg_RecentBlockhash x)),
      (''instructions'', mar_slice mar_SanitizedInstruction (msg_Instructions x))])"

definition zero_SanitizedMessage :: SanitizedMessage where
  "zero_SanitizedMessage = \<lparr>msg_Header = zero_MessageHeader,
     msg_AccountKeys = [],
     msg_RecentBlockhash = copy_into [],
     msg_Instructions = []\<rparr>"

definition un_SanitizedMessage :: "SanitizedMessage unmarshaler" where
  "un_SanitizedMessage = un_struct
     [(''header'', fld un_MessageHeader msg_Header msg_Header_update),
      (''account_keys'', fld (un_slice (copy_into []) un_array) msg_AccountKeys msg_AccountKeys_update),
      (''recent_blockhash'', fld un_array msg_RecentBlockhash msg_RecentBlockhash_update),
      (''instructions'', fld (un_slice zero_SanitizedInstruction un_SanitizedInstruction) msg_Instructions msg_Instructions_update)]"

interpretation json_SanitizedMessage:
  json_type mar_SanitizedMessage un_SanitizedMessage zero_SanitizedMessage
  by unfold_locales
    (simp_all add: mar_SanitizedMessage_def un_SanitizedMessage_def zero_SanitizedMessage_def json_simps
      split: option.splits)

lemmas [json_simps] =
  json_SanitizedMessage.un_mar json_SanitizedMessage.un_slice_mar json_SanitizedMessage.un_ptr_mar_Some

definition mar_RuntimeTransaction :: "RuntimeTransaction \<Rightarrow> json" where
  "mar_RuntimeTransaction x = JObj
     ([(''version'', mar_uint (rt_Version x)),
      (''signatures'', mar_slice mar_array (rt_Signatures x)),
      (''message'', mar_SanitizedMessage (rt_Message x))])"

definition zero_RuntimeTransaction :: RuntimeTransaction where
  "zero_RuntimeTransaction = \<lparr>rt_Version = 0,
     rt_Signatures = [],
     rt_Message = zero_SanitizedMessage\<rparr>"

definition un_RuntimeTransaction :: "RuntimeTransaction unmarshaler" where
  "un_RuntimeTransaction = un_struct
     [(''version'', fld un_uint rt_Version rt_Version_update),
      (''signatures'', fld (un_slice (copy_into []) un_array) rt_Signatures rt_Signatures_update),
      (''message'', fld un_SanitizedMessage rt_Message rt_Message_update)]"

interpretation json_RuntimeTransaction:
  json_type mar_RuntimeTransaction un_RuntimeTransaction zero_RuntimeTransaction
  by unfold_locales
    (simp_all add: mar_RuntimeTransaction_def un_RuntimeTransaction_def zero_RuntimeTransaction_def json_simps
      split: option.splits)

lemmas [json_simps] =
  json_RuntimeTransaction.un_mar json_RuntimeTransaction.un_slice_mar json_RuntimeTransaction.un_ptr_mar_Some

record AccountInfo =
  ai_Lamports :: u64
  ai_Owner :: Pubkey
  ai_Data :: "byte list"
  ai_Utxo :: string
  ai_IsExecutable :: bool

definition mar_AccountInfo :: "AccountInfo \<Rightarrow> json" where
  "mar_AccountInfo x = JObj
     ([(''lamports'', mar_uint (ai_Lamports x)),
      (''owner'', mar_array (ai_Owner x)),
      (''data'', Bytes_MarshalJSON (ai_Data x)),
      (''utxo'', JStr (ai_Utxo x)),
      (''is_executable'', JBool (ai_IsExecutable x))])"

definition zero_AccountInfo :: AccountInfo where
  "zero_AccountInfo = \<lparr>ai_Lamports = 0,
     ai_Owner = copy_into [],
     ai_Data = [],
     ai_Utxo = [],
     ai_IsExecutable = False\<rparr>"

definition un_AccountInfo :: "AccountInfo unmarshaler" where
  "un_AccountInfo = un_struct
     [(''lamports'', fld un_uint ai_Lamports ai_Lamports_update),
      (''owner'', fld un_array ai_Owner ai_Owner_update),
      (''data'', fld Bytes_UnmarshalJSON ai_Data ai_Data_update),
      (''utxo'', fld un_string ai_Utxo ai_Utxo_update),
      (''is_executable'', fld un_bool ai_IsExecutable ai_IsExecutable_update)]"

interpretation json_AccountInfo:
  json_type mar_AccountInfo un_AccountInfo zero_AccountInfo
  by unfold_locales
    (simp_all add: mar_AccountInfo_def un_AccountInfo_def zero_AccountInfo_def json_simps
      split: option.splits)

lemmas [json_simps] =
  json_AccountInfo.un_mar json_AccountInfo.un_slice_mar json_AccountInfo.un_ptr_mar_Some

record AccountInfoWithPubkey =
  ap_Key :: Pubkey
  ap_Lamports :: u64
  ap_Owner :: Pubkey
  ap_Data :: "byte list"
  ap_Utxo :: string
  ap_IsExecutable :: bool

definition mar_AccountInfoWithPubkey :: "AccountInfoWithPubkey \<Rightarrow> json" where
  "mar_AccountInfoWithPubkey x = JObj
     ([(''key'', mar_array (ap_Key x)),
      (''lamports'', mar_uint (ap_Lamports x)),
      (''owner'', mar_array (ap_Owner x)),
      (''data'', Bytes_MarshalJSON (ap_Data x)),
      (''utxo'', JStr (ap_Utxo x)),
      (''is_executable'', JBool (ap_IsExecutable x))])"

definition zero_AccountInfoWithPubkey :: AccountInfoWithPubkey where
  "zero_AccountInfoWithPubkey = \<lparr>ap_Key = copy_into [],
     ap_Lamports = 0,
     ap_Owner = copy_into [],
     ap_Data = [],
     ap_Utxo = [],
     ap_IsExecutable = False\<rparr>"

definition un_AccountInfoWithPubkey :: "AccountInfoWithPubkey unmarshaler" where
  "un_AccountInfoWithPubkey = un_struct
     [(''key'', fld un_array ap_Key ap_Key_update),
      (''lamports'', fld un_uint ap_Lamports ap_Lamports_update),
      (''owner'', fld un_array ap_Owner ap_Owner_update),
      (''data'', fld Bytes_UnmarshalJSON ap_Data ap_Data_update),
      (''utxo'', fld un_string ap_Utxo ap_Utxo_update),
      (''is_executable'', fld un_bool ap_IsExecutable ap_IsExecutable_update)]"

interpretation json_AccountInfoWithPubkey:
  json_type mar_AccountInfoWithPubkey un_AccountInfoWithPubkey zero_AccountInfoWithPubkey
  by unfold_locales
    (simp_all add: mar_AccountInfoWithPubkey_def un_AccountInfoWithPubkey_def zero_AccountInfoWithPubkey_def json_simps
      split: option.splits)

lemmas [json_simps] =
  json_AccountInfoWithPubkey.un_mar json_AccountInfoWithPubkey.un_slice_mar json_AccountInfoWithPubkey.un_ptr_mar_Some

record ProgramAccount =
  pa_Pubkey :: Pubkey
  pa_Account :: AccountInfo

definition mar_ProgramAccount :: "ProgramAccount \<Rightarrow> json" where
  "mar_ProgramAccount x = JObj
     ([(''pubkey'', mar_array (pa_Pubkey x)),
      (''account'', mar_AccountInfo (pa_Account x))])"

definition zero_ProgramAccount :: ProgramAccount where
  "zero_ProgramAccount = \<lparr>pa_Pubkey = copy_into [],
     pa_Account = zero_AccountInfo\<rparr>"

definition un_ProgramAccount :: "ProgramAccount unmarshaler" where
  "un_ProgramAccount = un_struct
     [(''pubkey'', fld un_array pa_Pubkey pa_Pubkey_update),
      (''account'', fld un_AccountInfo pa_Account pa_Account_update)]"

interpretation json_ProgramAccount:
  json_type mar_ProgramAccount un_ProgramAccount zero_ProgramAccount
  by unfold_locales
    (simp_all add: mar_ProgramAccount_def un_ProgramAccount_def zero_ProgramAccount_def json_simps
      split: option.splits)

lemmas [json_simps] =
  json_ProgramAccount.un_mar json_ProgramAccount.un_slice_mar json_ProgramAccount.un_ptr_mar_Some

record DataContent =
  dc_Offset :: u64
  dc_Bytes :: "byte list"

definition mar_DataContent :: "DataContent \<Rightarrow> json" where
  "mar_DataContent x = JObj
     ([(''offset'', mar_uint (dc_Offset x)),
      (''bytes'', Bytes_MarshalJSON (dc_Bytes x))])"

definition zero_DataContent :: DataContent where
  "zero_DataContent = \<lparr>dc_Offset = 0,
     dc_Bytes = []\<rparr>"

definition un_DataContent :: "DataContent unmarshaler" where
  "un_DataContent = un_struct
     [(''offset'', fld un_uint dc_Offset dc_Offset_update),
      (''bytes'', fld Bytes_UnmarshalJSON dc_Bytes dc_Bytes_update)]"

interpretation json_DataContent:
  json_type mar_DataContent un_DataContent zero_DataContent
  by unfold_locales
    (simp_all add: mar_DataContent_def un_DataContent_def zero_DataContent_def json_simps
      split: option.splits)

lemmas [json_simps] =
  json_DataContent.un_mar json_DataContent.un_slice_mar json_DataContent.un_ptr_mar_Some

record AccountFilter =
  af_DataSize :: "u64 option"
  af_DataContent :: "DataContent option"

definition mar_AccountFilter :: "AccountFilter \<Rightarrow> json" where
  "mar_AccountFilter x = JObj
     (omit_nil ''DataSize'' mar_uint (af_DataSize x) @
      omit_nil ''DataContent'' mar_DataContent (af_DataContent x))"

definition zero_AccountFilter :: AccountFilter where
  "zero_AccountFilter = \<lparr>af_DataSize = None,
     af_DataContent = None\<rparr>"

definition un_AccountFilter :: "AccountFilter unmarshaler" where
  "un_AccountFilter = un_struct
     [(''DataSize'', fld (un_ptr 0 un_uint) af_DataSize af_DataSize_update),
      (''DataContent'', fld (un_ptr zero_DataContent un_DataContent) af_DataContent af_DataContent_update)]"

interpretation json_AccountFilter:
  json_type mar_AccountFilter un_AccountFilter zero_AccountFilter
  by unfold_locales
    (simp_all add: mar_AccountFilter_def un_AccountFilter_def zero_AccountFilter_def json_simps
      split: option.splits)

lemmas [json_simps] =
  json_AccountFilter.un_mar json_AccountFilter.un_slice_mar json_AccountFilter.un_ptr_mar_Some

record ProcessedTransactionStatus =
  st_Type :: string
  st_Message :: string

definition mar_ProcessedTransactionStatus :: "ProcessedTransactionStatus \<Rightarrow> json" where
  "mar_ProcessedTransactionStatus x = JObj
     ([(''type'', JStr (st_Type x))] @
      omitempty (st_Message x = []) ''message'' (JStr (st_Message x)))"

definition zero_ProcessedTransactionStatus :: ProcessedTransactionStatus where
  "zero_ProcessedTransactionStatus = \<lparr>st_Type = [],
     st_Message = []\<rparr>"

definition un_ProcessedTransactionStatus :: "ProcessedTransactionStatus unmarshaler" where
  "un_ProcessedTransactionStatus = un_struct
     [(''type'', fld un_string st_Type st_Type_update),
      (''message'', fld un_string st_Message st_Message_update)]"

interpretation json_ProcessedTransactionStatus:
  json_type mar_ProcessedTransactionStatus un_ProcessedTransactionStatus zero_ProcessedTransactionStatus
  by unfold_locales
    (simp_all add: mar_ProcessedTransactionStatus_def un_ProcessedTransactionStatus_def zero_ProcessedTransactionStatus_def json_simps
      split: option.splits)

lemmas [json_simps] =
  json_ProcessedTransactionStatus.un_mar json_ProcessedTransactionStatus.un_slice_mar json_ProcessedTransactionStatus.un_ptr_mar_Some

record RollbackStatus =
  rb_Type :: string
  rb_Message :: string

definition mar_RollbackStatus :: "RollbackStatus \<Rightarrow> json" where
  "mar_RollbackStatus x = JObj
     ([(''type'', JStr (rb_Type x))] @
      omitempty (rb_Message x = []) ''message'' (JStr (rb_Message x)))"

definition zero_RollbackStatus :: RollbackStatus where
  "zero_RollbackStatus = \<lparr>rb_Type = [],
     rb_Message = []\<rparr>"

definition un_RollbackStatus :: "RollbackStatus unmarshaler" where
  "un_RollbackStatus = un_struct
     [(''type'', fld un_string rb_Type rb_Type_update),
      (''message'', fld un_string rb_Message rb_Message_update)]"

interpretation json_RollbackStatus:
  json_type mar_RollbackStatus un_RollbackStatus zero_RollbackStatus
  by unfold_locales
    (simp_all add: mar_RollbackStatus_def un_RollbackStatus_def zero_RollbackStatus_def json_simps
      split: option.splits)

lemmas [json_simps] =
  json_RollbackStatus.un_mar json_RollbackStatus.un_slice_mar json_RollbackStatus.un_ptr_mar_Some

record InnerInstruction =
  ii_Instruction :: SanitizedInstruction
  ii_StackHeight :: u8

definition mar_InnerInstruction :: "InnerInstruction \<Rightarrow> json" where
  "mar_InnerInstruction x = JObj
     ([(''instruction'', mar_SanitizedInstruction (ii_Instruction x)),
      (''stack_height'', mar_uint (ii_StackHeight x))])"

definition zero_InnerInstruction :: InnerInstruction where
  "zero_InnerInstruction = \<lparr>ii_Instruction = zero_SanitizedInstruction,
     ii_StackHeight = 0\<rparr>"

definition un_InnerInstruction :: "InnerInstruction unmarshaler" where
  "un_InnerInstruction = un_struct
     [(''instruction'', fld un_SanitizedInstruction ii_Instruction ii_Instruction_update),
      (''stack_height'', fld un_uint ii_StackHeight ii_StackHeight_update)]"

interpretation json_InnerInstruction:
  json_type mar_InnerInstruction un_InnerInstruction zero_InnerInstruction
  by unfold_locales
    (simp_all add: mar_InnerInstruction_def un_InnerInstruction_def zero_InnerInstruction_def json_simps
      split: option.splits)

interpretation json_InnerInstructions:
  json_type "mar_slice mar_InnerInstruction" "un_slice zero_InnerInstruction un_InnerInstruction" "[]"
  by (rule json_InnerInstruction.slice)

lemmas [json_simps] = json_InnerInstructions.un_slice_mar

lemmas [json_simps] =
  json_InnerInstruction.un_mar json_InnerInstruction.un_slice_mar json_InnerInstruction.un_ptr_mar_Some

record ProcessedTransaction =
  pt_RuntimeTransaction :: RuntimeTransaction
  pt_Status :: ProcessedTransactionStatus
  pt_BitcoinTxid :: "Hash option"
  pt_Logs :: "string list"
  pt_RollbackStatus :: RollbackStatus
  pt_InnerInstructionsList :: "InnerInstruction list list"

definition mar_ProcessedTransaction :: "ProcessedTransaction \<Rightarrow> json" where
  "mar_ProcessedTransaction x = JObj
     ([(''runtime_transaction'', mar_RuntimeTransaction (pt_RuntimeTransaction x)),
      (''status'', mar_ProcessedTransactionStatus (pt_Status x)),
      (''bitcoin_txid'', mar_ptr mar_array (pt_BitcoinTxid x)),
      (''logs'', mar_slice JStr (pt_Logs x)),
      (''rollback_status'', mar_RollbackStatus (pt_RollbackStatus x)),
      (''inner_instructions_list'', mar_slice (mar_slice mar_InnerInstruction) (pt_InnerInstructionsList x))])"

definition zero_ProcessedTransaction :: ProcessedTransaction where
  "zero_ProcessedTransaction = \<lparr>pt_RuntimeTransaction = zero_RuntimeTransaction,
     pt_Status = zero_ProcessedTransactionStatus,
     pt_BitcoinTxid = None,
     pt_Logs = [],
     pt_RollbackStatus = zero_RollbackStatus,
     pt_InnerInstructionsList = []\<rparr>"

definition un_ProcessedTransaction :: "ProcessedTransaction unmarshaler" where
  "un_ProcessedTransaction = un_struct
     [(''runtime_transaction'', fld un_RuntimeTransaction pt_RuntimeTransaction pt_RuntimeTransaction_update),
      (''status'', fld un_ProcessedTransactionStatus pt_Status pt_Status_update),
      (''bitcoin_txid'', fld (un_ptr (copy_into []) un_array) pt_BitcoinTxid pt_BitcoinTxid_update),
      (''logs'', fld (un_slice [] un_string) pt_Logs pt_Logs_update),
      (''rollback_status'', fld un_RollbackStatus pt_RollbackStatus pt_RollbackStatus_update),
      (''inner_instructions_list'', fld (un_slice [] (un_slice zero_InnerInstruction un_InnerInstruction)) pt_InnerInstructionsList pt_InnerInstructionsList_update)]"

interpretation json_ProcessedTransaction:
  json_type mar_ProcessedTransaction un_ProcessedTransaction zero_ProcessedTransaction
  by unfold_locales
    (simp_all add: mar_ProcessedTransaction_def un_ProcessedTransaction_def zero_ProcessedTransaction_def json_simps
      split: option.splits)

lemmas [json_simps] =
  json_ProcessedTransaction.un_mar json_ProcessedTransaction.un_slice_mar json_ProcessedTransaction.un_ptr_mar_Some

record Block =
  bk_Transactions :: "Hash list"
  bk_PreviousBlockHash :: Hash
  bk_Timestamp :: u64
  bk_BlockHeight :: u64
  bk_BitcoinBlockHeight :: u64

definition mar_Block :: "Block \<Rightarrow> json" where
  "mar_Block x = JObj
     ([(''transactions'', mar_slice mar_array (bk_Transactions x)),
      (''previous_block_hash'', mar_array (bk_PreviousBlockHash x)),
      (''timestamp'', mar_uint (bk_Timestamp x)),
      (''block_height'', mar_uint (bk_BlockHeight x)),
      (''bitcoin_block_height'', mar_uint (bk_BitcoinBlockHeight x))])"

definition zero_Block :: Block where
  "zero_Block = \<lparr>bk_Transactions = [],
     bk_PreviousBlockHash = copy_into [],
     bk_Timestamp = 0,
     bk_BlockHeight = 0,
     bk_BitcoinBlockHeight = 0\<rparr>"

definition un_Block :: "Block unmarshaler" where
  "un_Block = un_struct
     [(''transactions'', fld (un_slice (copy_into []) un_array) bk_Transactions bk_Transactions_update),
      (''previous_block_hash'', fld un_array bk_PreviousBlockHash bk_PreviousBlockHash_update),
      (''timestamp'', fld un_uint bk_Timestamp bk_Timestamp_update),
      (''block_height'', fld un_uint bk_BlockHeight bk_BlockHeight_update),
      (''bitcoin_block_height'', fld un_uint bk_BitcoinBlockHeight bk_BitcoinBlockHeight_update)]"

interpretation json_Block:
  json_type mar_Block un_Block zero_Block
  by unfold_locales
    (simp_all add: mar_Block_def un_Block_def zero_Block_def json_simps
      split: option.splits)

lemmas [json_simps] =
  json_Block.un_mar json_Block.un_slice_mar json_Block.un_ptr_mar_Some

record FullBlock =
  fb_Transactions :: "ProcessedTransaction list"
  fb_PreviousBlockHash :: Hash
  fb_Timestamp :: u64
  fb_BlockHeight :: u64
  fb_BitcoinBlockHeight :: u64

definition mar_FullBlock :: "FullBlock \<Rightarrow> json" where
  "mar_FullBlock x = JObj
     ([(''transactions'', mar_slice mar_ProcessedTransaction (fb_Transactions x)),
      (''previous_block_hash'', mar_array (fb_PreviousBlockHash x)),
      (''timestamp'', mar_uint (fb_Timestamp x)),
      (''block_height'', mar_uint (fb_BlockHeight x)),
      (''bitcoin_block_height'', mar_uint (fb_BitcoinBlockHeight x))])"

definition zero_FullBlock :: FullBlock where
  "zero_FullBlock = \<lparr>fb_Transactions = [],
     fb_PreviousBlockHash = copy_into [],
     fb_Timestamp = 0,
     fb_BlockHeight = 0,
     fb_BitcoinBlockHeight = 0\<rparr>"

definition un_FullBlock :: "FullBlock unmarshaler" where
  "un_FullBlock = un_struct
     [(''transactions'', fld (un_slice zero_ProcessedTransaction un_ProcessedTransaction) fb_Transactions fb_Transactions_update),
      (''previous_block_hash'', fld un_array fb_PreviousBlockHash fb_PreviousBlockHash_update),
      (''timestamp'', fld un_uint fb_Timestamp fb_Timestamp_update),
      (''block_height'', fld un_uint fb_BlockHeight fb_BlockHeight_update),
      (''bitcoin_block_height'', fld un_uint fb_BitcoinBlockHeight fb_BitcoinBlockHeight_update)]"

interpretation json_FullBlock:
  json_type mar_FullBlock un_FullBlock zero_FullBlock
  by unfold_locales
    (simp_all add: mar_FullBlock_def un_FullBlock_def zero_FullBlock_def json_simps
      split: option.splits)

lemmas [json_simps] =
  json_FullBlock.un_mar json_FullBlock.un_slice_mar json_FullBlock.un_ptr_mar_Some

record BlockTransactionsParams =
  bp_BlockHash :: string
  bp_Limit :: "u64 option"
  bp_Offset :: "u64 option"
  bp_Account :: "Pubkey option"

definition mar_BlockTransactionsParams :: "BlockTransactionsParams \<Rightarrow> json" where
  "mar_BlockTransactionsParams x = JObj
     ([(''block_hash'', JStr (bp_BlockHash x))] @
      omit_nil ''limit'' mar_uint (bp_Limit x) @
      omit_nil ''offset'' mar_uint (bp_Offset x) @
      omit_nil ''account'' mar_array (bp_Account x))"

definition zero_BlockTransactionsParams :: BlockTransactionsParams where
  "zero_BlockTransactionsParams = \<lparr>bp_BlockHash = [],
     bp_Limit = None,
     bp_Offset = None,
     bp_Account = None\<rparr>"

definition un_BlockTransactionsParams :: "BlockTransactionsParams unmarshaler" where
  "un_BlockTransactionsParams = un_struct
     [(''block_hash'', fld un_string bp_BlockHash bp_BlockHash_update),
      (''limit'', fld (un_ptr 0 un_uint) bp_Limit bp_Limit_update),
      (''offset'', fld (un_ptr 0 un_uint) bp_Offset bp_Offset_update),
      (''account'', fld (un_ptr (copy_into []) un_array) bp_Account bp_Account_update)]"

interpretation json_BlockTransactionsParams:
  json_type mar_BlockTransactionsParams un_BlockTransactionsParams zero_BlockTransactionsParams
  by unfold_locales
    (simp_all add: mar_BlockTransactionsParams_def un_BlockTransactionsParams_def zero_BlockTransactionsParams_def json_simps
      split: option.splits)

lemmas [json_simps] =
  json_BlockTransactionsParams.un_mar json_BlockTransactionsParams.un_slice_mar json_BlockTransactionsParams.un_ptr_mar_Some

record TransactionListParams =
  lp_Limit :: "u64 option"
  lp_Offset :: "u64 option"
  lp_Account :: "Pubkey option"

definition mar_TransactionListParams :: "TransactionListParams \<Rightarrow> json" where
  "mar_TransactionListParams x = JObj
     (omit_nil ''limit'' mar_uint (lp_Limit x) @
      omit_nil ''offset'' mar_uint (lp_Offset x) @
      omit_nil ''account'' mar_array (lp_Account x))"

definition zero_TransactionListParams :: TransactionListParams where
  "zero_TransactionListParams = \<lparr>lp_Limit = None,
     lp_Offset = None,
     lp_Account = None\<rparr>"

definition un_TransactionListParams :: "TransactionListParams unmarshaler" where
  "un_TransactionListParams = un_struct
     [(''limit'', fld (un_ptr 0 un_uint) lp_Limit lp_Limit_update),
      (''offset'', fld (un_ptr 0 un_uint) lp_Offset lp_Offset_update),
      (''account'', fld (un_ptr (copy_into []) un_array) lp_Account lp_Account_update)]"

interpretation json_TransactionListParams:
  json_type mar_TransactionListParams un_TransactionListParams zero_TransactionListParams
  by unfold_locales
    (simp_all add: mar_TransactionListParams_def un_TransactionListParams_def zero_TransactionListParams_def json_simps
      split: option.splits)

lemmas [json_simps] =
  json_TransactionListParams.un_mar json_TransactionListParams.un_slice_mar json_TransactionListParams.un_ptr_mar_Some

record CreatedAccount =
  ca_Privkey :: string
  ca_Pubkey :: string
  ca_Address :: string

definition mar_CreatedAccount :: "CreatedAccount \<Rightarrow> json" where
  "mar_CreatedAccount x = JObj
     ([(''privkey'', JStr (ca_Privkey x)),
      (''pubkey'', JStr (ca_Pubkey x)),
      (''address'', JStr (ca_Address x))])"

definition zero_CreatedAccount :: CreatedAccount where
  "zero_CreatedAccount = \<lparr>ca_Privkey = [],
     ca_Pubkey = [],
     ca_Address = []\<rparr>"

definition un_CreatedAccount :: "CreatedAccount unmarshaler" where
  "un_CreatedAccount = un_struct
     [(''privkey'', fld un_string ca_Privkey ca_Privkey_update),
      (''pubkey'', fld un_string ca_Pubkey ca_Pubkey_update),
      (''address'', fld un_string ca_Address ca_Address_update)]"

interpretation json_CreatedAccount:
  json_type mar_CreatedAccount un_CreatedAccount zero_CreatedAccount
  by unfold_locales
    (simp_all add: mar_CreatedAccount_def un_CreatedAccount_def zero_CreatedAccount_def json_simps
      split: option.splits)

lemmas [json_simps] =
  json_CreatedAccount.un_mar json_CreatedAccount.un_slice_mar json_CreatedAccount.un_ptr_mar_Some

section \<open>Filters and tags\<close>

definition DataSizeFilter :: "u64 \<Rightarrow> AccountFilter" where
  "DataSizeFilter n = \<lparr>af_DataSize = Some n, af_DataContent = None\<rparr>"

definition DataContentFilter :: "u64 \<Rightarrow> byte list \<Rightarrow> AccountFilter" where
  "DataContentFilter offset b = \<lparr>af_DataSize = None, af_DataContent = Some \<lparr>dc_Offset = offset, dc_Bytes = b\<rparr>\<rparr>"

definition StatusQueued :: string where "StatusQueued = ''queued''"
definition StatusProcessed :: string where "StatusProcessed = ''processed''"
definition StatusFailed :: string where "StatusFailed = ''failed''"
definition RollbackStatusNotRolledback :: string where "RollbackStatusNotRolledback = ''notRolledback''"
definition RollbackStatusRolledback :: string where "RollbackStatusRolledback = ''rolledback''"

type_synonym BlockTransactionFilter = string

definition BlockTransactionFilterFull :: BlockTransactionFilter where
  "BlockTransactionFilterFull = ''full''"

definition BlockTransactionFilterSignatures :: BlockTransactionFilter where
  "BlockTransactionFilterSignatures = ''signatures''"

section \<open>Decoding byte arrays\<close>

lemma bytesInRange_Inr:
  "bytesInRange i nums out = Inr bs \<longleftrightarrow>
     list_all (\<lambda>v. 0 \<le> v \<and> v \<le> 255) nums \<and> bs = out @ map word_of_int nums"
  by (induction i nums out rule: bytesInRange.induct) auto

lemma bytesInRange_Inl:
  "bytesInRange i nums out = Inl e \<longleftrightarrow>
     (case find (\<lambda>(j, v). v < 0 \<or> v > 255) (enumerate i nums) of
        None \<Rightarrow> False
      | Some (j, v) \<Rightarrow> e = Errorf ''byte array element %d out of range: %d'' [FInt (int j), FInt v])"
  by (induction i nums out rule: bytesInRange.induct) auto

lemma un_array_elems_prefix:
  "length bs \<le> length cs \<Longrightarrow>
     un_array_elems (map mar_uint bs) cs = Inr (bs @ replicate (length cs - length bs) 0)"
  by (induction "map mar_uint bs" cs arbitrary: bs rule: un_array_elems.induct)
     (auto simp: un_uint_mar map_replicate_const Suc_diff_le split: list.splits)

lemma un_array_elems_surplus:
  "length bs = length cs \<Longrightarrow> un_array_elems (map mar_uint bs @ rest) cs = Inr bs"
  by (induction bs cs rule: list_induct2) (simp_all add: un_uint_mar)

section \<open>Texts of the wire types\<close>

lemma Bytes_text [json_text_simps]: "json_ok d (Bytes_MarshalJSON b) \<longleftrightarrow> 0 < d"
  by (simp add: Bytes_MarshalJSON_eq list_all_iff)

lemmas mar_defs =
  mar_AccountMeta_def mar_MessageHeader_def mar_SanitizedInstruction_def mar_SanitizedMessage_def
  mar_RuntimeTransaction_def mar_AccountInfo_def mar_AccountInfoWithPubkey_def mar_ProgramAccount_def
  mar_DataContent_def mar_AccountFilter_def mar_ProcessedTransactionStatus_def mar_RollbackStatus_def
  mar_InnerInstruction_def mar_ProcessedTransaction_def mar_Block_def mar_FullBlock_def
  mar_BlockTransactionsParams_def mar_TransactionListParams_def mar_CreatedAccount_def

text \<open>Which strings a processed transaction carries: its status, its log lines and its rollback status.\<close>

definition utf8_ProcessedTransaction :: "ProcessedTransaction \<Rightarrow> bool" where
  "utf8_ProcessedTransaction pt \<longleftrightarrow>
     valid_utf8 (st_Type (pt_Status pt)) \<and> valid_utf8 (st_Message (pt_Status pt)) \<and>
     list_all valid_utf8 (pt_Logs pt) \<and>
     valid_utf8 (rb_Type (pt_RollbackStatus pt)) \<and> valid_utf8 (rb_Message (pt_RollbackStatus pt))"

lemma list_all_const [json_text_simps]: "list_all (\<lambda>x. P) xs \<longleftrightarrow> xs = [] \<or> P"
  by (cases xs) (auto simp: list_all_iff)

text \<open>Each wire type, with the strings it relies on being UTF-8 and a bound on the depth of its text.\<close>

interpretation wire_RuntimeTransaction:
  json_wire mar_RuntimeTransaction un_RuntimeTransaction zero_RuntimeTransaction "\<lambda>_. True" 6
  by unfold_locales (auto simp: mar_defs json_text_simps split: option.split)

interpretation wire_AccountInfo:
  json_wire mar_AccountInfo un_AccountInfo zero_AccountInfo "\<lambda>ai. valid_utf8 (ai_Utxo ai)" 3
  by unfold_locales (auto simp: mar_defs json_text_simps split: option.split)

interpretation wire_AccountInfoWithPubkey:
  json_wire mar_AccountInfoWithPubkey un_AccountInfoWithPubkey zero_AccountInfoWithPubkey "\<lambda>ap. valid_utf8 (ap_Utxo ap)" 3
  by unfold_locales (auto simp: mar_defs json_text_simps split: option.split)

interpretation wire_ProgramAccount:
  json_wire mar_ProgramAccount un_ProgramAccount zero_ProgramAccount "\<lambda>pa. valid_utf8 (ai_Utxo (pa_Account pa))" 4
  by unfold_locales (auto simp: mar_defs json_text_simps split: option.split)

interpretation wire_AccountFilter:
  json_wire mar_AccountFilter un_AccountFilter zero_AccountFilter "\<lambda>_. True" 4
  by unfold_locales (auto simp: mar_defs json_text_simps split: option.split)

interpretation wire_ProcessedTransactionStatus:
  json_wire mar_ProcessedTransactionStatus un_ProcessedTransactionStatus zero_ProcessedTransactionStatus "\<lambda>st. valid_utf8 (st_Type st) \<and> valid_utf8 (st_Message st)" 2
  by unfold_locales (auto simp: mar_defs json_text_simps split: option.split)

interpretation wire_ProcessedTransaction:
  json_wire mar_ProcessedTransaction un_ProcessedTransaction zero_ProcessedTransaction utf8_ProcessedTransaction 8
  by unfold_locales
    (auto simp: mar_defs json_text_simps utf8_ProcessedTransaction_def split: option.split)

interpretation wire_Block:
  json_wire mar_Block un_Block zero_Block "\<lambda>_. True" 4
  by unfold_locales (auto simp: mar_defs json_text_simps split: option.split)

interpretation wire_FullBlock:
  json_wire mar_FullBlock un_FullBlock zero_FullBlock "\<lambda>fb. list_all utf8_ProcessedTransaction (fb_Transactions fb)" 10
  by unfold_locales
    (auto simp: mar_FullBlock_def json_text_simps list_all_iff intro!: wire_ProcessedTransaction.wire_text)

interpretation wire_BlockTransactionsParams:
  json_wire mar_BlockTransactionsParams un_BlockTransactionsParams zero_BlockTransactionsParams "\<lambda>bp. valid_utf8 (bp_BlockHash bp)" 3
  by unfold_locales (auto simp: mar_defs json_text_simps split: option.split)

interpretation wire_TransactionListParams:
  json_wire mar_TransactionListParams un_TransactionListParams zero_TransactionListParams "\<lambda>_. True" 3
  by unfold_locales (auto simp: mar_defs json_text_simps split: option.split)

interpretation wire_CreatedAccount:
  json_wire mar_CreatedAccount un_CreatedAccount zero_CreatedAccount "\<lambda>ca. valid_utf8 (ca_Privkey ca) \<and> valid_utf8 (ca_Pubkey ca) \<and> valid_utf8 (ca_Address ca)" 2
  by unfold_locales (auto simp: mar_defs json_text_simps split: option.split)

section \<open>Properties\<close>

text \<open>
  C26 (round trip). Everything the client sends or receives as JSON survives the wire: \<open>json.Unmarshal\<close>
  of the bytes that \<open>json.Marshal\<close> made of a transaction, a processed transaction, a block in either
  form, account information or a filter gives exactly the value that was encoded, provided the strings
  inside are UTF-8.
\<close>

theorem wire_types_roundtrip:
  assumes "list_all utf8_ProcessedTransaction (pt # fb_Transactions fb)"
    and "list_all valid_utf8 [ai_Utxo ai, ap_Utxo ap, ai_Utxo (pa_Account pa), st_Type st, st_Message st]"
  shows
  "json_Unmarshal un_RuntimeTransaction (json_Marshal (mar_RuntimeTransaction tx)) zero_RuntimeTransaction = Inr tx \<and>
   json_Unmarshal un_ProcessedTransaction (json_Marshal (mar_ProcessedTransaction pt)) zero_ProcessedTransaction = Inr pt \<and>
   json_Unmarshal un_Block (json_Marshal (mar_Block b)) zero_Block = Inr b \<and>
   json_Unmarshal un_FullBlock (json_Marshal (mar_FullBlock fb)) zero_FullBlock = Inr fb \<and>
   json_Unmarshal un_AccountInfo (json_Marshal (mar_AccountInfo ai)) zero_AccountInfo = Inr ai \<and>
   json_Unmarshal un_AccountInfoWithPubkey (json_Marshal (mar_AccountInfoWithPubkey ap)) zero_AccountInfoWithPubkey =
     Inr ap \<and>
   json_Unmarshal un_ProgramAccount (json_Marshal (mar_ProgramAccount pa)) zero_ProgramAccount = Inr pa \<and>
   json_Unmarshal un_AccountFilter (json_Marshal (mar_AccountFilter af)) zero_AccountFilter = Inr af \<and>
   json_Unmarshal un_ProcessedTransactionStatus (json_Marshal (mar_ProcessedTransactionStatus st))
     zero_ProcessedTransactionStatus = Inr st"
  using assms
  by (simp add: wire_RuntimeTransaction.bytes_roundtrip wire_ProcessedTransaction.bytes_roundtrip
      wire_Block.bytes_roundtrip wire_FullBlock.bytes_roundtrip wire_AccountInfo.bytes_roundtrip
      wire_AccountInfoWithPubkey.bytes_roundtrip wire_ProgramAccount.bytes_roundtrip
      wire_AccountFilter.bytes_roundtrip wire_ProcessedTransactionStatus.bytes_roundtrip)

theorem wire_types_roundtrip_witness:
  "json_Marshal (mar_ProcessedTransactionStatus \<lparr>st_Type = ''failed'', st_Message = ''a<b''\<rparr>) =
     bytes_of_string (''{'' @ print_string ''type'' @ '':'' @ print_string ''failed'' @ '','' @
       print_string ''message'' @ '':'' @ [CHR 0x22, CHR ''a'', CHR 0x5C] @ ''u003cb'' @ [CHR 0x22] @ ''}'') \<and>
   json_Unmarshal un_ProcessedTransactionStatus
     (json_Marshal (mar_ProcessedTransactionStatus \<lparr>st_Type = ''failed'', st_Message = ''a<b''\<rparr>))
     zero_ProcessedTransactionStatus = Inr \<lparr>st_Type = ''failed'', st_Message = ''a<b''\<rparr>"
proof -
  have "utf8_ProcessedTransaction zero_ProcessedTransaction"
    by (simp add: utf8_ProcessedTransaction_def zero_ProcessedTransaction_def
        zero_ProcessedTransactionStatus_def zero_RollbackStatus_def)
  then show ?thesis
    using wire_types_roundtrip [of zero_ProcessedTransaction "zero_FullBlock" "zero_AccountInfo"
        zero_AccountInfoWithPubkey zero_ProgramAccount "\<lparr>st_Type = ''failed'', st_Message = ''a<b''\<rparr>"]
    by (simp add: zero_FullBlock_def zero_AccountInfo_def zero_AccountInfoWithPubkey_def
        zero_ProgramAccount_def json_Marshal_def mar_ProcessedTransactionStatus_def omitempty_def
        print_string_def esc_char_def hextable_def)
qed

text \<open>
  C27 (error). Byte slices: encoding and decoding are inverse, an array decodes exactly when every
  element is between 0 and 255, and otherwise the error names the first element out of range with its
  position; the receiver's previous contents never show through.
\<close>

theorem Bytes_json:
  "Bytes_UnmarshalJSON (Bytes_MarshalJSON b) c = Inr b \<and>
   (un_slice 0 un_int v [] = Inr nums \<longrightarrow>
      (Bytes_UnmarshalJSON v c = Inr b \<longleftrightarrow>
         list_all (\<lambda>n. 0 \<le> n \<and> n \<le> 255) nums \<and> b = map word_of_int nums) \<and>
      (Bytes_UnmarshalJSON v c = Inl e \<longleftrightarrow>
         (case find (\<lambda>(j, n). n < 0 \<or> n > 255) (enumerate 0 nums) of
            None \<Rightarrow> False
          | Some (j, n) \<Rightarrow>
              e = Errorf ''byte array element %d out of range: %d'' [FInt (int j), FInt n])))"
  using Bytes_roundtrip [of b c]
  by (simp add: Bytes_UnmarshalJSON_def [of v] bytesInRange_Inr bytesInRange_Inl)

theorem Bytes_json_witness:
  "Bytes_UnmarshalJSON (JArr [JInt 7, JInt 300, JInt 1]) [9] =
     Inl (Errorf ''byte array element %d out of range: %d'' [FInt 1, FInt 300])"
  using Bytes_json [of "[]" "[9]" "JArr [JInt 7, JInt 300, JInt 1]" "[7, 300, 1]"
      "Errorf ''byte array element %d out of range: %d'' [FInt 1, FInt 300]"]
  by (simp add: un_slice_def un_int_def)

text \<open>
  Fixed-size keys, hashes and signatures do not check the length of the JSON array they
  are decoded from: a shorter array is padded with zero bytes, and the elements beyond the size are
  ignored whatever they are.
\<close>

theorem un_array_lengths:
  "(length bs \<le> LENGTH('n) \<longrightarrow> un_array (JArr (map mar_uint bs)) a = Inr (copy_into bs :: 'n::len byte_array)) \<and>
   un_array (JArr (map mar_uint (bytes_of b) @ rest)) a = Inr (b :: 'n byte_array)"
  by (simp add: un_array_def un_array_elems_prefix un_array_elems_surplus flip: bytes_of_eq_iff)
     (simp add: bytes_of_copy_into)

theorem un_array_lengths_witness:
  "un_array (JArr (map mar_uint [1, 2 :: byte])) SystemProgramID = Inr (copy_into [1, 2])"
  using un_array_lengths [of "[1, 2]" SystemProgramID] by simp

text \<open>
  On the wire a filter is an object with exactly one member, tagged by its kind, as
  the constructors promise.
\<close>

theorem account_filter_wire:
  "mar_AccountFilter (DataSizeFilter n) = JObj [(''DataSize'', JInt (uint n))] \<and>
   mar_AccountFilter (DataContentFilter off bs) =
     JObj [(''DataContent'',
       JObj [(''offset'', JInt (uint off)), (''bytes'', JArr (map (\<lambda>b. JInt (uint b)) bs))])]"
  by (simp add: mar_AccountFilter_def DataSizeFilter_def DataContentFilter_def omit_nil_def omitempty_def
      mar_ptr_def mar_uint_def mar_DataContent_def Bytes_MarshalJSON_eq)

end
