(* ===== verification/Arch_Rpc.thy ===== *)
theory Arch_Rpc
  imports Arch_Json
begin

text \<open>
  \<open>rpc.go\<close> and the method names of \<open>constants.go\<close>: the JSON-RPC client. The HTTP client is a field of
  \<open>Client\<close>: a function from URL, content type and request bytes to a response or an error. A request
  parameter is the result of encoding it (Go's nil interface is \<open>None\<close>); bodies are the bytes of JSON
  texts.
\<close>

section \<open>Constants\<close>

definition MethodReadAccountInfo :: string where "MethodReadAccountInfo = ''read_account_info''"
definition MethodSendTransaction :: string where "MethodSendTransaction = ''send_transaction''"
definition MethodSendTransactions :: string where "MethodSendTransactions = ''send_transactions''"
definition MethodGetBlock :: string where "MethodGetBlock = ''get_block''"
definition MethodGetBlockCount :: string where "MethodGetBlockCount = ''get_block_count''"
definition MethodGetBlockHash :: string where "MethodGetBlockHash = ''get_block_hash''"
definition MethodGetBestBlockHash :: string where "MethodGetBestBlockHash = ''get_best_block_hash''"
definition MethodGetBestFinalizedBlockHash :: string where "MethodGetBestFinalizedBlockHash = ''get_best_finalized_block_hash''"
definition MethodGetProcessedTransaction :: string where "MethodGetProcessedTransaction = ''get_processed_transaction''"
definition MethodGetAccountAddress :: string where "MethodGetAccountAddress = ''get_account_address''"
definition MethodGetProgramAccounts :: string where "MethodGetProgramAccounts = ''get_program_accounts''"
definition MethodRequestAirdrop :: string where "MethodRequestAirdrop = ''request_airdrop''"
definition MethodCreateAccountWithFaucet :: string where "MethodCreateAccountWithFaucet = ''create_account_with_faucet''"
definition MethodGetBlockByHeight :: string where "MethodGetBlockByHeight = ''get_block_by_height''"
definition MethodGetFullBlockWithTxids :: string where "MethodGetFullBlockWithTxids = ''get_full_block_with_txids''"
definition MethodGetTransactionsByBlock :: string where "MethodGetTransactionsByBlock = ''get_transactions_by_block''"
definition MethodGetTransactionsByIds :: string where "MethodGetTransactionsByIds = ''get_transactions_by_ids''"
definition MethodRecentTransactions :: string where "MethodRecentTransactions = ''recent_transactions''"
definition MethodGetMultipleAccounts :: string where "MethodGetMultipleAccounts = ''get_multiple_accounts''"
definition MethodGetNetworkPubkey :: string where "MethodGetNetworkPubkey = ''get_network_pubkey''"
definition MethodCheckPreAnchorConflict :: string where "MethodCheckPreAnchorConflict = ''check_pre_anchor_conflict''"
definition MethodGetTransactionStatus :: string where "MethodGetTransactionStatus = ''get_transaction_status''"

definition rpc_methods :: "string list" where
  "rpc_methods =
     [MethodReadAccountInfo,
      MethodSendTransaction,
      MethodSendTransactions,
      MethodGetBlock,
      MethodGetBlockCount,
      MethodGetBlockHash,
      MethodGetBestBlockHash,
      MethodGetBestFinalizedBlockHash,
      MethodGetProcessedTransaction,
      MethodGetAccountAddress,
      MethodGetProgramAccounts,
      MethodRequestAirdrop,
      MethodCreateAccountWithFaucet,
      MethodGetBlockByHeight,
      MethodGetFullBlockWithTxids,
      MethodGetTransactionsByBlock,
      MethodGetTransactionsByIds,
      MethodRecentTransactions,
      MethodGetMultipleAccounts,
      MethodGetNetworkPubkey,
      MethodCheckPreAnchorConflict,
      MethodGetTransactionStatus]"

lemmas Method_defs =
  MethodReadAccountInfo_def
  MethodSendTransaction_def
  MethodSendTransactions_def
  MethodGetBlock_def
  MethodGetBlockCount_def
  MethodGetBlockHash_def
  MethodGetBestBlockHash_def
  MethodGetBestFinalizedBlockHash_def
  MethodGetProcessedTransaction_def
  MethodGetAccountAddress_def
  MethodGetProgramAccounts_def
  MethodRequestAirdrop_def
  MethodCreateAccountWithFaucet_def
  MethodGetBlockByHeight_def
  MethodGetFullBlockWithTxids_def
  MethodGetTransactionsByBlock_def
  MethodGetTransactionsByIds_def
  MethodRecentTransactions_def
  MethodGetMultipleAccounts_def
  MethodGetNetworkPubkey_def
  MethodCheckPreAnchorConflict_def
  MethodGetTransactionStatus_def

definition MaxTxBatchSize :: nat where "MaxTxBatchSize = 100"
definition MaxSigners :: nat where "MaxSigners = 16"
definition MaxTransactionsPerBlock :: nat where "MaxTransactionsPerBlock = 1024"

definition rpcNotFoundCode :: int where
  "rpcNotFoundCode = 404"

section \<open>Transport\<close>

text \<open>Posting a body of a content type to a URL gives a response or an error; reading its body may fail too.\<close>

record http_response =
  hr_StatusCode :: int
  hr_Body :: "byte list result"

type_synonym http_client = "string \<Rightarrow> string \<Rightarrow> byte list \<Rightarrow> http_response result"

record Client =
  nodeURL :: string
  httpClient :: http_client

definition NewClient :: "http_client \<Rightarrow> string \<Rightarrow> http_client option \<Rightarrow> Client" where
  "NewClient DefaultClient url client =
     \<lparr>nodeURL = url, httpClient = (case client of None \<Rightarrow> DefaultClient | Some h \<Rightarrow> h)\<rparr>"

record RPCError =
  re_Code :: int
  re_Message :: string

definition RPCError_Error :: "RPCError \<Rightarrow> string" where
  "RPCError_Error e = ''rpc error '' @ print_int (re_Code e) @ '': '' @ re_Message e"

definition zero_RPCError :: RPCError where
  "zero_RPCError = \<lparr>re_Code = 0, re_Message = []\<rparr>"

definition un_RPCError :: "RPCError unmarshaler" where
  "un_RPCError = un_struct
     [(''code'', fld un_int re_Code re_Code_update), (''message'', fld un_string re_Message re_Message_update)]"

record rpcRequest =
  rq_JSONRPC :: string
  rq_ID :: string
  rq_Method :: string
  rq_Params :: "json result option"

text \<open>\<open>params,omitempty\<close> on an interface: left out exactly when the interface is nil.\<close>

definition mar_rpcRequest :: "rpcRequest \<Rightarrow> json result" where
  "mar_rpcRequest r =
     (let head = [(''jsonrpc'', JStr (rq_JSONRPC r)), (''id'', JStr (rq_ID r)), (''method'', JStr (rq_Method r))]
      in case rq_Params r of
           None \<Rightarrow> Inr (JObj head)
         | Some (Inl err) \<Rightarrow> Inl err
         | Some (Inr v) \<Rightarrow> Inr (JObj (head @ [(''params'', v)])))"

record rpcResponse =
  rr_Result :: "json option"
  rr_Error :: "RPCError option"

definition zero_rpcResponse :: rpcResponse where
  "zero_rpcResponse = \<lparr>rr_Result = None, rr_Error = None\<rparr>"

definition un_rpcResponse :: "rpcResponse unmarshaler" where
  "un_rpcResponse = un_struct
     [(''result'', fld un_raw rr_Result rr_Result_update),
      (''error'', fld (un_ptr zero_RPCError un_RPCError) rr_Error rr_Error_update)]"

text \<open>
  \<open>json.Unmarshal\<close> of a raw message. The message is kept as the value its text denotes; a nil one is
  the empty text.
\<close>

definition unmarshalRaw :: "'a unmarshaler \<Rightarrow> 'a \<Rightarrow> json option \<Rightarrow> 'a result" where
  "unmarshalRaw un z raw = (case raw of None \<Rightarrow> json_Unmarshal un [] z | Some v \<Rightarrow> un v z)"

definition postData :: "Client \<Rightarrow> string \<Rightarrow> json result option \<Rightarrow> bool \<Rightarrow> json option result" where
  "postData c method params hasParams =
     (let req = \<lparr>rq_JSONRPC = ''2.0'', rq_ID = ''curlycurl'', rq_Method = method, rq_Params = None\<rparr>;
          req = (if hasParams then req\<lparr>rq_Params := params\<rparr> else req)
      in case mar_rpcRequest req of
           Inl err \<Rightarrow> Inl (WrapErr ''marshaling rpc request: %w'' err)
         | Inr v \<Rightarrow>
             (case httpClient c (nodeURL c) ''application/json'' (json_Marshal v) of
                Inl err \<Rightarrow> Inl (WrapErr ''posting to node: %w'' err)
              | Inr httpResp \<Rightarrow>
                  (case hr_Body httpResp of
                     Inl err \<Rightarrow> Inl (WrapErr ''reading node response: %w'' err)
                   | Inr respBody \<Rightarrow>
                       if hr_StatusCode httpResp \<noteq> 200
                       then Inl (Errorf ''node returned HTTP %d: %s''
                              [FInt (hr_StatusCode httpResp), FBytes respBody])
                       else (case json_Unmarshal un_rpcResponse respBody zero_rpcResponse of
                               Inl err \<Rightarrow> Inl (WrapErr ''parsing node response: %w'' err)
                             | Inr resp \<Rightarrow>
                                 (case rr_Error resp of
                                    Some e \<Rightarrow> Inl (RPCErr (re_Code e) (re_Message e))
                                  | None \<Rightarrow> Inr (rr_Result resp))))))"

section \<open>Generic calls\<close>

definition call ::
  "'a unmarshaler \<Rightarrow> 'a \<Rightarrow> Client \<Rightarrow> string \<Rightarrow> json result \<Rightarrow> 'a result" where
  "call un z c method params =
     (case postData c method (Some params) True of
        Inl err \<Rightarrow> Inl err
      | Inr raw \<Rightarrow>
          (case unmarshalRaw un z raw of
             Inl err \<Rightarrow> Inl (WrapErr (''unmarshaling '' @ method @ '' result: %w'') err)
           | Inr out \<Rightarrow> Inr out))"

definition callNoParams :: "'a unmarshaler \<Rightarrow> 'a \<Rightarrow> Client \<Rightarrow> string \<Rightarrow> 'a result" where
  "callNoParams un z c method =
     (case postData c method None False of
        Inl err \<Rightarrow> Inl err
      | Inr raw \<Rightarrow>
          (case unmarshalRaw un z raw of
             Inl err \<Rightarrow> Inl (WrapErr (''unmarshaling '' @ method @ '' result: %w'') err)
           | Inr out \<Rightarrow> Inr out))"

text \<open>\<open>errors.As\<close> with an \<open>*RPCError\<close> target: the first one along the chain of wrapped errors.\<close>

fun as_RPCError :: "go_error \<Rightarrow> RPCError option" where
  "as_RPCError (RPCErr code msg) = Some \<lparr>re_Code = code, re_Message = msg\<rparr>"
| "as_RPCError (WrapErr fmt e) = as_RPCError e"
| "as_RPCError _ = None"

definition isNotFound :: "go_error \<Rightarrow> bool" where
  "isNotFound err = (case as_RPCError err of None \<Rightarrow> False | Some e \<Rightarrow> re_Code e = rpcNotFoundCode)"

definition callNilOnNotFound ::
  "'a unmarshaler \<Rightarrow> 'a \<Rightarrow> Client \<Rightarrow> string \<Rightarrow> json result \<Rightarrow> 'a option result" where
  "callNilOnNotFound un z c method params =
     (case call (un_ptr z un) None c method params of
        Inl err \<Rightarrow> if isNotFound err then Inr None else Inl err
      | Inr out \<Rightarrow> Inr out)"

section \<open>Client methods\<close>

text \<open>A slice handed to a method may be nil, which is encoded as \<open>null\<close>; it is \<open>None\<close> here.\<close>

definition SendTransaction :: "Client \<Rightarrow> RuntimeTransaction \<Rightarrow> string result" where
  "SendTransaction c tx =
     call un_string [] c MethodSendTransaction (Inr (mar_RuntimeTransaction tx))"

definition SendTransactions :: "Client \<Rightarrow> RuntimeTransaction list option \<Rightarrow> string list result" where
  "SendTransactions c txs =
     call (un_slice [] un_string) [] c MethodSendTransactions
       (Inr (mar_ptr (mar_slice mar_RuntimeTransaction) txs))"

definition ReadAccountInfo :: "Client \<Rightarrow> Pubkey \<Rightarrow> AccountInfo result" where
  "ReadAccountInfo c pubkey =
     call un_AccountInfo zero_AccountInfo c MethodReadAccountInfo (Inr (mar_array pubkey))"

definition GetAccountAddress :: "Client \<Rightarrow> Pubkey \<Rightarrow> string result" where
  "GetAccountAddress c pubkey =
     call un_string [] c MethodGetAccountAddress (Inr (mar_array pubkey))"

definition GetBestBlockHash :: "Client \<Rightarrow> string result" where
  "GetBestBlockHash c =
     callNoParams un_string [] c MethodGetBestBlockHash"

definition GetBestFinalizedBlockHash :: "Client \<Rightarrow> string result" where
  "GetBestFinalizedBlockHash c =
     callNoParams un_string [] c MethodGetBestFinalizedBlockHash"

definition GetBlock :: "Client \<Rightarrow> string \<Rightarrow> Block option result" where
  "GetBlock c blockHash =
     callNilOnNotFound un_Block zero_Block c MethodGetBlock (Inr (JArr [JStr blockHash]))"

definition GetBlockByHeight :: "Client \<Rightarrow> u64 \<Rightarrow> Block option result" where
  "GetBlockByHeight c height =
     callNilOnNotFound un_Block zero_Block c MethodGetBlockByHeight (Inr (JArr [mar_uint height]))"

definition GetFullBlockByHash :: "Client \<Rightarrow> string \<Rightarrow> FullBlock option result" where
  "GetFullBlockByHash c blockHash =
     callNilOnNotFound un_FullBlock zero_FullBlock c MethodGetBlock
       (Inr (JArr [JStr blockHash, JStr BlockTransactionFilterFull]))"

definition GetFullBlockByHeight :: "Client \<Rightarrow> u64 \<Rightarrow> FullBlock option result" where
  "GetFullBlockByHeight c height =
     callNilOnNotFound un_FullBlock zero_FullBlock c MethodGetBlockByHeight
       (Inr (JArr [mar_uint height, JStr BlockTransactionFilterFull]))"

definition GetBlockCount :: "Client \<Rightarrow> u64 result" where
  "GetBlockCount c =
     callNoParams un_uint 0 c MethodGetBlockCount"

definition GetBlockHash :: "Client \<Rightarrow> u64 \<Rightarrow> string result" where
  "GetBlockHash c height =
     call un_string [] c MethodGetBlockHash (Inr (mar_uint height))"

definition GetProcessedTransaction :: "Client \<Rightarrow> string \<Rightarrow> ProcessedTransaction option result" where
  "GetProcessedTransaction c txid =
     callNilOnNotFound un_ProcessedTransaction zero_ProcessedTransaction c MethodGetProcessedTransaction
       (Inr (JStr txid))"

definition GetProgramAccounts :: "Client \<Rightarrow> Pubkey \<Rightarrow> AccountFilter list option \<Rightarrow> ProgramAccount list result" where
  "GetProgramAccounts c programID filters =
     call (un_slice zero_ProgramAccount un_ProgramAccount) [] c MethodGetProgramAccounts
       (Inr (JArr [mar_array programID, mar_ptr (mar_slice mar_AccountFilter) filters]))"

definition RequestAirdrop :: "Client \<Rightarrow> Pubkey \<Rightarrow> unit result" where
  "RequestAirdrop c pubkey =
     (case postData c MethodRequestAirdrop (Some (Inr (mar_array pubkey))) True of
        Inl err \<Rightarrow> Inl err | Inr _ \<Rightarrow> Inr ())"

definition CreateAccountWithFaucet :: "Client \<Rightarrow> Pubkey \<Rightarrow> RuntimeTransaction result" where
  "CreateAccountWithFaucet c pubkey =
     call un_RuntimeTransaction zero_RuntimeTransaction c MethodCreateAccountWithFaucet
       (Inr (mar_array pubkey))"

definition GetTransactionsByBlock :: "Client \<Rightarrow> BlockTransactionsParams \<Rightarrow> ProcessedTransaction list result" where
  "GetTransactionsByBlock c params =
     call (un_slice zero_ProcessedTransaction un_ProcessedTransaction) [] c MethodGetTransactionsByBlock
       (Inr (mar_BlockTransactionsParams params))"

definition GetTransactionsByIds :: "Client \<Rightarrow> string list option \<Rightarrow> ProcessedTransaction option list result" where
  "GetTransactionsByIds c txids =
     call (un_slice None (un_ptr zero_ProcessedTransaction un_ProcessedTransaction)) [] c
       MethodGetTransactionsByIds (Inr (JObj [(''txids'', mar_ptr (mar_slice JStr) txids)]))"

definition RecentTransactions :: "Client \<Rightarrow> TransactionListParams \<Rightarrow> ProcessedTransaction list result" where
  "RecentTransactions c params =
     call (un_slice zero_ProcessedTransaction un_ProcessedTransaction) [] c MethodRecentTransactions
       (Inr (mar_TransactionListParams params))"

definition GetMultipleAccounts :: "Client \<Rightarrow> Pubkey list option \<Rightarrow> AccountInfoWithPubkey option list result" where
  "GetMultipleAccounts c pubkeys =
     call (un_slice None (un_ptr zero_AccountInfoWithPubkey un_AccountInfoWithPubkey)) [] c
       MethodGetMultipleAccounts (Inr (mar_ptr (mar_slice mar_array) pubkeys))"

definition GetNetworkPubkey :: "Client \<Rightarrow> string result" where
  "GetNetworkPubkey c =
     callNoParams un_string [] c MethodGetNetworkPubkey"

definition CheckPreAnchorConflict :: "Client \<Rightarrow> Pubkey list option \<Rightarrow> bool result" where
  "CheckPreAnchorConflict c accounts =
     call un_bool False c MethodCheckPreAnchorConflict (Inr (mar_ptr (mar_slice mar_array) accounts))"

definition GetTransactionStatus :: "Client \<Rightarrow> string list option \<Rightarrow> ProcessedTransactionStatus option list result" where
  "GetTransactionStatus c txids =
     call (un_slice None (un_ptr zero_ProcessedTransactionStatus un_ProcessedTransactionStatus)) [] c
       MethodGetTransactionStatus (Inr (JObj [(''txids'', mar_ptr (mar_slice JStr) txids)]))"

definition CreateNewAccount ::
  "('sk, 'pk, 'net, 'sh, 'vm) btclib \<Rightarrow> random \<Rightarrow> Client \<Rightarrow> CreatedAccount result" where
  "CreateNewAccount L rand c =
     (case NewPrivateKey L rand of
        Inl err \<Rightarrow> Inl err
      | Inr priv \<Rightarrow>
          (let pubkey = XOnlyPubkey L priv
           in case GetAccountAddress c pubkey of
                Inl err \<Rightarrow> Inl err
              | Inr address \<Rightarrow>
                  Inr \<lparr>ca_Privkey = EncodeToString (lib_SerializePrivKey L priv),
                       ca_Pubkey = Pubkey_String pubkey, ca_Address = address\<rparr>))"

section \<open>A conforming node\<close>

text \<open>
  A node is a handler from method and parameters to a result or an error code with a message. The
  client of a node posts to it over JSON: the node reads method and parameters off the bytes of the
  request and answers with status 200 and the bytes of an object with a result or an error member.
\<close>

record node_request =
  nq_Method :: string
  nq_Params :: "json option"

definition un_node_request :: "node_request unmarshaler" where
  "un_node_request = un_struct
     [(''method'', fld un_string nq_Method nq_Method_update), (''params'', fld un_raw nq_Params nq_Params_update)]"

type_synonym node_handler = "string \<Rightarrow> json option \<Rightarrow> (int \<times> string) + json"

definition node_reply :: "node_handler \<Rightarrow> node_request \<Rightarrow> json" where
  "node_reply h q =
     (case h (nq_Method q) (nq_Params q) of
        Inl (code, msg) \<Rightarrow> JObj [(''error'', JObj [(''code'', JInt code), (''message'', JStr msg)])]
      | Inr v \<Rightarrow> JObj [(''result'', v)])"

definition node_client :: "node_handler \<Rightarrow> Client" where
  "node_client h =
     \<lparr>nodeURL = ''http://localhost:9002'',
      httpClient = (\<lambda>url ctype body.
        case json_Unmarshal un_node_request body \<lparr>nq_Method = [], nq_Params = None\<rparr> of
          Inl err \<Rightarrow> Inl err
        | Inr q \<Rightarrow> Inr \<lparr>hr_StatusCode = 200, hr_Body = Inr (json_Marshal (node_reply h q))\<rparr>)\<rparr>"

text \<open>A value that can be a member of a request or reply.\<close>

definition member_text :: "json \<Rightarrow> bool" where
  "member_text v \<longleftrightarrow> json_ok (maxNestingDepth - 1) v"

text \<open>What the client relies on: error codes are Go \<open>int\<close>s, and what the node says can be written as JSON.\<close>

definition node_ok :: "node_handler \<Rightarrow> bool" where
  "node_ok h \<longleftrightarrow>
     (\<forall>m p. case h m p of
        Inl (code, msg) \<Rightarrow> - (2 ^ 63) \<le> code \<and> code < 2 ^ 63 \<and> valid_utf8 msg
      | Inr v \<Rightarrow> member_text v)"

lemma maxNestingDepth_pos [simp]: "0 < maxNestingDepth" "Suc 0 < maxNestingDepth"
  by (simp_all add: maxNestingDepth_def)

lemma request_reaches_node:
  assumes "valid_utf8 method" and "\<And>p. params = Some p \<Longrightarrow> member_text p"
  shows "httpClient (node_client h) url ctype (json_Marshal
      (JObj ([(''jsonrpc'', JStr ''2.0''), (''id'', JStr ''curlycurl''), (''method'', JStr method)] @
         (case params of None \<Rightarrow> [] | Some p \<Rightarrow> [(''params'', p)])))) =
    Inr \<lparr>hr_StatusCode = 200,
      hr_Body = Inr (json_Marshal (node_reply h \<lparr>nq_Method = method, nq_Params = params\<rparr>))\<rparr>"
  using assms
  by (cases params) (simp_all add: node_client_def json_Unmarshal_Marshal member_text_def un_node_request_def
      un_raw_def lookup_field_def fold_char_def json_simps)

lemma reply_reaches_client:
  assumes "node_ok h"
  shows "json_Unmarshal un_rpcResponse (json_Marshal (node_reply h q)) zero_rpcResponse =
    (case h (nq_Method q) (nq_Params q) of
       Inl (code, msg) \<Rightarrow> Inr \<lparr>rr_Result = None, rr_Error = Some \<lparr>re_Code = code, re_Message = msg\<rparr>\<rparr>
     | Inr v \<Rightarrow> Inr \<lparr>rr_Result = Some v, rr_Error = None\<rparr>)"
proof (cases "h (nq_Method q) (nq_Params q)")
  case (Inl e)
  then obtain code msg where e: "h (nq_Method q) (nq_Params q) = Inl (code, msg)" by (cases e) auto
  then have "- (2 ^ 63) \<le> code" "code < 2 ^ 63" "valid_utf8 msg"
    using assms [unfolded node_ok_def, rule_format, of "nq_Method q" "nq_Params q"] by simp_all
  with e show ?thesis
    by (simp add: node_reply_def json_Unmarshal_Marshal un_rpcResponse_def un_ptr_def un_RPCError_def un_int_def
        zero_rpcResponse_def zero_RPCError_def json_simps)
next
  case (Inr v)
  then have "member_text v"
    using assms [unfolded node_ok_def, rule_format, of "nq_Method q" "nq_Params q"] by simp
  with Inr show ?thesis
    by (simp add: node_reply_def json_Unmarshal_Marshal member_text_def un_rpcResponse_def un_raw_def
        zero_rpcResponse_def json_simps)
qed

lemma postData_node:
  assumes "node_ok h" and "valid_utf8 method" and "\<And>p. hasParams \<Longrightarrow> params = Some p \<Longrightarrow> member_text p"
  shows "postData (node_client h) method (map_option Inr params) hasParams =
    (case h method (if hasParams then params else None) of
       Inl (code, msg) \<Rightarrow> Inl (RPCErr code msg) | Inr v \<Rightarrow> Inr (Some v))"
proof -
  let ?p = "if hasParams then params else None"
  have "member_text p" if "?p = Some p" for p
    using that assms(3) by (simp split: if_splits)
  note req = request_reaches_node [OF assms(2), of ?p h "nodeURL (node_client h)"
      "''application/json''", OF this]
  have "mar_rpcRequest (let r = \<lparr>rq_JSONRPC = ''2.0'', rq_ID = ''curlycurl'', rq_Method = method, rq_Params = None\<rparr>
        in if hasParams then r\<lparr>rq_Params := map_option Inr params\<rparr> else r) =
      Inr (JObj ([(''jsonrpc'', JStr ''2.0''), (''id'', JStr ''curlycurl''), (''method'', JStr method)] @
         (case ?p of None \<Rightarrow> [] | Some p \<Rightarrow> [(''params'', p)])))"
    by (cases params) (simp_all add: mar_rpcRequest_def)
  then have "postData (node_client h) method (map_option Inr params) hasParams =
      (case json_Unmarshal un_rpcResponse (json_Marshal (node_reply h \<lparr>nq_Method = method, nq_Params = ?p\<rparr>))
              zero_rpcResponse of
         Inl err \<Rightarrow> Inl (WrapErr ''parsing node response: %w'' err)
       | Inr resp \<Rightarrow> (case rr_Error resp of
            Some e \<Rightarrow> Inl (RPCErr (re_Code e) (re_Message e)) | None \<Rightarrow> Inr (rr_Result resp)))"
    by (simp only: postData_def Let_def req sum.case http_response.simps) simp
  then show ?thesis
    by (simp add: reply_reaches_client [OF assms(1)] split: sum.split)
qed

lemma call_node:
  assumes "node_ok h" and "valid_utf8 method" and "member_text p"
  shows "call un z (node_client h) method (Inr p) =
    (case h method (Some p) of
       Inl (code, msg) \<Rightarrow> Inl (RPCErr code msg)
     | Inr v \<Rightarrow> (case un v z of
         Inl err \<Rightarrow> Inl (WrapErr (''unmarshaling '' @ method @ '' result: %w'') err) | Inr x \<Rightarrow> Inr x))"
  using postData_node [OF assms(1,2), of True "Some p"] assms(3)
  by (simp add: call_def unmarshalRaw_def split: sum.split prod.split)

lemma callNoParams_node:
  assumes "node_ok h" and "valid_utf8 method"
  shows "callNoParams un z (node_client h) method =
    (case h method None of
       Inl (code, msg) \<Rightarrow> Inl (RPCErr code msg)
     | Inr v \<Rightarrow> (case un v z of
         Inl err \<Rightarrow> Inl (WrapErr (''unmarshaling '' @ method @ '' result: %w'') err) | Inr x \<Rightarrow> Inr x))"
  using postData_node [OF assms, of False None]
  by (simp add: callNoParams_def unmarshalRaw_def split: sum.split prod.split)

lemma transaction_text: "member_text (mar_RuntimeTransaction tx)"
  by (simp add: member_text_def mar_defs json_text_simps maxNestingDepth_def)

lemma SendTransaction_node:
  assumes "node_ok h"
  shows "\<exists>params. un_RuntimeTransaction params zero_RuntimeTransaction = Inr tx \<and>
    SendTransaction (node_client h) tx =
      (case h ''send_transaction'' (Some params) of
         Inl (code, msg) \<Rightarrow> Inl (RPCErr code msg)
       | Inr v \<Rightarrow> (case un_string v [] of
           Inl err \<Rightarrow> Inl (WrapErr ''unmarshaling send_transaction result: %w'' err) | Inr x \<Rightarrow> Inr x))"
  by (rule exI [of _ "mar_RuntimeTransaction tx"])
    (simp add: SendTransaction_def MethodSendTransaction_def call_node assms transaction_text json_simps
      split: sum.split)

text \<open>A node that answers the queries of one chain of blocks, for the witnesses.\<close>

definition sampleBlock :: Block where
  "sampleBlock = zero_Block\<lparr>bk_BlockHeight := 5, bk_Transactions := [copy_into [1, 2]]\<rparr>"

definition sampleNode :: node_handler where
  "sampleNode m p =
     (if m = MethodGetBlock then
        (if p = Some (JArr [JStr ''aa'']) then Inr (mar_Block sampleBlock) else Inl (404, ''not found''))
      else if m = MethodSendTransaction then Inr (JStr ''deadbeef'')
      else Inl (- 32601, ''method not found''))"

lemma sampleNode_ok: "node_ok sampleNode"
  by (auto simp: node_ok_def sampleNode_def member_text_def sampleBlock_def zero_Block_def mar_defs json_text_simps
      maxNestingDepth_def)

section \<open>Errors that are not the node's\<close>

text \<open>
  One exchange with a node: post the encoded request, read the body, check the status, parse.
\<close>

definition exchange :: "Client \<Rightarrow> string \<Rightarrow> json \<Rightarrow> rpcResponse result" where
  "exchange c method p =
     (case httpClient c (nodeURL c) ''application/json''
         (json_Marshal (JObj [(''jsonrpc'', JStr ''2.0''), (''id'', JStr ''curlycurl''), (''method'', JStr method),
            (''params'', p)])) of
        Inl err \<Rightarrow> Inl (WrapErr ''posting to node: %w'' err)
      | Inr resp \<Rightarrow>
          (case hr_Body resp of
             Inl err \<Rightarrow> Inl (WrapErr ''reading node response: %w'' err)
           | Inr body \<Rightarrow>
               if hr_StatusCode resp \<noteq> 200
               then Inl (Errorf ''node returned HTTP %d: %s'' [FInt (hr_StatusCode resp), FBytes body])
               else (case json_Unmarshal un_rpcResponse body zero_rpcResponse of
                       Inl err \<Rightarrow> Inl (WrapErr ''parsing node response: %w'' err)
                     | Inr r \<Rightarrow> Inr r)))"

lemma call_exchange:
  "call un z c method (Inr p) =
     (case exchange c method p of
        Inl err \<Rightarrow> Inl err
      | Inr r \<Rightarrow>
          (case rr_Error r of
             Some e \<Rightarrow> Inl (RPCErr (re_Code e) (re_Message e))
           | None \<Rightarrow>
               (case unmarshalRaw un z (rr_Result r) of
                  Inl err \<Rightarrow> Inl (WrapErr (''unmarshaling '' @ method @ '' result: %w'') err)
                | Inr out \<Rightarrow> Inr out)))"
  by (auto simp: call_def postData_def exchange_def mar_rpcRequest_def Let_def split: sum.split option.split)

text \<open>Errors of the HTTP client are its own, not \<open>RPCError\<close>s of this package.\<close>

definition plain_transport :: "Client \<Rightarrow> bool" where
  "plain_transport c \<longleftrightarrow>
     (\<forall>url ctype body.
        case httpClient c url ctype body of
          Inl err \<Rightarrow> as_RPCError err = None
        | Inr resp \<Rightarrow> (case hr_Body resp of Inl err \<Rightarrow> as_RPCError err = None | Inr _ \<Rightarrow> True))"

text \<open>Nor are the errors of the decoders.\<close>

definition plain_un :: "'a unmarshaler \<Rightarrow> bool" where
  "plain_un un \<longleftrightarrow> (\<forall>v x e. un v x = Inl e \<longrightarrow> as_RPCError e = None)"

named_theorems plain_intros \<open>decoders whose errors are their own\<close>

lemma plain_scalars [plain_intros]: "plain_un un_string" "plain_un un_bool" "plain_un un_uint" "plain_un un_int" "plain_un un_raw"
  by (auto simp: plain_un_def un_string_def un_bool_def un_uint_def un_int_def un_raw_def typeError_def
      split: json.splits if_splits)

lemma plain_ptr [plain_intros]: "plain_un un \<Longrightarrow> plain_un (un_ptr z un)"
  unfolding plain_un_def un_ptr_def by (auto split: if_splits sum.splits)

lemma plain_slice [plain_intros]:
  assumes "plain_un un"
  shows "plain_un (un_slice z un)"
proof -
  have "as_RPCError e = None" if "un_elems z un vs = Inl e" for vs e
    using that assms by (induction vs) (auto simp: plain_un_def split: sum.splits)
  then show ?thesis
    by (auto simp: plain_un_def un_slice_def typeError_def split: json.splits)
qed

lemma plain_array [plain_intros]: "plain_un un_array"
proof -
  have "as_RPCError e = None" if "un_array_elems vs bs = Inl e" for vs bs e
    using that plain_scalars(3) by (induction vs bs rule: un_array_elems.induct) (auto simp: plain_un_def split: sum.splits)
  then show ?thesis
    by (auto simp: plain_un_def un_array_def typeError_def split: json.splits sum.splits)
qed

lemma plain_fld [plain_intros]: "plain_un un \<Longrightarrow> plain_un (fld un get upd)"
  by (auto simp: plain_un_def fld_def split: sum.splits)

lemma plain_struct [plain_intros]:
  assumes "list_all (plain_un \<circ> snd) fs"
  shows "plain_un (un_struct fs)"
proof -
  have field: "plain_un f" if "lookup_field fs k = Some f" for k f
    using that assms by (fastforce simp: lookup_field_def list_all_iff dest!: map_of_SomeD split: option.splits)
  have "as_RPCError e = None" if "un_members fs ms r = Inl e" for ms r e
    using that
  proof (induction ms arbitrary: r)
    case (Cons m ms)
    obtain k v where "m = (k, v)" by (cases m)
    with Cons field [of k] show ?case
      by (auto simp: plain_un_def split: option.splits sum.splits)
  qed simp
  then show ?thesis
    by (auto simp: plain_un_def un_struct_def typeError_def split: json.splits)
qed

lemma plain_Bytes [plain_intros]: "plain_un Bytes_UnmarshalJSON"
  using plain_slice [OF plain_scalars(4)]
  by (auto simp: plain_un_def Bytes_UnmarshalJSON_def bytesInRange_Inl split: sum.splits option.splits)

lemma plain_MessageHeader [plain_intros]: "plain_un un_MessageHeader"
  by (simp add: un_MessageHeader_def plain_intros)

lemma plain_SanitizedInstruction [plain_intros]: "plain_un un_SanitizedInstruction"
  by (simp add: un_SanitizedInstruction_def plain_intros)

lemma plain_SanitizedMessage [plain_intros]: "plain_un un_SanitizedMessage"
  by (simp add: un_SanitizedMessage_def plain_intros)

lemma plain_RuntimeTransaction [plain_intros]: "plain_un un_RuntimeTransaction"
  by (simp add: un_RuntimeTransaction_def plain_intros)

lemma plain_ProcessedTransactionStatus [plain_intros]: "plain_un un_ProcessedTransactionStatus"
  by (simp add: un_ProcessedTransactionStatus_def plain_intros)

lemma plain_RollbackStatus [plain_intros]: "plain_un un_RollbackStatus"
  by (simp add: un_RollbackStatus_def plain_intros)

lemma plain_InnerInstruction [plain_intros]: "plain_un un_InnerInstruction"
  by (simp add: un_InnerInstruction_def plain_intros)

lemma plain_ProcessedTransaction [plain_intros]: "plain_un un_ProcessedTransaction"
  by (simp add: un_ProcessedTransaction_def plain_intros)

lemma plain_Block [plain_intros]: "plain_un un_Block"
  by (simp add: un_Block_def plain_intros)

lemma plain_FullBlock [plain_intros]: "plain_un un_FullBlock"
  by (simp add: un_FullBlock_def plain_intros)

lemma plain_RPCError [plain_intros]: "plain_un un_RPCError"
  by (simp add: un_RPCError_def plain_intros)

lemma plain_rpcResponse [plain_intros]: "plain_un un_rpcResponse"
  by (simp add: un_rpcResponse_def plain_intros)

lemma exchange_plain:
  assumes "plain_transport c" and "exchange c method p = Inl e"
  shows "as_RPCError e = None"
proof -
  have "as_RPCError err = None" if "json_Unmarshal un_rpcResponse body zero_rpcResponse = Inl err" for body err
    using that plain_rpcResponse by (auto simp: json_Unmarshal_def plain_un_def syntaxError_def split: option.splits)
  moreover have "as_RPCError err = None" if "httpClient c url ctype body = Inl err" for url ctype body err
    using assms(1) [unfolded plain_transport_def, rule_format, of url ctype body] that by simp
  moreover have "as_RPCError err = None" if "httpClient c url ctype body = Inr resp" "hr_Body resp = Inl err"
    for url ctype body resp err
    using assms(1) [unfolded plain_transport_def, rule_format, of url ctype body] that by simp
  ultimately show ?thesis
    using assms(2) by (auto simp: exchange_def split: sum.splits if_splits)
qed

section \<open>Properties\<close>

text \<open>
  C25 (error). Lookups, over any HTTP client. Nil without an error means exactly that the node answered
  with status 200 and either its missing-entity code 404 or a null result; a value means that it
  answered with a result that decodes to it. Everything else is an error and is passed on: a failed
  post, a failed read, any other HTTP status (404 among them), a body that does not parse, every other
  error of the node, and a result that is absent or does not decode.
\<close>

theorem lookup_outcomes:
  assumes "plain_transport c" and "plain_un un"
  shows "(callNilOnNotFound un z c method (Inr p) = Inr None \<longleftrightarrow>
      (\<exists>r. exchange c method p = Inr r \<and>
         (case rr_Error r of Some e \<Rightarrow> re_Code e = 404 | None \<Rightarrow> rr_Result r = Some JNull))) \<and>
    (callNilOnNotFound un z c method (Inr p) = Inr (Some x) \<longleftrightarrow>
      (\<exists>v. exchange c method p = Inr \<lparr>rr_Result = Some v, rr_Error = None\<rparr> \<and> v \<noteq> JNull \<and> un v z = Inr x)) \<and>
    (callNilOnNotFound un z c method (Inr p) = Inl err \<longleftrightarrow>
      (case exchange c method p of
         Inl e \<Rightarrow> err = e
       | Inr r \<Rightarrow>
           (case rr_Error r of
              Some e \<Rightarrow> re_Code e \<noteq> 404 \<and> err = RPCErr (re_Code e) (re_Message e)
            | None \<Rightarrow>
                (case rr_Result r of
                   None \<Rightarrow> err = WrapErr (''unmarshaling '' @ method @ '' result: %w'') syntaxError
                 | Some v \<Rightarrow> v \<noteq> JNull \<and>
                     (\<exists>e. un v z = Inl e \<and> err = WrapErr (''unmarshaling '' @ method @ '' result: %w'') e)))))"
proof (cases "exchange c method p")
  case (Inl e)
  then have "call (un_ptr z un) None c method (Inr p) = Inl e" "\<not> isNotFound e"
    using exchange_plain [OF assms(1)] by (simp_all add: call_exchange isNotFound_def)
  then show ?thesis
    using Inl by (auto simp: callNilOnNotFound_def)
next
  case (Inr r)
  have "\<not> isNotFound e" if "un v z = Inl e" for v e
    using assms(2) that by (auto simp: plain_un_def isNotFound_def)
  then show ?thesis
    using Inr
    by (cases r; cases "rr_Error r"; cases "rr_Result r")
      (auto simp: callNilOnNotFound_def call_exchange unmarshalRaw_def un_ptr_def isNotFound_def rpcNotFoundCode_def
        syntaxError_def split: sum.splits)
qed

text \<open>A server that answers every request with one status and body.\<close>

definition fixedServer :: "int \<Rightarrow> json \<Rightarrow> Client" where
  "fixedServer status v =
     \<lparr>nodeURL = ''http://localhost:9002'',
      httpClient = (\<lambda>url ctype body. Inr \<lparr>hr_StatusCode = status, hr_Body = Inr (json_Marshal v)\<rparr>)\<rparr>"

lemma fixedServer_plain: "plain_transport (fixedServer status v)"
  by (simp add: plain_transport_def fixedServer_def)

theorem lookup_outcomes_witness:
  "(\<exists>err. GetBlock (fixedServer 404 JNull) ''aa'' = Inl err) \<and>
   GetBlock (fixedServer 200 (JObj [(''result'', JNull)])) ''aa'' = Inr None"
proof -
  have "exchange (fixedServer 404 JNull) MethodGetBlock (JArr [JStr ''aa'']) =
      Inl (Errorf ''node returned HTTP %d: %s'' [FInt 404, FBytes (json_Marshal JNull)])"
    by (simp add: exchange_def fixedServer_def)
  moreover have "exchange (fixedServer 200 (JObj [(''result'', JNull)])) MethodGetBlock (JArr [JStr ''aa'']) =
      Inr \<lparr>rr_Result = Some JNull, rr_Error = None\<rparr>"
    by (simp add: exchange_def fixedServer_def json_Unmarshal_Marshal un_rpcResponse_def un_raw_def
        zero_rpcResponse_def json_simps)
  ultimately show ?thesis
    using lookup_outcomes [OF fixedServer_plain plain_Block] unfolding GetBlock_def by auto
qed

text \<open>
  Over any HTTP client a request yields a raw result exactly when the bytes of the
  encoded request were posted, answered with status 200 and a body that is JSON and carries no error,
  and that body's result member is the raw result; no other answer of the server is ever taken for a
  result.
\<close>

theorem postData_result_iff:
  "postData c method params hasParams = Inr raw \<longleftrightarrow>
     (\<exists>req resp body r.
        mar_rpcRequest \<lparr>rq_JSONRPC = ''2.0'', rq_ID = ''curlycurl'', rq_Method = method,
          rq_Params = (if hasParams then params else None)\<rparr> = Inr req \<and>
        httpClient c (nodeURL c) ''application/json'' (json_Marshal req) = Inr resp \<and>
        hr_StatusCode resp = 200 \<and> hr_Body resp = Inr body \<and>
        json_Unmarshal un_rpcResponse body zero_rpcResponse = Inr r \<and> rr_Error r = None \<and> rr_Result r = raw)"
  by (auto simp: postData_def Let_def split: sum.splits option.splits if_splits)

text \<open>
  Creating an account succeeds exactly when a key was generated and the node returned
  an address for its x-only key; the account then carries that address, the private key in hex, and a
  public key text that parses back to the x-only key.
\<close>

theorem CreateNewAccount_result:
  "CreateNewAccount L rand c = Inr acct \<longleftrightarrow>
     (\<exists>priv address. NewPrivateKey L rand = Inr priv \<and> GetAccountAddress c (XOnlyPubkey L priv) = Inr address \<and>
        DecodeString (ca_Privkey acct) = Inr (lib_SerializePrivKey L priv) \<and>
        map hex_lower (ca_Privkey acct) = ca_Privkey acct \<and>
        ca_Pubkey acct = Pubkey_String (XOnlyPubkey L priv) \<and>
        PubkeyFromHex (ca_Pubkey acct) = Inr (XOnlyPubkey L priv) \<and> ca_Address acct = address)"
proof -
  have hex: "EncodeToString b = s \<longleftrightarrow> DecodeString s = Inr b \<and> map hex_lower s = s" for s b
    using DecodeString_Inr_iff [of s b] by auto
  show ?thesis
    by (cases acct) (auto simp: CreateNewAccount_def Let_def Pubkey_String_def PubkeyFromHex_def hex
        hex [THEN eq_commute [THEN trans]] split: sum.splits)
qed

end
