(* ===== verification/Arch_Rpc_Node.thy ===== *)
theory Arch_Rpc_Node
  imports Arch_Rpc
begin

text \<open>
  The client against a node with a typed interface. A node offers one function per method; it decodes
  the parameters of a request, calls the function and encodes what it returns. The theorem is that the
  client makes the wire invisible: every method of \<open>Client\<close> is a call of the node's function.
\<close>

section \<open>The interface of a node\<close>

text \<open>An answer is a value or an error code with a message.\<close>

type_synonym 'a answer = "(int \<times> string) + 'a"

record node_api =
  api_SendTransaction :: "RuntimeTransaction \<Rightarrow> string answer"
  api_SendTransactions :: "RuntimeTransaction list \<Rightarrow> string list answer"
  api_ReadAccountInfo :: "Pubkey \<Rightarrow> AccountInfo answer"
  api_GetAccountAddress :: "Pubkey \<Rightarrow> string answer"
  api_GetBestBlockHash :: "string answer"
  api_GetBestFinalizedBlockHash :: "string answer"
  api_GetBlock :: "string \<Rightarrow> Block option answer"
  api_GetBlockByHeight :: "u64 \<Rightarrow> Block option answer"
  api_GetFullBlockByHash :: "string \<Rightarrow> FullBlock option answer"
  api_GetFullBlockByHeight :: "u64 \<Rightarrow> FullBlock option answer"
  api_GetBlockCount :: "u64 answer"
  api_GetBlockHash :: "u64 \<Rightarrow> string answer"
  api_GetProcessedTransaction :: "string \<Rightarrow> ProcessedTransaction option answer"
  api_GetProgramAccounts :: "Pubkey \<Rightarrow> AccountFilter list option \<Rightarrow> ProgramAccount list answer"
  api_RequestAirdrop :: "Pubkey \<Rightarrow> json answer"
  api_CreateAccountWithFaucet :: "Pubkey \<Rightarrow> RuntimeTransaction answer"
  api_GetTransactionsByBlock :: "BlockTransactionsParams \<Rightarrow> ProcessedTransaction list answer"
  api_GetTransactionsByIds :: "string list \<Rightarrow> ProcessedTransaction option list answer"
  api_RecentTransactions :: "TransactionListParams \<Rightarrow> ProcessedTransaction list answer"
  api_GetMultipleAccounts :: "Pubkey list \<Rightarrow> AccountInfoWithPubkey option list answer"
  api_GetNetworkPubkey :: "string answer"
  api_CheckPreAnchorConflict :: "Pubkey list \<Rightarrow> bool answer"
  api_GetTransactionStatus :: "string list \<Rightarrow> ProcessedTransactionStatus option list answer"

definition invalid_params :: "json answer" where
  "invalid_params = Inl (- 32602, ''invalid params'')"

definition no_params :: "('r \<Rightarrow> json) \<Rightarrow> 'r answer \<Rightarrow> json option \<Rightarrow> json answer" where
  "no_params mar a p = (if p = None then map_sum id mar a else invalid_params)"

definition on_value :: "'p unmarshaler \<Rightarrow> 'p \<Rightarrow> ('p \<Rightarrow> json answer) \<Rightarrow> json \<Rightarrow> json answer" where
  "on_value un z f v = (case un v z of Inl err \<Rightarrow> invalid_params | Inr x \<Rightarrow> f x)"

definition with_params ::
  "'p unmarshaler \<Rightarrow> 'p \<Rightarrow> ('r \<Rightarrow> json) \<Rightarrow> ('p \<Rightarrow> 'r answer) \<Rightarrow> json option \<Rightarrow> json answer" where
  "with_params un z mar f p =
     (case p of None \<Rightarrow> invalid_params | Some v \<Rightarrow> on_value un z (map_sum id mar \<circ> f) v)"

text \<open>A block is asked for by a key alone or by a key and the word \<open>full\<close>.\<close>

definition block_query ::
  "'k unmarshaler \<Rightarrow> 'k \<Rightarrow> ('k \<Rightarrow> Block option answer) \<Rightarrow> ('k \<Rightarrow> FullBlock option answer) \<Rightarrow>
   json option \<Rightarrow> json answer" where
  "block_query un z plain full p =
     (case p of
        Some (JArr [k]) \<Rightarrow> on_value un z (map_sum id (mar_ptr mar_Block) \<circ> plain) k
      | Some (JArr [k, JStr how]) \<Rightarrow>
          if how = ''full'' then on_value un z (map_sum id (mar_ptr mar_FullBlock) \<circ> full) k
          else if how = ''signatures'' then on_value un z (map_sum id (mar_ptr mar_Block) \<circ> plain) k
          else invalid_params
      | _ \<Rightarrow> invalid_params)"

definition accounts_query ::
  "(Pubkey \<Rightarrow> AccountFilter list option \<Rightarrow> ProgramAccount list answer) \<Rightarrow> json option \<Rightarrow> json answer" where
  "accounts_query f p =
     (case p of
        Some (JArr [k, fs]) \<Rightarrow>
          on_value un_array (copy_into [])
            (\<lambda>key. on_value (un_ptr [] (un_slice zero_AccountFilter un_AccountFilter)) None
               (map_sum id (mar_slice mar_ProgramAccount) \<circ> f key) fs) k
      | _ \<Rightarrow> invalid_params)"

definition un_txids :: "string list unmarshaler" where
  "un_txids = un_struct [(''txids'', un_slice [] un_string)]"

definition un_Pubkeys :: "Pubkey list unmarshaler" where
  "un_Pubkeys = un_slice (copy_into []) un_array"

definition api_table :: "node_api \<Rightarrow> (string \<times> (json option \<Rightarrow> json answer)) list" where
  "api_table a =
     [(''read_account_info'', with_params un_array (copy_into []) mar_AccountInfo (api_ReadAccountInfo a)),
      (''send_transaction'',
        with_params un_RuntimeTransaction zero_RuntimeTransaction JStr (api_SendTransaction a)),
      (''send_transactions'',
        with_params (un_slice zero_RuntimeTransaction un_RuntimeTransaction) [] (mar_slice JStr) (api_SendTransactions a)),
      (''get_block'', block_query un_string [] (api_GetBlock a) (api_GetFullBlockByHash a)),
      (''get_block_by_height'', block_query un_uint 0 (api_GetBlockByHeight a) (api_GetFullBlockByHeight a)),
      (''get_block_count'', no_params mar_uint (api_GetBlockCount a)),
      (''get_block_hash'', with_params un_uint 0 JStr (api_GetBlockHash a)),
      (''get_best_block_hash'', no_params JStr (api_GetBestBlockHash a)),
      (''get_best_finalized_block_hash'', no_params JStr (api_GetBestFinalizedBlockHash a)),
      (''get_processed_transaction'',
        with_params un_string [] (mar_ptr mar_ProcessedTransaction) (api_GetProcessedTransaction a)),
      (''get_account_address'', with_params un_array (copy_into []) JStr (api_GetAccountAddress a)),
      (''get_program_accounts'', accounts_query (api_GetProgramAccounts a)),
      (''request_airdrop'', with_params un_array (copy_into []) id (api_RequestAirdrop a)),
      (''create_account_with_faucet'',
        with_params un_array (copy_into []) mar_RuntimeTransaction (api_CreateAccountWithFaucet a)),
      (''get_transactions_by_block'',
        with_params un_BlockTransactionsParams zero_BlockTransactionsParams (mar_slice mar_ProcessedTransaction)
          (api_GetTransactionsByBlock a)),
      (''get_transactions_by_ids'',
        with_params un_txids [] (mar_slice (mar_ptr mar_ProcessedTransaction)) (api_GetTransactionsByIds a)),
      (''recent_transactions'',
        with_params un_TransactionListParams zero_TransactionListParams (mar_slice mar_ProcessedTransaction)
          (api_RecentTransactions a)),
      (''get_multiple_accounts'',
        with_params un_Pubkeys [] (mar_slice (mar_ptr mar_AccountInfoWithPubkey)) (api_GetMultipleAccounts a)),
      (''get_network_pubkey'', no_params JStr (api_GetNetworkPubkey a)),
      (''check_pre_anchor_conflict'', with_params un_Pubkeys [] JBool (api_CheckPreAnchorConflict a)),
      (''get_transaction_status'',
        with_params un_txids [] (mar_slice (mar_ptr mar_ProcessedTransactionStatus)) (api_GetTransactionStatus a))]"

definition api_handler :: "node_api \<Rightarrow> node_handler" where
  "api_handler a m p =
     (case map_of (api_table a) m of None \<Rightarrow> Inl (- 32601, ''method not found'') | Some f \<Rightarrow> f p)"

definition api_client :: "node_api \<Rightarrow> Client" where
  "api_client a = node_client (api_handler a)"

section \<open>What the answers become\<close>

fun of_answer :: "'a answer \<Rightarrow> 'a result" where
  "of_answer (Inl (code, msg)) = Inl (RPCErr code msg)"
| "of_answer (Inr x) = Inr x"

fun of_lookup :: "'a option answer \<Rightarrow> 'a option result" where
  "of_lookup (Inl (code, msg)) = (if code = 404 then Inr None else Inl (RPCErr code msg))"
| "of_lookup (Inr x) = Inr x"

definition slice_of :: "'a list option \<Rightarrow> 'a list" where
  "slice_of xs = (case xs of None \<Rightarrow> [] | Some ys \<Rightarrow> ys)"

context json_type
begin

lemma call_answers:
  assumes "node_ok h" and "valid_utf8 m" and "member_text p" and "h m (Some p) = map_sum id mar ans"
  shows "call un zero (node_client h) m (Inr p) = of_answer ans"
  by (simp add: call_node assms un_mar split: sum.split) (cases ans; auto simp: un_mar)

lemma callNoParams_answers:
  assumes "node_ok h" and "valid_utf8 m" and "h m None = map_sum id mar ans"
  shows "callNoParams un zero (node_client h) m = of_answer ans"
  by (simp add: callNoParams_node assms un_mar split: sum.split) (cases ans; auto simp: un_mar)

lemma lookup_answers:
  assumes "node_ok h" and "valid_utf8 m" and "member_text p" and "h m (Some p) = map_sum id (mar_ptr mar) ans"
  shows "callNilOnNotFound un zero (node_client h) m (Inr p) = of_lookup ans"
  by (cases ans) (auto simp: callNilOnNotFound_def call_node assms un_ptr_mar isNotFound_def rpcNotFoundCode_def)

end

text \<open>Answers a node can give: codes are Go \<open>int\<close>s, texts are UTF-8.\<close>

definition answer_ok :: "('a \<Rightarrow> bool) \<Rightarrow> 'a answer \<Rightarrow> bool" where
  "answer_ok P ans \<longleftrightarrow>
     (case ans of
        Inl (code, msg) \<Rightarrow> - (2 ^ 63) \<le> code \<and> code < 2 ^ 63 \<and> valid_utf8 msg
      | Inr x \<Rightarrow> P x)"

definition utf8_status :: "ProcessedTransactionStatus \<Rightarrow> bool" where
  "utf8_status st \<longleftrightarrow> valid_utf8 (st_Type st) \<and> valid_utf8 (st_Message st)"

definition api_ok :: "node_api \<Rightarrow> bool" where
  "api_ok a \<longleftrightarrow>
     (\<forall>tx. answer_ok valid_utf8 (api_SendTransaction a tx)) \<and>
     (\<forall>txs. answer_ok (list_all valid_utf8) (api_SendTransactions a txs)) \<and>
     (\<forall>k. answer_ok (\<lambda>ai. valid_utf8 (ai_Utxo ai)) (api_ReadAccountInfo a k)) \<and>
     (\<forall>k. answer_ok valid_utf8 (api_GetAccountAddress a k)) \<and>
     answer_ok valid_utf8 (api_GetBestBlockHash a) \<and>
     answer_ok valid_utf8 (api_GetBestFinalizedBlockHash a) \<and>
     (\<forall>h. answer_ok (\<lambda>_. True) (api_GetBlock a h)) \<and>
     (\<forall>n. answer_ok (\<lambda>_. True) (api_GetBlockByHeight a n)) \<and>
     (\<forall>h. answer_ok (pred_option (\<lambda>b. list_all utf8_ProcessedTransaction (fb_Transactions b)))
        (api_GetFullBlockByHash a h)) \<and>
     (\<forall>n. answer_ok (pred_option (\<lambda>b. list_all utf8_ProcessedTransaction (fb_Transactions b)))
        (api_GetFullBlockByHeight a n)) \<and>
     answer_ok (\<lambda>_. True) (api_GetBlockCount a) \<and>
     (\<forall>n. answer_ok valid_utf8 (api_GetBlockHash a n)) \<and>
     (\<forall>t. answer_ok (pred_option utf8_ProcessedTransaction) (api_GetProcessedTransaction a t)) \<and>
     (\<forall>k fs. answer_ok (list_all (\<lambda>pa. valid_utf8 (ai_Utxo (pa_Account pa)))) (api_GetProgramAccounts a k fs)) \<and>
     (\<forall>k. answer_ok member_text (api_RequestAirdrop a k)) \<and>
     (\<forall>k. answer_ok (\<lambda>_. True) (api_CreateAccountWithFaucet a k)) \<and>
     (\<forall>q. answer_ok (list_all utf8_ProcessedTransaction) (api_GetTransactionsByBlock a q)) \<and>
     (\<forall>ts. answer_ok (list_all (pred_option utf8_ProcessedTransaction)) (api_GetTransactionsByIds a ts)) \<and>
     (\<forall>q. answer_ok (list_all utf8_ProcessedTransaction) (api_RecentTransactions a q)) \<and>
     (\<forall>ks. answer_ok (list_all (pred_option (\<lambda>ap. valid_utf8 (ap_Utxo ap)))) (api_GetMultipleAccounts a ks)) \<and>
     answer_ok valid_utf8 (api_GetNetworkPubkey a) \<and>
     (\<forall>ks. answer_ok (\<lambda>_. True) (api_CheckPreAnchorConflict a ks)) \<and>
     (\<forall>ts. answer_ok (list_all (pred_option utf8_status)) (api_GetTransactionStatus a ts))"

section \<open>The handler conforms\<close>

lemma node_ok_answers: "node_ok h \<longleftrightarrow> (\<forall>m p. answer_ok member_text (h m p))"
  by (simp add: node_ok_def answer_ok_def)

lemma invalid_params_ok [simp]: "answer_ok P invalid_params"
  by (simp add: answer_ok_def invalid_params_def)

lemma answer_ok_map: "answer_ok P ans \<Longrightarrow> (\<And>x. P x \<Longrightarrow> member_text (mar x)) \<Longrightarrow> answer_ok member_text (map_sum id mar ans)"
  by (cases ans) (auto simp: answer_ok_def)

lemma no_params_ok:
  "answer_ok P ans \<Longrightarrow> (\<And>x. P x \<Longrightarrow> member_text (mar x)) \<Longrightarrow> answer_ok member_text (no_params mar ans p)"
  by (simp add: no_params_def answer_ok_map)

lemma on_value_ok: "(\<And>x. answer_ok P (f x)) \<Longrightarrow> answer_ok P (on_value un z f v)"
  by (simp add: on_value_def split: sum.split)

lemma with_params_ok:
  "(\<And>x. answer_ok P (f x)) \<Longrightarrow> (\<And>x. P x \<Longrightarrow> member_text (mar x)) \<Longrightarrow> answer_ok member_text (with_params un z mar f p)"
  by (auto simp: with_params_def intro!: on_value_ok answer_ok_map split: option.split)

context json_wire
begin

lemma member_texts:
  "ok x \<Longrightarrow> member_text (mar x)"
  "pred_option ok p \<Longrightarrow> member_text (mar_ptr mar p)"
  "list_all ok xs \<Longrightarrow> member_text (mar_slice mar xs)"
  "list_all (pred_option ok) ps \<Longrightarrow> member_text (mar_slice (mar_ptr mar) ps)"
proof -
  have "Suc depth \<le> maxNestingDepth - 1" "depth \<le> maxNestingDepth - 1"
    using shallow by (simp_all add: maxNestingDepth_def)
  note deep = this
  show "ok x \<Longrightarrow> member_text (mar x)"
    unfolding member_text_def by (rule wire_text [OF _ deep(2)])
  then show "pred_option ok p \<Longrightarrow> member_text (mar_ptr mar p)"
    using wire_text [OF _ deep(2)] by (cases p) (simp_all add: member_text_def json_text_simps)
  show "list_all ok xs \<Longrightarrow> member_text (mar_slice mar xs)"
    unfolding member_text_def by (rule slice_text [OF _ deep(1)])
  show "list_all (pred_option ok) ps \<Longrightarrow> member_text (mar_slice (mar_ptr mar) ps)"
    unfolding member_text_def by (rule slice_ptr_text [OF _ deep(1)])
qed

end

lemmas wire_members =
  wire_string.member_texts wire_bool.member_texts wire_uint.member_texts wire_RuntimeTransaction.member_texts
  wire_AccountInfo.member_texts wire_AccountInfoWithPubkey.member_texts wire_ProgramAccount.member_texts
  wire_AccountFilter.member_texts wire_ProcessedTransactionStatus.member_texts [folded utf8_status_def]
  wire_ProcessedTransaction.member_texts wire_Block.member_texts wire_FullBlock.member_texts
  wire_BlockTransactionsParams.member_texts wire_TransactionListParams.member_texts

lemma block_query_ok:
  assumes "\<And>k. answer_ok (\<lambda>_. True) (plain k)"
    and "\<And>k. answer_ok (pred_option (\<lambda>b. list_all utf8_ProcessedTransaction (fb_Transactions b))) (full k)"
  shows "answer_ok member_text (block_query un z plain full p)"
proof -
  have "answer_ok member_text (map_sum id (mar_ptr mar_Block) (plain k))" for k
    by (rule answer_ok_map [OF assms(1)]) (simp add: wire_members option.pred_True)
  moreover have "answer_ok member_text (map_sum id (mar_ptr mar_FullBlock) (full k))" for k
    by (rule answer_ok_map [OF assms(2)]) (simp add: wire_members)
  ultimately show ?thesis
    by (simp add: block_query_def on_value_ok split: option.split json.split list.split)
qed

lemma accounts_query_ok:
  assumes "\<And>k fs. answer_ok (list_all (\<lambda>pa. valid_utf8 (ai_Utxo (pa_Account pa)))) (f k fs)"
  shows "answer_ok member_text (accounts_query f p)"
proof -
  have "answer_ok member_text (map_sum id (mar_slice mar_ProgramAccount) (f k fs))" for k fs
    by (rule answer_ok_map [OF assms]) (simp add: wire_members)
  then show ?thesis
    by (simp add: accounts_query_def on_value_ok split: option.split json.split list.split)
qed

lemma api_handler_ok:
  assumes "api_ok a"
  shows "node_ok (api_handler a)"
proof -
  note ok = assms [unfolded api_ok_def]
  have "\<forall>(n, f) \<in> set (api_table a). \<forall>p. answer_ok member_text (f p)"
    unfolding api_table_def
    using ok
    by (auto intro!: block_query_ok accounts_query_ok intro: with_params_ok no_params_ok wire_members)
  then have "answer_ok member_text (f p)" if "map_of (api_table a) m = Some f" for m f p
    using map_of_SomeD [OF that] by blast
  moreover have "answer_ok member_text (Inl (- 32601, ''method not found''))"
    by (simp add: answer_ok_def)
  ultimately show ?thesis
    by (simp add: node_ok_answers api_handler_def split: option.split)
qed

section \<open>Every method is a call of the node's function\<close>

interpretation rpc_strings: json_type "mar_slice JStr" "un_slice [] un_string" "[]"
  by (rule json_string.slice)

interpretation rpc_filters:
  json_type "mar_slice mar_AccountFilter" "un_slice zero_AccountFilter un_AccountFilter" "[]"
  by (rule json_AccountFilter.slice)

interpretation rpc_ProgramAccounts:
  json_type "mar_slice mar_ProgramAccount" "un_slice zero_ProgramAccount un_ProgramAccount" "[]"
  by (rule json_ProgramAccount.slice)

interpretation rpc_ProcessedTransactions:
  json_type "mar_slice mar_ProcessedTransaction" "un_slice zero_ProcessedTransaction un_ProcessedTransaction" "[]"
  by (rule json_ProcessedTransaction.slice)

interpretation rpc_transaction_ptrs:
  json_type "mar_slice (mar_ptr mar_ProcessedTransaction)"
    "un_slice None (un_ptr zero_ProcessedTransaction un_ProcessedTransaction)" "[]"
  by (rule wire_ProcessedTransaction.slice_ptr)

interpretation rpc_account_ptrs:
  json_type "mar_slice (mar_ptr mar_AccountInfoWithPubkey)"
    "un_slice None (un_ptr zero_AccountInfoWithPubkey un_AccountInfoWithPubkey)" "[]"
  by (rule wire_AccountInfoWithPubkey.slice_ptr)

interpretation rpc_status_ptrs:
  json_type "mar_slice (mar_ptr mar_ProcessedTransactionStatus)"
    "un_slice None (un_ptr zero_ProcessedTransactionStatus un_ProcessedTransactionStatus)" "[]"
  by (rule wire_ProcessedTransactionStatus.slice_ptr)

lemma handler_entry: "map_of (api_table a) m = Some f \<Longrightarrow> api_handler a m p = f p"
  by (simp add: api_handler_def)

lemma with_params_value: "un v z = Inr x \<Longrightarrow> with_params un z mar f (Some v) = map_sum id mar (f x)"
  by (simp add: with_params_def on_value_def)

lemma nil_slice:
  "un_slice z un (mar_ptr (mar_slice mar) xs) ys = un_slice z un (mar_slice mar (slice_of xs)) ys"
  by (cases xs) (simp_all add: mar_ptr_def slice_of_def un_slice_def mar_slice_def)

lemma nil_slice_text: "member_text (mar_ptr (mar_slice mar) xs) \<longleftrightarrow> member_text (mar_slice mar (slice_of xs))"
  by (cases xs) (simp_all add: member_text_def json_text_simps mar_ptr_def slice_of_def)

lemma txids_text: "list_all valid_utf8 (slice_of ts) \<Longrightarrow> member_text (JObj [(''txids'', mar_ptr (mar_slice JStr) ts)])"
  by (cases ts) (simp_all add: member_text_def json_text_simps slice_of_def maxNestingDepth_def)

lemma txids_decode: "un_txids (JObj [(''txids'', mar_ptr (mar_slice JStr) ts)]) [] = Inr (slice_of ts)"
  by (simp add: un_txids_def un_struct_def lookup_field_def nil_slice json_string.un_slice_mar)

lemma key_text: "member_text (mar_array k)"
  by (simp add: member_text_def json_text_simps)

lemma keys_text: "member_text (mar_slice mar_array ks)"
  by (simp add: member_text_def json_text_simps maxNestingDepth_def)

lemmas param_texts =
  wire_members txids_text key_text keys_text nil_slice_text

lemmas param_decodes =
  txids_decode un_Pubkeys_def nil_slice json_simps

lemmas entry_simps = handler_entry api_table_def with_params_value param_decodes

lemma transaction_methods:
  assumes "api_ok a"
  shows "SendTransaction (api_client a) tx = of_answer (api_SendTransaction a tx)"
    and "SendTransactions (api_client a) txs = of_answer (api_SendTransactions a (slice_of txs))"
    and "CreateAccountWithFaucet (api_client a) k = of_answer (api_CreateAccountWithFaucet a k)"
    and "RecentTransactions (api_client a) lp = of_answer (api_RecentTransactions a lp)"
    and "valid_utf8 (bp_BlockHash bp) \<Longrightarrow>
      GetTransactionsByBlock (api_client a) bp = of_answer (api_GetTransactionsByBlock a bp)"
    and "list_all valid_utf8 (slice_of ts) \<Longrightarrow>
      GetTransactionsByIds (api_client a) ts = of_answer (api_GetTransactionsByIds a (slice_of ts))"
    and "list_all valid_utf8 (slice_of ts) \<Longrightarrow>
      GetTransactionStatus (api_client a) ts = of_answer (api_GetTransactionStatus a (slice_of ts))"
    and "valid_utf8 t \<Longrightarrow>
      GetProcessedTransaction (api_client a) t = of_lookup (api_GetProcessedTransaction a t)"
  unfolding api_client_def SendTransaction_def SendTransactions_def CreateAccountWithFaucet_def
    RecentTransactions_def GetTransactionsByBlock_def GetTransactionsByIds_def GetTransactionStatus_def
    GetProcessedTransaction_def Method_defs
  by (rule json_string.call_answers rpc_strings.call_answers json_RuntimeTransaction.call_answers
      rpc_ProcessedTransactions.call_answers rpc_transaction_ptrs.call_answers rpc_status_ptrs.call_answers
      json_ProcessedTransaction.lookup_answers; simp add: api_handler_ok [OF assms] param_texts entry_simps)+

lemma filters_decode:
  "un_ptr [] (un_slice zero_AccountFilter un_AccountFilter) (mar_ptr (mar_slice mar_AccountFilter) fs) None = Inr fs"
  by (rule rpc_filters.un_ptr_mar)

lemma accounts_params_text: "member_text (JArr [mar_array k, mar_ptr (mar_slice mar_AccountFilter) fs])"
  using wire_AccountFilter.slice_text [of _ "maxNestingDepth - 2"]
  by (cases fs) (simp_all add: member_text_def json_text_simps maxNestingDepth_def mar_ptr_def)

lemma account_methods:
  assumes "api_ok a"
  shows "ReadAccountInfo (api_client a) k = of_answer (api_ReadAccountInfo a k)"
    and "GetAccountAddress (api_client a) k = of_answer (api_GetAccountAddress a k)"
    and "GetProgramAccounts (api_client a) k fs = of_answer (api_GetProgramAccounts a k fs)"
    and "GetMultipleAccounts (api_client a) ks = of_answer (api_GetMultipleAccounts a (slice_of ks))"
    and "CheckPreAnchorConflict (api_client a) ks = of_answer (api_CheckPreAnchorConflict a (slice_of ks))"
  unfolding api_client_def ReadAccountInfo_def GetAccountAddress_def GetProgramAccounts_def
    GetMultipleAccounts_def CheckPreAnchorConflict_def Method_defs
  by (rule json_AccountInfo.call_answers json_string.call_answers rpc_ProgramAccounts.call_answers
      rpc_account_ptrs.call_answers json_bool.call_answers;
      simp add: api_handler_ok [OF assms] param_texts accounts_params_text entry_simps accounts_query_def
        on_value_def filters_decode)+

lemma airdrop_method:
  assumes "api_ok a"
  shows "RequestAirdrop (api_client a) k = map_sum id (\<lambda>_. ()) (of_answer (api_RequestAirdrop a k))"
proof -
  have "api_handler a ''request_airdrop'' (Some (mar_array k)) = map_sum id id (api_RequestAirdrop a k)"
    by (simp add: entry_simps)
  then show ?thesis
    using postData_node [OF api_handler_ok [OF assms], of "''request_airdrop''" True "Some (mar_array k)"]
    by (cases "api_RequestAirdrop a k")
      (auto simp: RequestAirdrop_def Method_defs api_client_def key_text)
qed

lemma block_params_text:
  "valid_utf8 h \<Longrightarrow> member_text (JArr [JStr h])"
  "valid_utf8 h \<Longrightarrow> member_text (JArr [JStr h, JStr ''full''])"
  "member_text (JArr [mar_uint n])"
  "member_text (JArr [mar_uint n, JStr ''full''])"
  by (simp_all add: member_text_def json_text_simps)

lemma block_methods:
  assumes "api_ok a"
  shows "GetBestBlockHash (api_client a) = of_answer (api_GetBestBlockHash a)"
    and "GetBestFinalizedBlockHash (api_client a) = of_answer (api_GetBestFinalizedBlockHash a)"
    and "GetNetworkPubkey (api_client a) = of_answer (api_GetNetworkPubkey a)"
    and "GetBlockCount (api_client a) = of_answer (api_GetBlockCount a)"
    and "GetBlockHash (api_client a) n = of_answer (api_GetBlockHash a n)"
    and "valid_utf8 h \<Longrightarrow> GetBlock (api_client a) h = of_lookup (api_GetBlock a h)"
    and "GetBlockByHeight (api_client a) n = of_lookup (api_GetBlockByHeight a n)"
    and "valid_utf8 h \<Longrightarrow> GetFullBlockByHash (api_client a) h = of_lookup (api_GetFullBlockByHash a h)"
    and "GetFullBlockByHeight (api_client a) n = of_lookup (api_GetFullBlockByHeight a n)"
  unfolding api_client_def GetBestBlockHash_def GetBestFinalizedBlockHash_def GetNetworkPubkey_def
    GetBlockCount_def GetBlockHash_def GetBlock_def GetBlockByHeight_def GetFullBlockByHash_def
    GetFullBlockByHeight_def BlockTransactionFilterFull_def Method_defs
  by (rule json_string.callNoParams_answers json_uint.callNoParams_answers json_string.call_answers
      json_Block.lookup_answers json_FullBlock.lookup_answers;
      simp add: api_handler_ok [OF assms] param_texts block_params_text entry_simps no_params_def
        block_query_def on_value_def)+

text \<open>A node with one block, at height 5, for the witness.\<close>

definition sampleApi :: node_api where
  "sampleApi =
     \<lparr>api_SendTransaction = (\<lambda>tx. Inr ''deadbeef''),
      api_SendTransactions = (\<lambda>txs. Inr (map (\<lambda>tx. ''deadbeef'') txs)),
      api_ReadAccountInfo = (\<lambda>k. Inr zero_AccountInfo),
      api_GetAccountAddress = (\<lambda>k. Inr ''bcrt1p''),
      api_GetBestBlockHash = Inr ''aa'',
      api_GetBestFinalizedBlockHash = Inl (- 32000, ''nothing finalized''),
      api_GetBlock = (\<lambda>h. if h = ''aa'' then Inr (Some sampleBlock) else Inl (404, ''no such block'')),
      api_GetBlockByHeight = (\<lambda>n. Inr (if n = 5 then Some sampleBlock else None)),
      api_GetFullBlockByHash = (\<lambda>h. Inl (404, ''no such block'')),
      api_GetFullBlockByHeight = (\<lambda>n. Inr None),
      api_GetBlockCount = Inr 6,
      api_GetBlockHash = (\<lambda>n. if n = 5 then Inr ''aa'' else Inl (404, ''no such block'')),
      api_GetProcessedTransaction = (\<lambda>t. Inr None),
      api_GetProgramAccounts = (\<lambda>k fs. Inr []),
      api_RequestAirdrop = (\<lambda>k. Inr JNull),
      api_CreateAccountWithFaucet = (\<lambda>k. Inr zero_RuntimeTransaction),
      api_GetTransactionsByBlock = (\<lambda>q. Inr []),
      api_GetTransactionsByIds = (\<lambda>ts. Inr (map (\<lambda>t. None) ts)),
      api_RecentTransactions = (\<lambda>q. Inr []),
      api_GetMultipleAccounts = (\<lambda>ks. Inr (map (\<lambda>k. Some zero_AccountInfoWithPubkey) ks)),
      api_GetNetworkPubkey = Inr ''02'',
      api_CheckPreAnchorConflict = (\<lambda>ks. Inr (SystemProgramID \<in> set ks)),
      api_GetTransactionStatus =
        (\<lambda>ts. Inr (map (\<lambda>t. if t = ''cc'' then Some \<lparr>st_Type = ''queued'', st_Message = []\<rparr> else None) ts))\<rparr>"

lemma sampleApi_ok: "api_ok sampleApi"
  by (auto simp: api_ok_def sampleApi_def answer_ok_def zero_AccountInfo_def zero_AccountInfoWithPubkey_def
      utf8_status_def member_text_def list.pred_map list_all_iff)

section \<open>Properties\<close>

text \<open>
  C5 (refinement). The client makes the wire invisible. Against a node that offers one function per
  method, decodes its parameters from the bytes of the request and answers with the bytes of its
  result, every method of the client is a call of the function of its name with the caller's own
  arguments: it returns the function's result or the function's error, except that a lookup returns
  nil where the function reports the missing-entity code 404. A nil slice reaches the node as an empty
  one, a nil filter list as no filter.
\<close>

theorem client_refines_api:
  assumes "api_ok a" and "valid_utf8 h" and "valid_utf8 (bp_BlockHash bp)" and "list_all valid_utf8 (slice_of ts)"
  shows "SendTransaction (api_client a) tx = of_answer (api_SendTransaction a tx) \<and>
    SendTransactions (api_client a) txs = of_answer (api_SendTransactions a (slice_of txs)) \<and>
    ReadAccountInfo (api_client a) k = of_answer (api_ReadAccountInfo a k) \<and>
    GetAccountAddress (api_client a) k = of_answer (api_GetAccountAddress a k) \<and>
    GetBestBlockHash (api_client a) = of_answer (api_GetBestBlockHash a) \<and>
    GetBestFinalizedBlockHash (api_client a) = of_answer (api_GetBestFinalizedBlockHash a) \<and>
    GetBlock (api_client a) h = of_lookup (api_GetBlock a h) \<and>
    GetBlockByHeight (api_client a) n = of_lookup (api_GetBlockByHeight a n) \<and>
    GetFullBlockByHash (api_client a) h = of_lookup (api_GetFullBlockByHash a h) \<and>
    GetFullBlockByHeight (api_client a) n = of_lookup (api_GetFullBlockByHeight a n) \<and>
    GetBlockCount (api_client a) = of_answer (api_GetBlockCount a) \<and>
    GetBlockHash (api_client a) n = of_answer (api_GetBlockHash a n) \<and>
    GetProcessedTransaction (api_client a) h = of_lookup (api_GetProcessedTransaction a h) \<and>
    GetProgramAccounts (api_client a) k fs = of_answer (api_GetProgramAccounts a k fs) \<and>
    RequestAirdrop (api_client a) k = map_sum id (\<lambda>_. ()) (of_answer (api_RequestAirdrop a k)) \<and>
    CreateAccountWithFaucet (api_client a) k = of_answer (api_CreateAccountWithFaucet a k) \<and>
    GetTransactionsByBlock (api_client a) bp = of_answer (api_GetTransactionsByBlock a bp) \<and>
    GetTransactionsByIds (api_client a) ts = of_answer (api_GetTransactionsByIds a (slice_of ts)) \<and>
    RecentTransactions (api_client a) lp = of_answer (api_RecentTransactions a lp) \<and>
    GetMultipleAccounts (api_client a) ks = of_answer (api_GetMultipleAccounts a (slice_of ks)) \<and>
    GetNetworkPubkey (api_client a) = of_answer (api_GetNetworkPubkey a) \<and>
    CheckPreAnchorConflict (api_client a) ks = of_answer (api_CheckPreAnchorConflict a (slice_of ks)) \<and>
    GetTransactionStatus (api_client a) ts = of_answer (api_GetTransactionStatus a (slice_of ts))"
  using assms(2-4)
  by (simp add: transaction_methods account_methods airdrop_method block_methods assms(1))

theorem client_refines_api_witness:
  "GetBlock (api_client sampleApi) ''aa'' = Inr (Some sampleBlock) \<and>
   GetBlockByHeight (api_client sampleApi) 5 = Inr (Some sampleBlock) \<and>
   GetFullBlockByHash (api_client sampleApi) ''aa'' = Inr None \<and>
   GetBestFinalizedBlockHash (api_client sampleApi) = Inl (RPCErr (- 32000) ''nothing finalized'') \<and>
   CheckPreAnchorConflict (api_client sampleApi) None = Inr False \<and>
   GetTransactionStatus (api_client sampleApi) (Some [''bb'', ''cc'']) =
     Inr [None, Some \<lparr>st_Type = ''queued'', st_Message = []\<rparr>]"
  using client_refines_api [OF sampleApi_ok, of "''aa''" zero_BlockTransactionsParams "Some [''bb'', ''cc'']"
      _ _ _ "5" _ _ None]
  by (simp add: sampleApi_def slice_of_def zero_BlockTransactionsParams_def)

end
