(* ===== verification/Arch_Websocket.thy ===== *)
theory Arch_Websocket
  imports Arch_Json "HOL-Library.AList"
begin

text \<open>
  \<open>websocket.go\<close>: events, and the subscription client as a state machine. The client's goroutines are
  its read loop and the callers of \<open>Subscribe\<close> and \<open>Unsubscribe\<close>; each has a program counter, and a step
  of the machine is one critical section or channel operation, or the beginning or the end of a write,
  so every interleaving of the code is a run. A write that has begun ends when the connection lets it,
  possibly never; until then its goroutine holds the write mutex. How a write ends is up to the
  connection, except that a request that cannot be encoded is always an error. Nothing is assumed about
  writes after one that failed. Channels and subscriptions are objects in a store, because
  several goroutines hold references to them. Go's panics (a send on a closed channel, closing a channel
  twice) stop the machine with a flag set.
\<close>

section \<open>Topics and events\<close>

type_synonym EventTopic = string

definition TopicBlock :: EventTopic where "TopicBlock = ''block''"
definition TopicTransaction :: EventTopic where "TopicTransaction = ''transaction''"
definition TopicAccountUpdate :: EventTopic where "TopicAccountUpdate = ''account_update''"
definition TopicRolledbackTransactions :: EventTopic where
  "TopicRolledbackTransactions = ''rolledback_transactions''"
definition TopicReappliedTransactions :: EventTopic where
  "TopicReappliedTransactions = ''reapplied_transactions''"
definition TopicDKG :: EventTopic where "TopicDKG = ''dkg''"

text \<open>
  A filter is a Go map to arbitrary values, here its entries in key order, each with what encoding
  its value gives: a JSON value, or the encoder's error. Nil is \<open>None\<close>.
\<close>

type_synonym EventFilter = "(string \<times> json result) list"

record Event =
  ev_Topic :: EventTopic
  ev_Data :: "json option"

record BlockEvent =
  be_Hash :: string
  be_Timestamp :: string

definition zero_BlockEvent :: BlockEvent where
  "zero_BlockEvent = \<lparr>be_Hash = [], be_Timestamp = []\<rparr>"

definition un_BlockEvent :: "BlockEvent unmarshaler" where
  "un_BlockEvent = un_struct
     [(''hash'', fld un_string be_Hash be_Hash_update),
      (''timestamp'', fld un_string be_Timestamp be_Timestamp_update)]"

record TransactionEvent =
  te_Hash :: string
  te_Status :: ProcessedTransactionStatus
  te_ProgramIDs :: "string list"
  te_BlockHeight :: u64

definition zero_TransactionEvent :: TransactionEvent where
  "zero_TransactionEvent = \<lparr>te_Hash = [], te_Status = zero_ProcessedTransactionStatus, te_ProgramIDs = [],
     te_BlockHeight = 0\<rparr>"

definition un_TransactionEvent :: "TransactionEvent unmarshaler" where
  "un_TransactionEvent = un_struct
     [(''hash'', fld un_string te_Hash te_Hash_update),
      (''status'', fld un_ProcessedTransactionStatus te_Status te_Status_update),
      (''program_ids'', fld (un_slice [] un_string) te_ProgramIDs te_ProgramIDs_update),
      (''block_height'', fld un_uint te_BlockHeight te_BlockHeight_update)]"

record AccountUpdateEvent =
  ae_Account :: string
  ae_TransactionHash :: string
  ae_BlockHeight :: u64

definition zero_AccountUpdateEvent :: AccountUpdateEvent where
  "zero_AccountUpdateEvent = \<lparr>ae_Account = [], ae_TransactionHash = [], ae_BlockHeight = 0\<rparr>"

definition un_AccountUpdateEvent :: "AccountUpdateEvent unmarshaler" where
  "un_AccountUpdateEvent = un_struct
     [(''account'', fld un_string ae_Account ae_Account_update),
      (''transaction_hash'', fld un_string ae_TransactionHash ae_TransactionHash_update),
      (''block_height'', fld un_uint ae_BlockHeight ae_BlockHeight_update)]"

record TransactionsEvent =
  xe_BlockHeight :: u64
  xe_TransactionHashes :: "string list"

definition zero_TransactionsEvent :: TransactionsEvent where
  "zero_TransactionsEvent = \<lparr>xe_BlockHeight = 0, xe_TransactionHashes = []\<rparr>"

definition un_TransactionsEvent :: "TransactionsEvent unmarshaler" where
  "un_TransactionsEvent = un_struct
     [(''block_height'', fld un_uint xe_BlockHeight xe_BlockHeight_update),
      (''transaction_hashes'', fld (un_slice [] un_string) xe_TransactionHashes xe_TransactionHashes_update)]"

record DKGEvent =
  de_Status :: string

definition zero_DKGEvent :: DKGEvent where
  "zero_DKGEvent = \<lparr>de_Status = []\<rparr>"

definition un_DKGEvent :: "DKGEvent unmarshaler" where
  "un_DKGEvent = un_struct [(''status'', fld un_string de_Status de_Status_update)]"

definition decodeEvent :: "'a unmarshaler \<Rightarrow> 'a \<Rightarrow> Event \<Rightarrow> EventTopic list \<Rightarrow> 'a result" where
  "decodeEvent un z e topics =
     (let ok = foldl (\<lambda>ok t. ok \<or> ev_Topic e = t) False topics
      in if \<not> ok
         then Inl (Errorf ''event topic is %q, not %v'' (FStr (ev_Topic e) # map FStr topics))
         else case (case ev_Data e of None \<Rightarrow> json_Unmarshal un [] z | Some v \<Rightarrow> un v z) of
                Inl err \<Rightarrow> Inl (WrapErr (''decoding '' @ ev_Topic e @ '' event: %w'') err)
              | Inr out \<Rightarrow> Inr out)"

definition Event_Block :: "Event \<Rightarrow> BlockEvent result" where
  "Event_Block e = decodeEvent un_BlockEvent zero_BlockEvent e [TopicBlock]"

definition Event_Transaction :: "Event \<Rightarrow> TransactionEvent result" where
  "Event_Transaction e = decodeEvent un_TransactionEvent zero_TransactionEvent e [TopicTransaction]"

definition Event_AccountUpdate :: "Event \<Rightarrow> AccountUpdateEvent result" where
  "Event_AccountUpdate e = decodeEvent un_AccountUpdateEvent zero_AccountUpdateEvent e [TopicAccountUpdate]"

definition Event_Transactions :: "Event \<Rightarrow> TransactionsEvent result" where
  "Event_Transactions e = decodeEvent un_TransactionsEvent zero_TransactionsEvent e
     [TopicRolledbackTransactions, TopicReappliedTransactions]"

definition Event_DKG :: "Event \<Rightarrow> DKGEvent result" where
  "Event_DKG e = decodeEvent un_DKGEvent zero_DKGEvent e [TopicDKG]"

section \<open>Messages on the connection\<close>

record wsRequest =
  wq_Method :: string
  wq_Params :: "json result"

fun filter_members :: "EventFilter \<Rightarrow> (string \<times> json) list result" where
  "filter_members [] = Inr []"
| "filter_members ((k, Inl err) # es) = Inl err"
| "filter_members ((k, Inr v) # es) =
     (case filter_members es of Inl err \<Rightarrow> Inl err | Inr ms \<Rightarrow> Inr ((k, v) # ms))"

definition mar_EventFilter :: "EventFilter \<Rightarrow> json result" where
  "mar_EventFilter filt = (case filter_members filt of Inl err \<Rightarrow> Inl err | Inr ms \<Rightarrow> Inr (JObj ms))"

definition mar_wsSubscribeParams :: "EventTopic \<Rightarrow> EventFilter \<Rightarrow> json result" where
  "mar_wsSubscribeParams topic filt =
     (case mar_EventFilter filt of
        Inl err \<Rightarrow> Inl err
      | Inr v \<Rightarrow> Inr (JObj [(''topic'', JStr topic), (''filter'', v)]))"

definition mar_wsUnsubscribeParams :: "EventTopic \<Rightarrow> string \<Rightarrow> json" where
  "mar_wsUnsubscribeParams topic subscriptionID =
     JObj [(''topic'', JStr topic), (''subscription_id'', JStr subscriptionID)]"

definition mar_wsRequest :: "wsRequest \<Rightarrow> json result" where
  "mar_wsRequest req =
     (case wq_Params req of
        Inl err \<Rightarrow> Inl err
      | Inr v \<Rightarrow> Inr (JObj [(''method'', JStr (wq_Method req)), (''params'', v)]))"

record wsResponse =
  wr_Status :: string
  wr_SubscriptionID :: string
  wr_Message :: string
  wr_Error :: string

record wsMessage =
  wm_Topic :: EventTopic
  wm_Data :: "json option"
  wm_Status :: string
  wm_SubscriptionID :: string
  wm_Message :: string
  wm_Error :: string

definition zero_wsMessage :: wsMessage where
  "zero_wsMessage = \<lparr>wm_Topic = [], wm_Data = None, wm_Status = [], wm_SubscriptionID = [],
     wm_Message = [], wm_Error = []\<rparr>"

definition un_wsMessage :: "wsMessage unmarshaler" where
  "un_wsMessage = un_struct
     [(''topic'', fld un_string wm_Topic wm_Topic_update),
      (''data'', fld un_raw wm_Data wm_Data_update),
      (''status'', fld un_string wm_Status wm_Status_update),
      (''subscription_id'', fld un_string wm_SubscriptionID wm_SubscriptionID_update),
      (''message'', fld un_string wm_Message wm_Message_update),
      (''error'', fld un_string wm_Error wm_Error_update)]"

definition response_of :: "wsMessage \<Rightarrow> wsResponse" where
  "response_of m = \<lparr>wr_Status = wm_Status m, wr_SubscriptionID = wm_SubscriptionID m,
     wr_Message = wm_Message m, wr_Error = wm_Error m\<rparr>"

section \<open>State\<close>

definition subEventBuffer :: nat where
  "subEventBuffer = 256"

type_synonym chan_ref = nat
type_synonym sub_ref = nat
type_synonym thread = nat

text \<open>A response channel of capacity 1, and a subscription with its event channel and \<open>sync.Once\<close>.\<close>

record resp_chan =
  rc_buf :: "wsResponse list"
  rc_closed :: bool

record Subscription =
  sub_id :: string
  sub_topic :: EventTopic
  sub_events :: "Event list"
  sub_closed :: bool
  sub_once :: bool

text \<open>
  Where a caller is: in which call, and before which step of it. At \<open>AtWrite\<close> it is about to lock the
  write mutex, at \<open>AtWriting\<close> it holds the mutex and is inside the write.
\<close>

datatype ws_call = CallSubscribe sub_ref EventFilter | CallUnsubscribe sub_ref

datatype caller_pc =
    Idle
  | AtEnqueue ws_call
  | AtWrite ws_call chan_ref
  | AtWriting ws_call chan_ref
  | AtWait ws_call chan_ref
  | AtUnlink sub_ref "sub_ref result"
  | AtClose sub_ref "sub_ref result"
  | Finished "sub_ref result"

text \<open>Where the read loop is.\<close>

datatype reader_pc =
    RRead
  | RFan Event "sub_ref list"
  | RRespond chan_ref wsResponse
  | RCloseDone "chan_ref list" "sub_ref list"
  | RClosePending "chan_ref list" "sub_ref list"
  | RCloseSubs "sub_ref list"
  | RCloseConn
  | RStopped

text \<open>
  The client: the connection (whether \<open>Close\<close> was called on it, and the requests whose write succeeded),
  the fields of the Go struct, the objects they refer to, and where each goroutine is. The mutex \<open>mu\<close>
  needs no field, as each of its critical sections is one step; \<open>writeMu\<close> has its holder.
\<close>

record WSClient =
  ws_connClosed :: bool
  ws_sent :: "wsRequest list"
  ws_writeMu :: "thread option"
  ws_pending :: "chan_ref list"
  ws_subs :: "(EventTopic \<times> sub_ref list) list"
  ws_closed :: bool
  ws_readErr :: "go_error option"
  ws_done :: bool
  ws_chans :: "chan_ref \<Rightarrow> resp_chan"
  ws_nextChan :: chan_ref
  ws_objs :: "sub_ref \<Rightarrow> Subscription"
  ws_nextSub :: sub_ref
  ws_reader :: reader_pc
  ws_threads :: "thread \<Rightarrow> caller_pc"
  ws_panic :: bool

definition new_chan :: resp_chan where
  "new_chan = \<lparr>rc_buf = [], rc_closed = False\<rparr>"

definition new_sub :: "EventTopic \<Rightarrow> Subscription" where
  "new_sub topic = \<lparr>sub_id = [], sub_topic = topic, sub_events = [], sub_closed = False, sub_once = False\<rparr>"

text \<open>The client after a successful dial, its read loop started.\<close>

definition ws_init :: WSClient where
  "ws_init =
     \<lparr>ws_connClosed = False, ws_sent = [], ws_writeMu = None, ws_pending = [], ws_subs = [],
      ws_closed = False, ws_readErr = None, ws_done = False, ws_chans = (\<lambda>_. new_chan), ws_nextChan = 0, ws_objs = (\<lambda>_. new_sub []), ws_nextSub = 0,
      ws_reader = RRead, ws_threads = (\<lambda>_. Idle), ws_panic = False\<rparr>"

definition DialWebSocket :: "string \<Rightarrow> unit result \<Rightarrow> WSClient result" where
  "DialWebSocket url dialed =
     (case dialed of
        Inl err \<Rightarrow> Inl (WrapErr (''dialing '' @ url @ '': %w'') err)
      | Inr _ \<Rightarrow> Inr ws_init)"

definition Subscription_ID :: "Subscription \<Rightarrow> string" where
  "Subscription_ID s = sub_id s"

definition Subscription_Topic :: "Subscription \<Rightarrow> EventTopic" where
  "Subscription_Topic s = sub_topic s"

text \<open>The channel behind \<open>Events\<close>: what it buffers and whether it is closed.\<close>

definition Subscription_Events :: "Subscription \<Rightarrow> Event list \<times> bool" where
  "Subscription_Events s = (sub_events s, sub_closed s)"

definition subs_of :: "WSClient \<Rightarrow> EventTopic \<Rightarrow> sub_ref list" where
  "subs_of s topic = (case map_of (ws_subs s) topic of None \<Rightarrow> [] | Some subs \<Rightarrow> subs)"

section \<open>Channel operations\<close>

definition panic :: "WSClient \<Rightarrow> WSClient" where
  "panic s = s\<lparr>ws_panic := True\<rparr>"

text \<open>\<open>select { case sub.events <- e: default: }\<close>\<close>

definition send_event :: "WSClient \<Rightarrow> sub_ref \<Rightarrow> Event \<Rightarrow> WSClient" where
  "send_event s r e =
     (let sub = ws_objs s r in
      if sub_closed sub then panic s
      else if length (sub_events sub) < subEventBuffer
           then s\<lparr>ws_objs := (ws_objs s)(r := sub\<lparr>sub_events := sub_events sub @ [e]\<rparr>)\<rparr>
           else s)"

text \<open>\<open>sub.once.Do(func() { close(sub.events) })\<close>\<close>

definition close_events :: "WSClient \<Rightarrow> sub_ref \<Rightarrow> WSClient" where
  "close_events s r =
     (let sub = ws_objs s r in
      if sub_once sub then s
      else if sub_closed sub then panic s
      else s\<lparr>ws_objs := (ws_objs s)(r := sub\<lparr>sub_closed := True, sub_once := True\<rparr>)\<rparr>)"

text \<open>\<open>respCh <- resp\<close>; \<open>None\<close> while the channel is full.\<close>

definition send_response :: "WSClient \<Rightarrow> chan_ref \<Rightarrow> wsResponse \<Rightarrow> WSClient option" where
  "send_response s ch resp =
     (let c = ws_chans s ch in
      if rc_closed c then Some (panic s)
      else if length (rc_buf c) < 1
           then Some (s\<lparr>ws_chans := (ws_chans s)(ch := c\<lparr>rc_buf := rc_buf c @ [resp]\<rparr>)\<rparr>)
           else None)"

definition close_chan :: "WSClient \<Rightarrow> chan_ref \<Rightarrow> WSClient" where
  "close_chan s ch =
     (let c = ws_chans s ch in
      if rc_closed c then panic s else s\<lparr>ws_chans := (ws_chans s)(ch := c\<lparr>rc_closed := True\<rparr>)\<rparr>)"

definition close_done :: "WSClient \<Rightarrow> WSClient" where
  "close_done s = (if ws_done s then panic s else s\<lparr>ws_done := True\<rparr>)"

definition closeReason :: "WSClient \<Rightarrow> go_error" where
  "closeReason s =
     (case ws_readErr s of
        Some e \<Rightarrow> WrapErr ''websocket connection closed: %w'' e
      | None \<Rightarrow> Errorf ''websocket connection closed'' [])"

section \<open>Calls\<close>

definition goto :: "WSClient \<Rightarrow> thread \<Rightarrow> caller_pc \<Rightarrow> WSClient" where
  "goto s t pc = s\<lparr>ws_threads := (ws_threads s)(t := pc)\<rparr>"

fun call_sub :: "ws_call \<Rightarrow> sub_ref" where
  "call_sub (CallSubscribe r filt) = r"
| "call_sub (CallUnsubscribe r) = r"

fun request_of :: "WSClient \<Rightarrow> ws_call \<Rightarrow> wsRequest" where
  "request_of s (CallSubscribe r filt) =
     \<lparr>wq_Method = ''subscribe'', wq_Params = mar_wsSubscribeParams (sub_topic (ws_objs s r)) filt\<rparr>"
| "request_of s (CallUnsubscribe r) =
     \<lparr>wq_Method = ''unsubscribe'',
      wq_Params = Inr (mar_wsUnsubscribeParams (sub_topic (ws_objs s r)) (sub_id (ws_objs s r)))\<rparr>"

text \<open>\<open>Subscribe\<close> up to its request: allocate the subscription and, unless closed, register it.\<close>

definition Subscribe :: "WSClient \<Rightarrow> thread \<Rightarrow> EventTopic \<Rightarrow> EventFilter option \<Rightarrow> WSClient" where
  "Subscribe s t topic filt =
     (let filt' = (case filt of None \<Rightarrow> [] | Some f \<Rightarrow> f);
          r = ws_nextSub s;
          s = s\<lparr>ws_objs := (ws_objs s)(r := new_sub topic), ws_nextSub := Suc r\<rparr>
      in if ws_closed s then goto s t (Finished (Inl (closeReason s)))
         else goto (s\<lparr>ws_subs := AList.update topic (subs_of s topic @ [r]) (ws_subs s)\<rparr>) t
                (AtEnqueue (CallSubscribe r filt')))"

text \<open>\<open>Unsubscribe\<close> begins with its round trip.\<close>

definition Unsubscribe :: "WSClient \<Rightarrow> thread \<Rightarrow> sub_ref \<Rightarrow> WSClient" where
  "Unsubscribe s t r = goto s t (AtEnqueue (CallUnsubscribe r))"

text \<open>What the two calls do with the outcome of their round trip.\<close>

definition afterSubscribe :: "WSClient \<Rightarrow> thread \<Rightarrow> sub_ref \<Rightarrow> wsResponse result \<Rightarrow> WSClient" where
  "afterSubscribe s t r res =
     (case res of
        Inl err \<Rightarrow> goto s t (AtUnlink r (Inl err))
      | Inr resp \<Rightarrow>
          if wr_Status resp \<noteq> ''Subscribed''
          then goto s t (AtUnlink r (Inl (Errorf ''subscribe failed: %s'' [FStr (wr_Error resp)])))
          else goto (s\<lparr>ws_objs := (ws_objs s)(r := (ws_objs s r)\<lparr>sub_id := wr_SubscriptionID resp\<rparr>)\<rparr>)
                 t (Finished (Inr r)))"

definition afterUnsubscribe :: "WSClient \<Rightarrow> thread \<Rightarrow> sub_ref \<Rightarrow> wsResponse result \<Rightarrow> WSClient" where
  "afterUnsubscribe s t r res =
     goto s t (AtUnlink r
       (case res of
          Inl err \<Rightarrow> Inl err
        | Inr resp \<Rightarrow>
            if wr_Status resp \<noteq> ''Unsubscribed''
            then Inl (Errorf ''unsubscribe failed: %s%s'' [FStr (wr_Message resp), FStr (wr_Error resp)])
            else Inr r))"

fun afterRoundTrip :: "WSClient \<Rightarrow> thread \<Rightarrow> ws_call \<Rightarrow> wsResponse result \<Rightarrow> WSClient" where
  "afterRoundTrip s t (CallSubscribe r filt) res = afterSubscribe s t r res"
| "afterRoundTrip s t (CallUnsubscribe r) res = afterUnsubscribe s t r res"

declare afterRoundTrip.simps [simp del]

lemmas afterRoundTrip_defs = afterRoundTrip.simps afterSubscribe_def afterUnsubscribe_def

text \<open>
  The steps of \<open>roundTrip\<close>: queue the response channel, lock the write mutex, write and unlock, wait.
\<close>

definition roundTrip_enqueue :: "WSClient \<Rightarrow> thread \<Rightarrow> ws_call \<Rightarrow> WSClient" where
  "roundTrip_enqueue s t cl =
     (let ch = ws_nextChan s;
          s = s\<lparr>ws_chans := (ws_chans s)(ch := new_chan), ws_nextChan := Suc ch\<rparr>
      in if ws_closed s then afterRoundTrip s t cl (Inl (closeReason s))
         else goto (s\<lparr>ws_pending := ws_pending s @ [ch]\<rparr>) t (AtWrite cl ch))"

definition roundTrip_lock :: "WSClient \<Rightarrow> thread \<Rightarrow> ws_call \<Rightarrow> chan_ref \<Rightarrow> WSClient option" where
  "roundTrip_lock s t cl ch =
     (if ws_writeMu s = None then Some (goto (s\<lparr>ws_writeMu := Some t\<rparr>) t (AtWriting cl ch)) else None)"

text \<open>
  \<open>WriteJSON\<close> returns: with the connection's error, or with the encoder's, or having sent the request.
  The argument \<open>conn\<close> is the connection's part.
\<close>

definition WriteJSON :: "wsRequest \<Rightarrow> go_error option \<Rightarrow> go_error option" where
  "WriteJSON req conn =
     (case conn of
        Some err \<Rightarrow> Some err
      | None \<Rightarrow> (case mar_wsRequest req of Inl err \<Rightarrow> Some err | Inr v \<Rightarrow> None))"

definition roundTrip_write :: "WSClient \<Rightarrow> thread \<Rightarrow> ws_call \<Rightarrow> chan_ref \<Rightarrow> go_error option \<Rightarrow> WSClient" where
  "roundTrip_write s t cl ch conn =
     (let s = s\<lparr>ws_writeMu := None\<rparr>;
          req = request_of s cl
      in case WriteJSON req conn of
           None \<Rightarrow> goto (s\<lparr>ws_sent := ws_sent s @ [req]\<rparr>) t (AtWait cl ch)
         | Some err \<Rightarrow>
             afterRoundTrip s t cl (Inl (WrapErr (''sending '' @ wq_Method req @ '' request: %w'') err)))"

datatype ws_choice = GotResponse | GotCtx go_error | GotDone

definition roundTrip_wait :: "WSClient \<Rightarrow> thread \<Rightarrow> ws_call \<Rightarrow> chan_ref \<Rightarrow> ws_choice \<Rightarrow> WSClient option" where
  "roundTrip_wait s t cl ch choice =
     (case choice of
        GotResponse \<Rightarrow>
          (case rc_buf (ws_chans s ch) of
             resp # rest \<Rightarrow>
               Some (afterRoundTrip (s\<lparr>ws_chans := (ws_chans s)(ch := (ws_chans s ch)\<lparr>rc_buf := rest\<rparr>)\<rparr>) t cl
                      (Inr resp))
           | [] \<Rightarrow>
               if rc_closed (ws_chans s ch) then Some (afterRoundTrip s t cl (Inl (closeReason s))) else None)
      | GotCtx err \<Rightarrow> Some (afterRoundTrip s t cl (Inl err))
      | GotDone \<Rightarrow> if ws_done s then Some (afterRoundTrip s t cl (Inl (closeReason s))) else None)"

text \<open>The critical section of \<open>removeSubscription\<close>; closing the channel is a step of its own.\<close>

definition removeSubscription :: "WSClient \<Rightarrow> sub_ref \<Rightarrow> WSClient" where
  "removeSubscription s r =
     (let topic = sub_topic (ws_objs s r);
          subs = subs_of s topic
      in if r \<in> set subs then s\<lparr>ws_subs := AList.update topic (remove1 r subs) (ws_subs s)\<rparr> else s)"

definition WSClient_Close :: "WSClient \<Rightarrow> WSClient" where
  "WSClient_Close s = s\<lparr>ws_connClosed := True\<rparr>"

section \<open>The read loop\<close>

definition readLoop_message :: "WSClient \<Rightarrow> byte list \<Rightarrow> WSClient" where
  "readLoop_message s raw =
     (case json_Unmarshal un_wsMessage raw zero_wsMessage of
        Inl err \<Rightarrow> s
      | Inr msg \<Rightarrow>
          (case wm_Data msg of
             Some d \<Rightarrow>
               s\<lparr>ws_reader := RFan \<lparr>ev_Topic = wm_Topic msg, ev_Data = Some d\<rparr> (subs_of s (wm_Topic msg))\<rparr>
           | None \<Rightarrow>
               if wm_Status msg \<noteq> []
               then (case ws_pending s of
                       [] \<Rightarrow> s
                     | ch # rest \<Rightarrow> s\<lparr>ws_pending := rest, ws_reader := RRespond ch (response_of msg)\<rparr>)
               else s))"

text \<open>Tear down under the lock; \<open>allSubs\<close> lists the registered subscriptions in some map order.\<close>

definition teardown :: "WSClient \<Rightarrow> go_error \<Rightarrow> sub_ref list \<Rightarrow> WSClient" where
  "teardown s err allSubs =
     s\<lparr>ws_closed := True, ws_readErr := Some err, ws_pending := [], ws_subs := [],
       ws_reader := RCloseDone (ws_pending s) allSubs\<rparr>"

definition registered :: "WSClient \<Rightarrow> sub_ref list" where
  "registered s = concat (map snd (ws_subs s))"

text \<open>The steps of the loop that do not read from the connection.\<close>

definition reader_step :: "WSClient \<Rightarrow> WSClient option" where
  "reader_step s =
     (case ws_reader s of
        RFan e (r # rs) \<Rightarrow> Some ((send_event s r e)\<lparr>ws_reader := RFan e rs\<rparr>)
      | RFan e [] \<Rightarrow> Some (s\<lparr>ws_reader := RRead\<rparr>)
      | RRespond ch resp \<Rightarrow> map_option (\<lambda>s'. s'\<lparr>ws_reader := RRead\<rparr>) (send_response s ch resp)
      | RCloseDone chs subs \<Rightarrow> Some ((close_done s)\<lparr>ws_reader := RClosePending chs subs\<rparr>)
      | RClosePending (ch # chs) subs \<Rightarrow> Some ((close_chan s ch)\<lparr>ws_reader := RClosePending chs subs\<rparr>)
      | RClosePending [] subs \<Rightarrow> Some (s\<lparr>ws_reader := RCloseSubs subs\<rparr>)
      | RCloseSubs (r # rs) \<Rightarrow> Some ((close_events s r)\<lparr>ws_reader := RCloseSubs rs\<rparr>)
      | RCloseSubs [] \<Rightarrow> Some (s\<lparr>ws_reader := RCloseConn\<rparr>)
      | RCloseConn \<Rightarrow> Some (s\<lparr>ws_connClosed := True, ws_reader := RStopped\<rparr>)
      | RRead \<Rightarrow> None
      | RStopped \<Rightarrow> None)"

section \<open>The machine\<close>

text \<open>
  A label names the goroutine that moves and resolves what the code does not determine: the connection's
  part in the outcome of a write, which ready case a select takes, what arrives on the connection, the
  order of a map. \<open>Consume\<close> is a consumer receiving from the channel of a subscription.
\<close>

datatype ws_label =
    StartSubscribe thread EventTopic "EventFilter option"
  | StartUnsubscribe thread thread
  | Enqueue thread
  | Lock thread
  | Write thread "go_error option"
  | Await thread ws_choice
  | Unlink thread
  | CloseEvents thread
  | Recv "byte list"
  | RecvErr go_error "sub_ref list"
  | ReaderStep
  | CloseConn
  | Consume sub_ref

definition ws_exec :: "ws_label \<Rightarrow> WSClient \<Rightarrow> WSClient option" where
  "ws_exec l s =
     (if ws_panic s then None
      else case l of
        StartSubscribe t topic filt \<Rightarrow>
          (if ws_threads s t = Idle then Some (Subscribe s t topic filt) else None)
      | StartUnsubscribe t t' \<Rightarrow>
          (case ws_threads s t' of
             Finished (Inr r) \<Rightarrow>
               if ws_threads s t = Idle then Some (Unsubscribe s t r) else None
           | _ \<Rightarrow> None)
      | Enqueue t \<Rightarrow> (case ws_threads s t of AtEnqueue cl \<Rightarrow> Some (roundTrip_enqueue s t cl) | _ \<Rightarrow> None)
      | Lock t \<Rightarrow> (case ws_threads s t of AtWrite cl ch \<Rightarrow> roundTrip_lock s t cl ch | _ \<Rightarrow> None)
      | Write t conn \<Rightarrow>
          (case ws_threads s t of AtWriting cl ch \<Rightarrow> Some (roundTrip_write s t cl ch conn) | _ \<Rightarrow> None)
      | Await t choice \<Rightarrow>
          (case ws_threads s t of AtWait cl ch \<Rightarrow> roundTrip_wait s t cl ch choice | _ \<Rightarrow> None)
      | Unlink t \<Rightarrow>
          (case ws_threads s t of AtUnlink r res \<Rightarrow> Some (goto (removeSubscription s r) t (AtClose r res)) | _ \<Rightarrow> None)
      | CloseEvents t \<Rightarrow>
          (case ws_threads s t of AtClose r res \<Rightarrow> Some (goto (close_events s r) t (Finished res)) | _ \<Rightarrow> None)
      | Recv raw \<Rightarrow> (if ws_reader s = RRead then Some (readLoop_message s raw) else None)
      | RecvErr err allSubs \<Rightarrow>
          (if ws_reader s = RRead \<and> mset allSubs = mset (registered s) then Some (teardown s err allSubs) else None)
      | ReaderStep \<Rightarrow> reader_step s
      | CloseConn \<Rightarrow> Some (WSClient_Close s)
      | Consume r \<Rightarrow>
          (case sub_events (ws_objs s r) of
             [] \<Rightarrow> None
           | e # es \<Rightarrow> Some (s\<lparr>ws_objs := (ws_objs s)(r := (ws_objs s r)\<lparr>sub_events := es\<rparr>)\<rparr>)))"

fun ws_execs :: "ws_label list \<Rightarrow> WSClient \<Rightarrow> WSClient option" where
  "ws_execs [] s = Some s"
| "ws_execs (l # ls) s = (case ws_exec l s of None \<Rightarrow> None | Some s' \<Rightarrow> ws_execs ls s')"

inductive ws_reachable :: "WSClient \<Rightarrow> bool" where
  init: "ws_reachable ws_init"
| step: "ws_reachable s \<Longrightarrow> ws_exec l s = Some s' \<Longrightarrow> ws_reachable s'"

lemma ws_reachable_execs: "ws_reachable s \<Longrightarrow> ws_execs ls s = Some s' \<Longrightarrow> ws_reachable s'"
  by (induction ls arbitrary: s) (auto intro: ws_reachable.step split: option.splits)

end
