(* ===== verification/Arch_Websocket_Correct.thy ===== *)
theory Arch_Websocket_Correct
  imports Arch_Websocket
begin

text \<open>
  Invariants of the subscription client over all interleavings, and what follows: response channels
  are used in first-in first-out order and never block or panic, event buffers stay bounded, and there
  is one way to panic.
\<close>

section \<open>Invariants\<close>

locale ws_invariant =
  fixes I :: "WSClient \<Rightarrow> bool"
  assumes I_init: "I ws_init"
    and I_step: "I s \<Longrightarrow> ws_exec l s = Some s' \<Longrightarrow> I s'"
begin

lemma reachable: "ws_reachable s \<Longrightarrow> I s"
  by (induction rule: ws_reachable.induct) (auto intro: I_init I_step)

lemma execs: "I s \<Longrightarrow> ws_execs ls s = Some s' \<Longrightarrow> I s'"
  by (induction ls arbitrary: s) (auto intro: I_step split: option.splits)

end

text \<open>What the operations leave unchanged.\<close>

lemma goto_simps [simp]:
  "ws_pending (goto s t pc) = ws_pending s" "ws_subs (goto s t pc) = ws_subs s"
  "ws_closed (goto s t pc) = ws_closed s" "ws_done (goto s t pc) = ws_done s"
  "ws_chans (goto s t pc) = ws_chans s" "ws_nextChan (goto s t pc) = ws_nextChan s"
  "ws_objs (goto s t pc) = ws_objs s" "ws_nextSub (goto s t pc) = ws_nextSub s"
  "ws_reader (goto s t pc) = ws_reader s" "ws_panic (goto s t pc) = ws_panic s"
  "ws_threads (goto s t pc) = (ws_threads s)(t := pc)" "ws_sent (goto s t pc) = ws_sent s"
  "ws_writeMu (goto s t pc) = ws_writeMu s" "ws_connClosed (goto s t pc) = ws_connClosed s"
  by (simp_all add: goto_def)

lemma afterRoundTrip_simps [simp]:
  "ws_pending (afterRoundTrip s t cl res) = ws_pending s" "ws_subs (afterRoundTrip s t cl res) = ws_subs s"
  "ws_closed (afterRoundTrip s t cl res) = ws_closed s" "ws_done (afterRoundTrip s t cl res) = ws_done s"
  "ws_chans (afterRoundTrip s t cl res) = ws_chans s" "ws_nextChan (afterRoundTrip s t cl res) = ws_nextChan s"
  "ws_nextSub (afterRoundTrip s t cl res) = ws_nextSub s" "ws_reader (afterRoundTrip s t cl res) = ws_reader s"
  "ws_panic (afterRoundTrip s t cl res) = ws_panic s"
  by (cases cl; simp add: afterRoundTrip_defs split: sum.split)+

lemma removeSubscription_simps [simp]:
  "ws_pending (removeSubscription s r) = ws_pending s" "ws_closed (removeSubscription s r) = ws_closed s"
  "ws_done (removeSubscription s r) = ws_done s" "ws_chans (removeSubscription s r) = ws_chans s"
  "ws_nextChan (removeSubscription s r) = ws_nextChan s" "ws_objs (removeSubscription s r) = ws_objs s"
  "ws_nextSub (removeSubscription s r) = ws_nextSub s" "ws_reader (removeSubscription s r) = ws_reader s"
  "ws_panic (removeSubscription s r) = ws_panic s" "ws_threads (removeSubscription s r) = ws_threads s"
  by (simp_all add: removeSubscription_def Let_def)

lemma close_events_simps [simp]:
  "ws_pending (close_events s r) = ws_pending s" "ws_subs (close_events s r) = ws_subs s"
  "ws_closed (close_events s r) = ws_closed s" "ws_done (close_events s r) = ws_done s"
  "ws_chans (close_events s r) = ws_chans s" "ws_nextChan (close_events s r) = ws_nextChan s"
  "ws_nextSub (close_events s r) = ws_nextSub s" "ws_reader (close_events s r) = ws_reader s"
  "ws_threads (close_events s r) = ws_threads s"
  by (simp_all add: close_events_def panic_def Let_def)

lemma send_event_simps [simp]:
  "ws_pending (send_event s r e) = ws_pending s" "ws_subs (send_event s r e) = ws_subs s"
  "ws_closed (send_event s r e) = ws_closed s" "ws_done (send_event s r e) = ws_done s"
  "ws_chans (send_event s r e) = ws_chans s" "ws_nextChan (send_event s r e) = ws_nextChan s"
  "ws_nextSub (send_event s r e) = ws_nextSub s" "ws_threads (send_event s r e) = ws_threads s"
  by (simp_all add: send_event_def panic_def Let_def)

lemma Subscribe_simps [simp]:
  "ws_pending (Subscribe s t topic filt) = ws_pending s" "ws_closed (Subscribe s t topic filt) = ws_closed s"
  "ws_done (Subscribe s t topic filt) = ws_done s" "ws_chans (Subscribe s t topic filt) = ws_chans s"
  "ws_nextChan (Subscribe s t topic filt) = ws_nextChan s" "ws_reader (Subscribe s t topic filt) = ws_reader s"
  "ws_panic (Subscribe s t topic filt) = ws_panic s" "ws_nextSub (Subscribe s t topic filt) = Suc (ws_nextSub s)"
  by (simp_all add: Subscribe_def Let_def)

text \<open>A write ends in one of two ways.\<close>

lemma roundTrip_write_cases:
  obtains (sent) "WriteJSON (request_of s cl) out = None"
      "roundTrip_write s t cl ch out =
        goto (s\<lparr>ws_writeMu := None, ws_sent := ws_sent s @ [request_of s cl]\<rparr>) t (AtWait cl ch)"
  | (failed) err where "WriteJSON (request_of s cl) out \<noteq> None"
      "roundTrip_write s t cl ch out = afterRoundTrip (s\<lparr>ws_writeMu := None\<rparr>) t cl (Inl err)"
proof -
  have "request_of (s\<lparr>ws_writeMu := None\<rparr>) cl = request_of s cl"
    by (cases cl) simp_all
  then show ?thesis
    using that by (cases "WriteJSON (request_of s cl) out") (simp_all add: roundTrip_write_def Let_def)
qed

text \<open>The step function, label by label.\<close>

lemma ws_exec_cases:
  assumes "ws_exec l s = Some s'"
  obtains (subscribe) t topic filt where "l = StartSubscribe t topic filt" "ws_threads s t = Idle"
      "s' = Subscribe s t topic filt"
  | (unsubscribe) t t' r where "l = StartUnsubscribe t t'" "ws_threads s t' = Finished (Inr r)"
      "ws_threads s t = Idle" "s' = goto s t (AtEnqueue (CallUnsubscribe r))"
  | (enqueue) t cl where "l = Enqueue t" "ws_threads s t = AtEnqueue cl" "s' = roundTrip_enqueue s t cl"
  | (lock) t cl ch where "l = Lock t" "ws_threads s t = AtWrite cl ch" "ws_writeMu s = None"
      "s' = goto (s\<lparr>ws_writeMu := Some t\<rparr>) t (AtWriting cl ch)"
  | (sending) t cl ch out where "l = Write t out" "ws_threads s t = AtWriting cl ch"
      "s' = roundTrip_write s t cl ch out"
  | (await) t cl ch choice where "l = Await t choice" "ws_threads s t = AtWait cl ch"
      "roundTrip_wait s t cl ch choice = Some s'"
  | (unlink) t r res where "l = Unlink t" "ws_threads s t = AtUnlink r res"
      "s' = goto (removeSubscription s r) t (AtClose r res)"
  | (close_events) t r res where "l = CloseEvents t" "ws_threads s t = AtClose r res"
      "s' = goto (close_events s r) t (Finished res)"
  | (recv) raw where "l = Recv raw" "ws_reader s = RRead" "s' = readLoop_message s raw"
  | (recv_err) err allSubs where "l = RecvErr err allSubs" "ws_reader s = RRead"
      "mset allSubs = mset (registered s)" "s' = teardown s err allSubs"
  | (reader) "l = ReaderStep" "reader_step s = Some s'"
  | (close_conn) "l = CloseConn" "s' = s\<lparr>ws_connClosed := True\<rparr>"
  | (consume) r e es where "l = Consume r" "sub_events (ws_objs s r) = e # es"
      "s' = s\<lparr>ws_objs := (ws_objs s)(r := (ws_objs s r)\<lparr>sub_events := es\<rparr>)\<rparr>"
  using assms
  by (auto simp: ws_exec_def roundTrip_lock_def Unsubscribe_def WSClient_Close_def
      split: if_splits ws_label.splits caller_pc.splits sum.splits list.splits)

lemma ws_exec_not_panicked: "ws_exec l s = Some s' \<Longrightarrow> \<not> ws_panic s"
  by (simp add: ws_exec_def split: if_splits)

section \<open>Response channels\<close>

definition fresh_chan :: "(chan_ref \<Rightarrow> resp_chan) \<Rightarrow> nat \<Rightarrow> chan_ref \<Rightarrow> bool" where
  "fresh_chan chans n ch \<longleftrightarrow> rc_buf (chans ch) = [] \<and> \<not> rc_closed (chans ch) \<and> ch < n"

text \<open>What the read loop relies on, from the flags, the queue, the channels and their number.\<close>

fun reader_chans_ok ::
  "bool \<Rightarrow> bool \<Rightarrow> chan_ref list \<Rightarrow> (chan_ref \<Rightarrow> resp_chan) \<Rightarrow> nat \<Rightarrow> reader_pc \<Rightarrow> bool" where
  "reader_chans_ok cl dn pend chans n (RRespond ch resp) \<longleftrightarrow>
     \<not> cl \<and> \<not> dn \<and> fresh_chan chans n ch \<and> ch \<notin> set pend"
| "reader_chans_ok cl dn pend chans n (RCloseDone chs subs) \<longleftrightarrow>
     cl \<and> \<not> dn \<and> distinct chs \<and> list_all (fresh_chan chans n) chs"
| "reader_chans_ok cl dn pend chans n (RClosePending chs subs) \<longleftrightarrow>
     cl \<and> dn \<and> distinct chs \<and> list_all (fresh_chan chans n) chs"
| "reader_chans_ok cl dn pend chans n (RCloseSubs subs) \<longleftrightarrow> cl \<and> dn"
| "reader_chans_ok cl dn pend chans n RCloseConn \<longleftrightarrow> cl \<and> dn"
| "reader_chans_ok cl dn pend chans n RStopped \<longleftrightarrow> cl \<and> dn"
| "reader_chans_ok cl dn pend chans n RRead \<longleftrightarrow> \<not> cl \<and> \<not> dn"
| "reader_chans_ok cl dn pend chans n (RFan e subs) \<longleftrightarrow> \<not> cl \<and> \<not> dn"

definition chan_inv :: "WSClient \<Rightarrow> bool" where
  "chan_inv s \<longleftrightarrow>
     list_all (fresh_chan (ws_chans s) (ws_nextChan s)) (ws_pending s) \<and>
     (if ws_closed s then ws_pending s = []
      else length (ws_pending s) \<le> ws_nextChan s \<and>
           ws_pending s = [ws_nextChan s - length (ws_pending s)..<ws_nextChan s]) \<and>
     reader_chans_ok (ws_closed s) (ws_done s) (ws_pending s) (ws_chans s) (ws_nextChan s) (ws_reader s)"

text \<open>Changing a channel that is not fresh, or making a new one, keeps the fresh ones.\<close>

lemma fresh_chan_new: "fresh_chan chans n c \<Longrightarrow> fresh_chan (chans(n := x)) (Suc n) c"
  by (auto simp: fresh_chan_def)

lemma fresh_chan_used: "rc_buf (chans ch) \<noteq> [] \<Longrightarrow> fresh_chan chans n c \<Longrightarrow> fresh_chan (chans(ch := x)) n c"
  by (auto simp: fresh_chan_def)

lemma fresh_chan_other: "c \<noteq> ch \<Longrightarrow> fresh_chan (chans(ch := x)) n c \<longleftrightarrow> fresh_chan chans n c"
  by (simp add: fresh_chan_def)

lemma reader_chans_ok_mono:
  assumes "reader_chans_ok cl dn pend chans n pc"
    and "\<And>c. fresh_chan chans n c \<Longrightarrow> fresh_chan chans' n' c"
    and "\<And>c. fresh_chan chans n c \<Longrightarrow> c \<notin> set pend \<Longrightarrow> c \<notin> set pend'"
  shows "reader_chans_ok cl dn pend' chans' n' pc"
  using assms by (cases pc) (auto simp: list_all_iff)

lemma list_all_imp: "list_all P xs \<Longrightarrow> (\<And>x. P x \<Longrightarrow> Q x) \<Longrightarrow> list_all Q xs"
  by (auto simp: list_all_iff)

lemma chan_inv_enqueue:
  assumes "chan_inv s"
  shows "chan_inv (roundTrip_enqueue s t cl)"
proof -
  let ?n = "ws_nextChan s" and ?chans = "(ws_chans s)(ws_nextChan s := new_chan)"
  note new = fresh_chan_new [of "ws_chans s" ?n _ new_chan]
  have "fresh_chan (ws_chans s) ?n c \<Longrightarrow> c \<noteq> ?n" for c
    by (auto simp: fresh_chan_def)
  then have "reader_chans_ok (ws_closed s) (ws_done s) (ws_pending s @ [?n]) ?chans (Suc ?n) (ws_reader s)"
    and "reader_chans_ok (ws_closed s) (ws_done s) (ws_pending s) ?chans (Suc ?n) (ws_reader s)"
    using assms new unfolding chan_inv_def by (auto intro: reader_chans_ok_mono)
  moreover have "list_all (fresh_chan ?chans (Suc ?n)) (ws_pending s @ [?n])"
    using assms new by (auto simp: chan_inv_def new_chan_def fresh_chan_def list_all_iff)
  ultimately show ?thesis
    using assms by (auto simp: chan_inv_def roundTrip_enqueue_def Let_def Suc_diff_le)
qed

lemma chan_inv_wait:
  assumes "chan_inv s" and "roundTrip_wait s t cl ch choice = Some s'"
  shows "chan_inv s'"
proof (cases "choice = GotResponse \<and> rc_buf (ws_chans s ch) \<noteq> []")
  case True
  then obtain resp rest where buf: "rc_buf (ws_chans s ch) = resp # rest"
    by (auto simp: neq_Nil_conv)
  let ?chans = "(ws_chans s)(ch := (ws_chans s ch)\<lparr>rc_buf := rest\<rparr>)"
  have keep: "fresh_chan (ws_chans s) (ws_nextChan s) c \<Longrightarrow> fresh_chan ?chans (ws_nextChan s) c" for c
    using fresh_chan_used True by blast
  then have "reader_chans_ok (ws_closed s) (ws_done s) (ws_pending s) ?chans (ws_nextChan s) (ws_reader s)"
    and "list_all (fresh_chan ?chans (ws_nextChan s)) (ws_pending s)"
    using assms(1) unfolding chan_inv_def by (auto intro: reader_chans_ok_mono list_all_imp)
  with assms True buf show ?thesis
    by (auto simp: chan_inv_def roundTrip_wait_def)
next
  case False
  with assms show ?thesis
    by (auto simp: chan_inv_def roundTrip_wait_def split: ws_choice.splits list.splits if_splits)
qed

lemma chan_inv_message:
  assumes "chan_inv s" and "ws_reader s = RRead"
  shows "chan_inv (readLoop_message s raw)"
proof -
  let ?p = "ws_pending s" and ?n = "ws_nextChan s"
  have "ch < ?n \<and> ch = ?n - length ?p \<and> rest = [?n - length rest..<?n] \<and> ch \<notin> set rest"
    if "?p = ch # rest" "\<not> ws_closed s" for ch rest
  proof -
    have eq: "ch # rest = [?n - length ?p..<?n]"
      using assms that by (simp add: chan_inv_def)
    then have "distinct (ch # rest)"
      by (metis distinct_upt)
    then have "ch \<notin> set rest" by simp
    moreover have "0 < length ?p" "length ?p \<le> ?n"
      using assms that by (simp_all add: chan_inv_def)
    with eq have "ch < ?n" "ch = ?n - length ?p" "rest = [?n - length rest..<?n]"
      using that by (simp_all add: upt_conv_Cons Suc_diff_Suc)
    ultimately show ?thesis by blast
  qed
  with assms show ?thesis
    by (auto simp: chan_inv_def readLoop_message_def split: option.split sum.split list.split)
qed

lemma chan_inv_reader:
  assumes "chan_inv s" and "reader_step s = Some s'"
  shows "chan_inv s'"
  using assms
  by (auto simp: chan_inv_def reader_step_def close_done_def close_chan_def send_response_def panic_def
      fresh_chan_def list_all_iff Let_def split: reader_pc.splits list.splits if_splits)

interpretation chan: ws_invariant chan_inv
proof
  show "chan_inv ws_init"
    by (simp add: chan_inv_def ws_init_def)
next
  fix s l s'
  assume inv: "chan_inv s" and ex: "ws_exec l s = Some s'"
  from ex show "chan_inv s'"
  proof (cases rule: ws_exec_cases)
    case (sending t cl ch out)
    with inv show ?thesis
      by (cases rule: roundTrip_write_cases [of s cl out t ch]) (simp_all add: chan_inv_def)
  next
    case (recv_err err allSubs)
    with inv show ?thesis
      by (auto simp: chan_inv_def teardown_def) (metis distinct_upt)
  qed (use inv in \<open>auto intro: chan_inv_enqueue chan_inv_wait chan_inv_message chan_inv_reader\<close>,
       simp_all add: chan_inv_def)
qed

section \<open>Subscriptions\<close>

definition topic_subs :: "(EventTopic \<times> sub_ref list) list \<Rightarrow> EventTopic \<Rightarrow> sub_ref list" where
  "topic_subs m topic = (case map_of m topic of None \<Rightarrow> [] | Some subs \<Rightarrow> subs)"

lemma subs_of_conv: "subs_of s topic = topic_subs (ws_subs s) topic"
  by (simp add: subs_of_def topic_subs_def)

lemma topic_subs_Nil [simp]: "topic_subs [] topic = []"
  by (simp add: topic_subs_def)

lemma topic_subs_update [simp]:
  "topic_subs (AList.update k v m) topic = (if topic = k then v else topic_subs m topic)"
  by (simp add: topic_subs_def update_conv')

lemma registered_conv:
  assumes "distinct (map fst (ws_subs s))"
  shows "r \<in> set (registered s) \<longleftrightarrow> (\<exists>topic. r \<in> set (subs_of s topic))"
proof -
  have "r \<in> set (registered s) \<longleftrightarrow> (\<exists>topic subs. (topic, subs) \<in> set (ws_subs s) \<and> r \<in> set subs)"
    by (force simp: registered_def)
  also have "\<dots> \<longleftrightarrow> (\<exists>topic subs. map_of (ws_subs s) topic = Some subs \<and> r \<in> set subs)"
    using assms by (auto simp: map_of_eq_Some_iff)
  also have "\<dots> \<longleftrightarrow> (\<exists>topic. r \<in> set (subs_of s topic))"
    unfolding subs_of_def by (metis empty_iff list.set(1) not_Some_eq option.case)
  finally show ?thesis .
qed

text \<open>References held by a caller, bounded by the number of subscriptions made so far.\<close>

fun pc_refs :: "caller_pc \<Rightarrow> sub_ref set" where
  "pc_refs (AtEnqueue cl) = {call_sub cl}"
| "pc_refs (AtWrite cl ch) = {call_sub cl}"
| "pc_refs (AtWriting cl ch) = {call_sub cl}"
| "pc_refs (AtWait cl ch) = {call_sub cl}"
| "pc_refs (AtUnlink r res) = {r} \<union> (case res of Inl e \<Rightarrow> {} | Inr r' \<Rightarrow> {r'})"
| "pc_refs (AtClose r res) = {r} \<union> (case res of Inl e \<Rightarrow> {} | Inr r' \<Rightarrow> {r'})"
| "pc_refs (Finished res) = (case res of Inl e \<Rightarrow> {} | Inr r' \<Rightarrow> {r'})"
| "pc_refs Idle = {}"

definition sub_shape :: "Subscription \<Rightarrow> bool" where
  "sub_shape sub \<longleftrightarrow> sub_once sub = sub_closed sub \<and> length (sub_events sub) \<le> subEventBuffer"

definition sub_inv :: "WSClient \<Rightarrow> bool" where
  "sub_inv s \<longleftrightarrow>
     (\<forall>r. sub_shape (ws_objs s r)) \<and>
     distinct (map fst (ws_subs s)) \<and>
     (\<forall>topic. distinct (topic_subs (ws_subs s) topic)) \<and>
     (\<forall>topic. \<forall>r \<in> set (topic_subs (ws_subs s) topic).
        r < ws_nextSub s \<and> sub_topic (ws_objs s r) = topic \<and> \<not> sub_closed (ws_objs s r)) \<and>
     (\<forall>t. \<forall>r \<in> pc_refs (ws_threads s t). r < ws_nextSub s) \<and>
     (\<forall>t r res. ws_threads s t = AtClose r res \<longrightarrow>
        r \<notin> set (topic_subs (ws_subs s) (sub_topic (ws_objs s r)))) \<and>
     (ws_closed s \<longrightarrow> ws_subs s = [])"

lemma sub_invI:
  assumes "\<And>r. sub_shape (ws_objs s r)"
    and "distinct (map fst (ws_subs s))"
    and "\<And>topic. distinct (topic_subs (ws_subs s) topic)"
    and "\<And>topic r. r \<in> set (topic_subs (ws_subs s) topic) \<Longrightarrow>
      r < ws_nextSub s \<and> sub_topic (ws_objs s r) = topic \<and> \<not> sub_closed (ws_objs s r)"
    and "\<And>t r. r \<in> pc_refs (ws_threads s t) \<Longrightarrow> r < ws_nextSub s"
    and "\<And>t r res. ws_threads s t = AtClose r res \<Longrightarrow>
      r \<notin> set (topic_subs (ws_subs s) (sub_topic (ws_objs s r)))"
    and "ws_closed s \<Longrightarrow> ws_subs s = []"
  shows "sub_inv s"
  using assms unfolding sub_inv_def by blast

lemma sub_invD:
  assumes "sub_inv s"
  shows "sub_shape (ws_objs s r)"
    and "distinct (map fst (ws_subs s))"
    and "distinct (topic_subs (ws_subs s) topic)"
    and "r \<in> set (topic_subs (ws_subs s) topic) \<Longrightarrow> r < ws_nextSub s"
    and "r \<in> set (topic_subs (ws_subs s) topic) \<Longrightarrow> sub_topic (ws_objs s r) = topic"
    and "r \<in> set (topic_subs (ws_subs s) topic) \<Longrightarrow> \<not> sub_closed (ws_objs s r)"
    and "r \<in> pc_refs (ws_threads s t) \<Longrightarrow> r < ws_nextSub s"
    and "ws_threads s t = AtClose r res \<Longrightarrow>
      r \<notin> set (topic_subs (ws_subs s) (sub_topic (ws_objs s r)))"
    and "ws_closed s \<Longrightarrow> ws_subs s = []"
  using assms unfolding sub_inv_def by blast+

text \<open>Steps that change subscriptions only in their buffers or ids, and threads only by bounded references.\<close>

lemma sub_inv_frame:
  assumes "sub_inv s" and "ws_subs s' = ws_subs s" and "ws_closed s' = ws_closed s"
    and "ws_nextSub s' = ws_nextSub s"
    and "\<And>r. sub_shape (ws_objs s' r) \<and> sub_topic (ws_objs s' r) = sub_topic (ws_objs s r) \<and>
        sub_closed (ws_objs s' r) = sub_closed (ws_objs s r)"
    and "\<And>t. ws_threads s' t = ws_threads s t \<or>
        pc_refs (ws_threads s' t) \<subseteq> pc_refs (ws_threads s t) \<and> (\<forall>r res. ws_threads s' t \<noteq> AtClose r res)"
  shows "sub_inv s'"
proof -
  have "r < ws_nextSub s" if "r \<in> pc_refs (ws_threads s' t)" for t r
    using assms(1) assms(6) [of t] that unfolding sub_inv_def by (metis subsetD)
  moreover have "r \<notin> set (topic_subs (ws_subs s) (sub_topic (ws_objs s r)))"
    if "ws_threads s' t = AtClose r res" for t r res
    using assms(1) assms(6) [of t] that unfolding sub_inv_def by metis
  ultimately show ?thesis
    using assms unfolding sub_inv_def by simp
qed

lemma sub_inv_same:
  assumes "sub_inv s" and "ws_subs s' = ws_subs s" and "ws_closed s' = ws_closed s"
    and "ws_nextSub s' = ws_nextSub s" and "ws_objs s' = ws_objs s" and "ws_threads s' = ws_threads s"
  shows "sub_inv s'"
  using assms by (simp add: sub_inv_def)

lemma pc_refs_afterRoundTrip:
  "ws_threads (afterRoundTrip s t cl res) t' = ws_threads s t' \<or>
   t' = t \<and> pc_refs (ws_threads (afterRoundTrip s t cl res) t') \<subseteq> {call_sub cl} \<and>
   (\<forall>r res'. ws_threads (afterRoundTrip s t cl res) t' \<noteq> AtClose r res')"
  by (cases cl) (auto simp: afterRoundTrip_defs split: sum.split)

lemma objs_afterRoundTrip:
  "sub_shape (ws_objs (afterRoundTrip s t cl res) r) = sub_shape (ws_objs s r) \<and>
   sub_topic (ws_objs (afterRoundTrip s t cl res) r) = sub_topic (ws_objs s r) \<and>
   sub_closed (ws_objs (afterRoundTrip s t cl res) r) = sub_closed (ws_objs s r)"
  by (cases cl) (auto simp: afterRoundTrip_defs sub_shape_def split: sum.split)

lemma sub_inv_afterRoundTrip:
  assumes "sub_inv s" and "ws_threads s t \<in> {AtEnqueue cl, AtWriting cl ch, AtWait cl ch}"
  shows "sub_inv (afterRoundTrip s t cl res)"
proof (rule sub_inv_frame [OF assms(1)])
  fix r
  show "sub_shape (ws_objs (afterRoundTrip s t cl res) r) \<and>
      sub_topic (ws_objs (afterRoundTrip s t cl res) r) = sub_topic (ws_objs s r) \<and>
      sub_closed (ws_objs (afterRoundTrip s t cl res) r) = sub_closed (ws_objs s r)"
    using objs_afterRoundTrip assms(1) by (simp add: sub_inv_def)
next
  fix t'
  show "ws_threads (afterRoundTrip s t cl res) t' = ws_threads s t' \<or>
      pc_refs (ws_threads (afterRoundTrip s t cl res) t') \<subseteq> pc_refs (ws_threads s t') \<and>
      (\<forall>r res'. ws_threads (afterRoundTrip s t cl res) t' \<noteq> AtClose r res')"
    using pc_refs_afterRoundTrip [of s t cl res t'] assms(2) by auto
qed simp_all

lemma sub_inv_goto:
  assumes "sub_inv s" and "pc_refs pc \<subseteq> {r. r < ws_nextSub s}" and "\<forall>r res. pc \<noteq> AtClose r res"
  shows "sub_inv (goto s t pc)"
  using assms by (auto simp: sub_inv_def)

text \<open>\<open>Subscribe\<close>: first the new object, then its registration.\<close>

definition alloc_sub :: "WSClient \<Rightarrow> EventTopic \<Rightarrow> WSClient" where
  "alloc_sub s topic =
     s\<lparr>ws_objs := (ws_objs s)(ws_nextSub s := new_sub topic), ws_nextSub := Suc (ws_nextSub s)\<rparr>"

lemma sub_inv_alloc:
  assumes "sub_inv s"
  shows "sub_inv (alloc_sub s topic)" (is "sub_inv ?u")
proof (rule sub_invI)
  note inv = sub_invD [OF assms]
  show "sub_shape (ws_objs ?u r)" for r
    using inv(1) by (simp add: alloc_sub_def sub_shape_def new_sub_def)
  show "r < ws_nextSub ?u \<and> sub_topic (ws_objs ?u r) = tp \<and> \<not> sub_closed (ws_objs ?u r)"
    if "r \<in> set (topic_subs (ws_subs ?u) tp)" for tp r
    using inv(4,5,6) [of r tp] that by (simp add: alloc_sub_def)
  show "r < ws_nextSub ?u" if "r \<in> pc_refs (ws_threads ?u t')" for t' r
    using inv(7) [of r t'] that by (simp add: alloc_sub_def)
  show "r \<notin> set (topic_subs (ws_subs ?u) (sub_topic (ws_objs ?u r)))"
    if "ws_threads ?u t' = AtClose r res" for t' r res
    using inv(8) [of t' r res] inv(7) [of r t'] that by (simp add: alloc_sub_def)
qed (use sub_invD [OF assms] in \<open>simp_all add: alloc_sub_def\<close>)

lemma sub_inv_register:
  assumes "sub_inv s" and nc: "\<not> ws_closed s"
  shows "sub_inv ((alloc_sub s topic)\<lparr>ws_subs :=
    AList.update topic (topic_subs (ws_subs s) topic @ [ws_nextSub s]) (ws_subs s)\<rparr>)" (is "sub_inv ?v")
proof (rule sub_invI)
  note inv = sub_invD [OF assms(1)]
  show "distinct (map fst (ws_subs ?v))"
    using inv(2) by (simp add: distinct_update)
  show "distinct (topic_subs (ws_subs ?v) tp)" for tp
    using inv(3) inv(4) [of "ws_nextSub s"] by auto
  show "r < ws_nextSub ?v \<and> sub_topic (ws_objs ?v r) = tp \<and> \<not> sub_closed (ws_objs ?v r)"
    if "r \<in> set (topic_subs (ws_subs ?v) tp)" for tp r
    using inv(4,5,6) [of r tp] that by (auto simp: alloc_sub_def new_sub_def split: if_splits)
  show "r \<notin> set (topic_subs (ws_subs ?v) (sub_topic (ws_objs ?v r)))"
    if "ws_threads ?v t' = AtClose r res" for t' r res
    using inv(8) [of t' r res] inv(7) [of r t'] that by (auto simp: alloc_sub_def)
qed (use sub_invD [OF sub_inv_alloc [OF assms(1)]] nc in \<open>simp_all add: alloc_sub_def\<close>)

lemma sub_inv_subscribe:
  assumes "sub_inv s"
  shows "sub_inv (Subscribe s t topic filt)"
proof (cases "ws_closed s")
  case True
  then show ?thesis
    using sub_inv_goto [OF sub_inv_alloc [OF assms]] by (simp add: Subscribe_def Let_def alloc_sub_def)
next
  case False
  then show ?thesis
    using sub_inv_goto [OF sub_inv_register [OF assms False]]
    by (simp add: Subscribe_def Let_def alloc_sub_def subs_of_conv)
qed

lemma sub_inv_unlink:
  assumes "sub_inv s" and "ws_threads s t = AtUnlink r res"
  shows "sub_inv (goto (removeSubscription s r) t (AtClose r res))"
proof -
  let ?m = "ws_subs (removeSubscription s r)"
  note inv = sub_invD [OF assms(1)]
  have sub: "r' \<in> set (topic_subs (ws_subs s) tp)" if "r' \<in> set (topic_subs ?m tp)" for r' tp
    using that by (auto simp: removeSubscription_def subs_of_conv Let_def split: if_splits
        dest: set_remove1_subset [THEN subsetD])
  have gone: "r \<notin> set (topic_subs ?m (sub_topic (ws_objs s r)))"
    using inv(3) by (simp add: removeSubscription_def subs_of_conv Let_def)
  show ?thesis
  proof (rule sub_invI)
    show "distinct (map fst (ws_subs (goto (removeSubscription s r) t (AtClose r res))))"
      using inv(2) by (simp add: removeSubscription_def distinct_update Let_def)
    show "distinct (topic_subs (ws_subs (goto (removeSubscription s r) t (AtClose r res))) tp)" for tp
      using inv(3) by (simp add: removeSubscription_def subs_of_conv Let_def)
    show "r' < ws_nextSub (goto (removeSubscription s r) t (AtClose r res)) \<and>
        sub_topic (ws_objs (goto (removeSubscription s r) t (AtClose r res)) r') = tp \<and>
        \<not> sub_closed (ws_objs (goto (removeSubscription s r) t (AtClose r res)) r')"
      if "r' \<in> set (topic_subs (ws_subs (goto (removeSubscription s r) t (AtClose r res))) tp)" for tp r'
      using inv(4,5,6) [of r' tp] sub [of r' tp] that by simp
    show "r' < ws_nextSub (goto (removeSubscription s r) t (AtClose r res))"
      if "r' \<in> pc_refs (ws_threads (goto (removeSubscription s r) t (AtClose r res)) t')" for t' r'
      using inv(7) [of r' t'] assms(2) that by (simp split: if_splits)
    show "r' \<notin> set (topic_subs (ws_subs (goto (removeSubscription s r) t (AtClose r res)))
        (sub_topic (ws_objs (goto (removeSubscription s r) t (AtClose r res)) r')))"
      if "ws_threads (goto (removeSubscription s r) t (AtClose r res)) t' = AtClose r' res'" for t' r' res'
      using inv(8) [of t' r' res'] gone sub that by (auto split: if_splits)
    show "ws_subs (goto (removeSubscription s r) t (AtClose r res)) = []"
      if "ws_closed (goto (removeSubscription s r) t (AtClose r res))"
    proof -
      have "ws_subs s = []"
        using inv(9) that by simp
      then show ?thesis
        by (simp add: removeSubscription_def subs_of_conv Let_def)
    qed
  qed (use inv(1) in simp)
qed

text \<open>Closing an event channel is fine for subscriptions that are no longer registered.\<close>

lemma sub_inv_close:
  assumes "sub_inv s" and "r \<notin> set (topic_subs (ws_subs s) (sub_topic (ws_objs s r)))"
  shows "sub_inv (close_events s r)" and "ws_panic (close_events s r) = ws_panic s"
    and "sub_closed (ws_objs (close_events s r) r)"
    and "sub_closed (ws_objs (close_events s r) r') \<longleftrightarrow> r' = r \<or> sub_closed (ws_objs s r')"
proof -
  have shape: "sub_once (ws_objs s r) = sub_closed (ws_objs s r)"
    using assms(1) by (simp add: sub_inv_def sub_shape_def)
  then show "ws_panic (close_events s r) = ws_panic s" "sub_closed (ws_objs (close_events s r) r)"
    "sub_closed (ws_objs (close_events s r) r') \<longleftrightarrow> r' = r \<or> sub_closed (ws_objs s r')"
    by (auto simp: close_events_def Let_def)
  note inv = sub_invD [OF assms(1)]
  have other: "r' \<noteq> r" if "r' \<in> set (topic_subs (ws_subs s) tp)" for r' tp
    using assms(2) inv(5) that by blast
  have objs: "ws_objs (close_events s r) =
      (ws_objs s)(r := (ws_objs s r)\<lparr>sub_closed := True, sub_once := True\<rparr>)"
    using shape by (auto simp: close_events_def panic_def Let_def fun_eq_iff)
  show "sub_inv (close_events s r)"
  proof (rule sub_invI)
    show "sub_shape (ws_objs (close_events s r) r')" for r'
      using inv(1) by (simp add: objs sub_shape_def)
    show "r' < ws_nextSub (close_events s r) \<and> sub_topic (ws_objs (close_events s r) r') = tp \<and>
        \<not> sub_closed (ws_objs (close_events s r) r')"
      if "r' \<in> set (topic_subs (ws_subs (close_events s r)) tp)" for tp r'
      using inv(4,5,6) [of r' tp] other [of r' tp] that by (simp add: objs)
    show "r' \<notin> set (topic_subs (ws_subs (close_events s r)) (sub_topic (ws_objs (close_events s r) r')))"
      if "ws_threads (close_events s r) t' = AtClose r' res'" for t' r' res'
      using inv(8) [of t' r' res'] assms(2) that by (simp add: objs)
  qed (use inv in simp_all)
qed

lemma send_event_objs:
  "ws_objs (send_event s r e) =
     (if \<not> sub_closed (ws_objs s r) \<and> length (sub_events (ws_objs s r)) < subEventBuffer
      then (ws_objs s)(r := (ws_objs s r)\<lparr>sub_events := sub_events (ws_objs s r) @ [e]\<rparr>) else ws_objs s)"
  by (simp add: send_event_def panic_def Let_def)

lemma sub_inv_send: "sub_inv s \<Longrightarrow> sub_inv (send_event s r e)"
  by (rule sub_inv_frame) (auto simp: send_event_objs sub_inv_def sub_shape_def)

lemma sub_inv_reader:
  assumes "sub_inv s" and "ws_closed s \<or> (\<forall>subs. ws_reader s \<noteq> RCloseSubs subs)" and "reader_step s = Some s'"
  shows "sub_inv s'"
proof -
  have keep: "sub_inv (u\<lparr>ws_reader := pc\<rparr>) \<longleftrightarrow> sub_inv u" for u pc
    by (simp add: sub_inv_def)
  show ?thesis
  proof (cases "ws_reader s")
    case (RFan e rs)
    with assms sub_inv_send show ?thesis
      by (cases rs) (auto simp: reader_step_def keep)
  next
    case (RCloseSubs rs)
    with assms(1,2) have "ws_subs s = []"
      by (auto simp: sub_inv_def)
    with RCloseSubs assms(3) sub_inv_close(1) [OF assms(1)] assms(1) show ?thesis
      by (cases rs) (auto simp: reader_step_def keep)
  next
    case (RRespond ch resp)
    have "sub_inv (s\<lparr>ws_chans := x\<rparr>)" "sub_inv (panic s)" for x
      using assms(1) by (simp_all add: sub_inv_def panic_def)
    with RRespond assms(3) show ?thesis
      by (auto simp: reader_step_def send_response_def keep Let_def split: if_splits)
  next
    case (RClosePending chs rs)
    have "sub_inv (s\<lparr>ws_chans := x\<rparr>)" "sub_inv (panic s)" for x
      using assms(1) by (simp_all add: sub_inv_def panic_def)
    with RClosePending assms(1,3) show ?thesis
      by (auto simp: reader_step_def close_chan_def keep Let_def split: if_splits list.splits)
  next
    case (RCloseDone chs rs)
    then show ?thesis
      using assms(3) by (intro sub_inv_same [OF assms(1)])
        (auto simp: reader_step_def close_done_def panic_def split: if_splits)
  next
    case RCloseConn
    then show ?thesis
      using assms(3) by (intro sub_inv_same [OF assms(1)]) (auto simp: reader_step_def)
  qed (use assms(3) in \<open>auto simp: reader_step_def\<close>)
qed

lemma sub_inv_enqueue:
  assumes "sub_inv s" and "ws_threads s t = AtEnqueue cl"
  shows "sub_inv (roundTrip_enqueue s t cl)"
proof -
  define u where "u = s\<lparr>ws_chans := (ws_chans s)(ws_nextChan s := new_chan), ws_nextChan := Suc (ws_nextChan s)\<rparr>"
  have "sub_inv u" "sub_inv (u\<lparr>ws_pending := x\<rparr>)" "ws_threads u t = AtEnqueue cl" for x
    using assms by (simp_all add: u_def sub_inv_def)
  moreover from this have "call_sub cl < ws_nextSub u"
    unfolding sub_inv_def by (force dest: spec [of _ t])
  ultimately show ?thesis
    by (auto simp: roundTrip_enqueue_def Let_def simp flip: u_def intro!: sub_inv_afterRoundTrip sub_inv_goto)
qed

lemma sub_inv_write:
  assumes "sub_inv s" and "ws_threads s t = AtWriting cl ch"
  shows "sub_inv (roundTrip_write s t cl ch out)"
proof -
  have "call_sub cl < ws_nextSub s"
    using assms unfolding sub_inv_def by (force dest: spec [of _ t])
  moreover have "sub_inv (s\<lparr>ws_writeMu := None\<rparr>)" "sub_inv (s\<lparr>ws_writeMu := None, ws_sent := x\<rparr>)" for x
    using assms(1) by (simp_all add: sub_inv_def)
  ultimately show ?thesis
    using assms(2)
    by (cases rule: roundTrip_write_cases [of s cl out t ch]) (auto intro!: sub_inv_afterRoundTrip sub_inv_goto)
qed

lemma sub_inv_lock:
  assumes "sub_inv s" and "ws_threads s t = AtWrite cl ch"
  shows "sub_inv (goto (s\<lparr>ws_writeMu := Some t\<rparr>) t (AtWriting cl ch))"
proof -
  have "call_sub cl < ws_nextSub s"
    using assms unfolding sub_inv_def by (force dest: spec [of _ t])
  moreover have "sub_inv (s\<lparr>ws_writeMu := Some t\<rparr>)"
    using assms(1) by (simp add: sub_inv_def)
  ultimately show ?thesis
    by (auto intro!: sub_inv_goto)
qed

lemma sub_inv_wait:
  assumes "sub_inv s" and "ws_threads s t = AtWait cl ch" and "roundTrip_wait s t cl ch choice = Some s'"
  shows "sub_inv s'"
proof -
  have "sub_inv (s\<lparr>ws_chans := x\<rparr>)" for x
    using assms(1) by (simp add: sub_inv_def)
  with assms show ?thesis
    by (auto simp: roundTrip_wait_def intro!: sub_inv_afterRoundTrip split: ws_choice.splits list.splits if_splits)
qed

lemma sub_inv_step:
  assumes "chan_inv s" and inv: "sub_inv s" and "ws_exec l s = Some s'"
  shows "sub_inv s'"
  using assms(3)
proof (cases rule: ws_exec_cases)
  case (unsubscribe t t' r)
  then have "r < ws_nextSub s"
    using inv unfolding sub_inv_def by (force dest: spec [of _ t'])
  with unsubscribe inv show ?thesis
    by (auto intro: sub_inv_goto)
next
  case (close_events t r res)
  then have "r \<notin> set (topic_subs (ws_subs s) (sub_topic (ws_objs s r)))" "pc_refs (Finished res) \<subseteq> {r. r < ws_nextSub s}"
    using inv unfolding sub_inv_def by (force dest: spec [of _ t])+
  with close_events inv sub_inv_close(1) show ?thesis
    by (auto intro!: sub_inv_goto)
next
  case (recv raw)
  with inv show ?thesis
    by (auto simp: readLoop_message_def sub_inv_def split: option.split sum.split list.split)
next
  case reader
  have "ws_closed s \<or> (\<forall>subs. ws_reader s \<noteq> RCloseSubs subs)"
    using assms(1) by (auto simp: chan_inv_def)
  with reader inv sub_inv_reader assms(1) show ?thesis by blast
next
  case (consume r e es)
  then have "length es \<le> subEventBuffer"
    using inv sub_invD(1) [of s r] by (simp add: sub_shape_def)
  with consume show ?thesis
    using inv by (auto simp: sub_inv_def sub_shape_def split: if_splits)
qed (use inv in \<open>auto intro: sub_inv_subscribe sub_inv_unlink sub_inv_enqueue sub_inv_lock sub_inv_write sub_inv_wait\<close>,
    simp_all add: sub_inv_def teardown_def)

interpretation subs: ws_invariant "\<lambda>s. chan_inv s \<and> sub_inv s"
proof
  have "sub_shape (new_sub [])"
    by (simp add: sub_shape_def new_sub_def)
  then show "chan_inv ws_init \<and> sub_inv ws_init"
    using chan.I_init by (simp add: sub_inv_def) (simp add: ws_init_def)
next
  show "chan_inv s' \<and> sub_inv s'" if "chan_inv s \<and> sub_inv s" and "ws_exec l s = Some s'" for s l s'
    using that sub_inv_step chan.I_step by blast
qed

section \<open>Panics\<close>

lemma send_event_panic:
  "ws_panic (send_event s r e) \<longleftrightarrow> ws_panic s \<or> sub_closed (ws_objs s r)"
  by (simp add: send_event_def panic_def Let_def)

lemma reader_step_panic:
  assumes "chan_inv s" and "sub_inv s" and "\<not> ws_panic s" and "reader_step s = Some s'" and "ws_panic s'"
  shows "\<exists>e r rs. ws_reader s = RFan e (r # rs) \<and> sub_closed (ws_objs s r)"
proof (cases "ws_reader s")
  case (RFan e rs)
  with assms show ?thesis
    by (cases rs) (auto simp: reader_step_def send_event_panic)
next
  case (RCloseSubs rs)
  with assms show ?thesis
    using sub_invD(1) [OF assms(2)]
    by (cases rs) (auto simp: reader_step_def close_events_def sub_shape_def Let_def split: if_splits)
next
  case (RClosePending chs rs)
  with assms show ?thesis
    by (cases chs) (auto simp: reader_step_def close_chan_def chan_inv_def fresh_chan_def Let_def split: if_splits)
qed (use assms in \<open>auto simp: reader_step_def send_response_def close_done_def chan_inv_def fresh_chan_def
      Let_def split: if_splits\<close>)

lemma ws_exec_panic:
  assumes "chan_inv s" and "sub_inv s" and "ws_exec l s = Some s'" and "ws_panic s'"
  shows "l = ReaderStep \<and> (\<exists>e r rs. ws_reader s = RFan e (r # rs) \<and> sub_closed (ws_objs s r))"
proof -
  have ok: "\<not> ws_panic s"
    using assms(3) by (rule ws_exec_not_panicked)
  from assms(3) show ?thesis
  proof (cases rule: ws_exec_cases)
    case (close_events t r res)
    then have "r \<notin> set (topic_subs (ws_subs s) (sub_topic (ws_objs s r)))"
      using sub_invD(8) [OF assms(2)] by blast
    with close_events assms(4) ok sub_inv_close(2) [OF assms(2)] show ?thesis by simp
  next
    case reader
    with reader_step_panic [OF assms(1,2) ok] assms(4) show ?thesis by blast
  next
    case (sending t cl ch out)
    with ok assms(4) show ?thesis
      by (cases rule: roundTrip_write_cases [of s cl out t ch]) simp_all
  next
    case (await t cl ch choice)
    with ok assms(4) show ?thesis
      by (auto simp: roundTrip_wait_def split: ws_choice.splits list.splits if_splits)
  next
    case (recv raw)
    with ok assms(4) show ?thesis
      by (auto simp: readLoop_message_def split: option.splits sum.splits list.splits if_splits)
  qed (use ok assms(4) in \<open>auto simp: roundTrip_enqueue_def teardown_def Let_def split: if_splits\<close>)
qed

text \<open>Until the read loop closes subscriptions itself, only a caller's \<open>CloseEvents\<close> step closes one.\<close>

definition all_open :: "WSClient \<Rightarrow> bool" where
  "all_open s \<longleftrightarrow>
     (\<forall>r. \<not> sub_closed (ws_objs s r)) \<or>
     (case ws_reader s of RCloseSubs _ \<Rightarrow> True | RCloseConn \<Rightarrow> True | RStopped \<Rightarrow> True | _ \<Rightarrow> False)"

lemma all_open_step:
  assumes "all_open s" and "ws_exec l s = Some s'" and "\<forall>t. l \<noteq> CloseEvents t"
  shows "all_open s'"
  using assms(2)
proof (cases rule: ws_exec_cases)
  case (subscribe t topic filt)
  with assms(1) show ?thesis
    by (auto simp: all_open_def Subscribe_def new_sub_def Let_def split: reader_pc.splits)
next
  case (enqueue t cl)
  with assms(1) show ?thesis
    by (simp add: all_open_def roundTrip_enqueue_def objs_afterRoundTrip Let_def)
next
  case (sending t cl ch out)
  with assms(1) show ?thesis
    by (cases rule: roundTrip_write_cases [of s cl out t ch]) (simp_all add: all_open_def objs_afterRoundTrip)
next
  case (await t cl ch choice)
  with assms(1) show ?thesis
    by (auto simp: all_open_def roundTrip_wait_def objs_afterRoundTrip
        split: ws_choice.splits list.splits if_splits)
next
  case (recv raw)
  with assms(1) show ?thesis
    by (auto simp: all_open_def readLoop_message_def split: option.split sum.split list.split)
next
  case reader
  with assms(1) show ?thesis
    by (auto simp: all_open_def reader_step_def send_event_objs send_response_def close_done_def close_chan_def
        panic_def Let_def split: reader_pc.splits list.splits if_splits)
next
  case (consume r e es)
  with assms(1) show ?thesis
    by (auto simp: all_open_def)
qed (use assms in \<open>auto simp: all_open_def teardown_def\<close>)

section \<open>Runs\<close>

lemma ws_execs_append:
  "ws_execs (ks @ ls) s = (case ws_execs ks s of None \<Rightarrow> None | Some s' \<Rightarrow> ws_execs ls s')"
  by (induction ks arbitrary: s) (auto split: option.split)

lemma ws_execs_inv:
  assumes "chan_inv s \<and> sub_inv s" and "ws_execs ls s = Some s'"
  shows "chan_inv s'" and "sub_inv s'"
  using subs.execs [OF assms] by blast+

end
