(* ===== verification/Arch_Websocket_Order.thy ===== *)
theory Arch_Websocket_Order
  imports Arch_Websocket_Correct
begin

text \<open>
  The order of requests in the subscription client. Where queueing a response channel and writing the
  request are not torn apart by other calls, and no write fails, first-in first-out correlation is
  right: each response goes to the call whose request it answers.
\<close>

section \<open>Steps of the callers\<close>

text \<open>Where a call goes on after its round trip.\<close>

definition after_pc :: "ws_call \<Rightarrow> wsResponse result \<Rightarrow> caller_pc" where
  "after_pc cl res = ws_threads (afterRoundTrip ws_init 0 cl res) 0"

lemma afterRoundTrip_threads [simp]:
  "ws_threads (afterRoundTrip s t cl res) = (ws_threads s)(t := after_pc cl res)"
  by (cases cl; cases res) (simp_all add: after_pc_def afterRoundTrip_defs)

lemma after_pc_facts:
  "pc_refs (after_pc cl res) \<subseteq> {call_sub cl}" "after_pc cl res \<noteq> AtEnqueue cl'" "after_pc cl res \<noteq> AtWrite cl' ch"
  "after_pc cl res \<noteq> AtWriting cl' ch" "after_pc cl res \<noteq> AtWait cl' ch"
  by (cases cl; cases res; simp add: after_pc_def afterRoundTrip_defs)+

lemma after_refs: "r \<in> pc_refs (after_pc cl res) \<Longrightarrow> r = call_sub cl"
  using after_pc_facts(1) [of cl res] by blast

lemma reader_step_threads: "reader_step s = Some s' \<Longrightarrow> ws_threads s' = ws_threads s"
  by (auto simp: reader_step_def send_event_def close_done_def close_chan_def close_events_def send_response_def
      panic_def Let_def split: reader_pc.splits list.splits if_splits)

lemma readLoop_message_threads: "ws_threads (readLoop_message s raw) = ws_threads s"
  by (auto simp: readLoop_message_def split: option.split sum.split list.split)

lemma roundTrip_wait_cases:
  assumes "roundTrip_wait s t cl ch choice = Some s'"
  obtains chans res where "s' = afterRoundTrip (s\<lparr>ws_chans := chans\<rparr>) t cl res"
  using assms that that [of "ws_chans s"]
  by (auto simp: roundTrip_wait_def split: ws_choice.splits list.splits if_splits)

section \<open>Requests keep their meaning\<close>

text \<open>
  A call that is still subscribing is alone with its subscription, so the id that it stores at the end
  is not part of any request under way.
\<close>

fun subscribing :: "caller_pc \<Rightarrow> sub_ref option" where
  "subscribing (AtEnqueue (CallSubscribe r filt)) = Some r"
| "subscribing (AtWrite (CallSubscribe r filt) ch) = Some r"
| "subscribing (AtWriting (CallSubscribe r filt) ch) = Some r"
| "subscribing (AtWait (CallSubscribe r filt) ch) = Some r"
| "subscribing _ = None"

definition own_inv :: "WSClient \<Rightarrow> bool" where
  "own_inv s \<longleftrightarrow> (\<forall>t t' r. subscribing (ws_threads s t) = Some r \<and> t' \<noteq> t \<longrightarrow> r \<notin> pc_refs (ws_threads s t'))"

lemma subscribing_refs: "subscribing pc = Some r \<Longrightarrow> r \<in> pc_refs pc"
  by (cases pc rule: subscribing.cases) auto

lemma subscribing_after [simp]: "subscribing (after_pc cl res) = None"
  using after_pc_facts(2-5) by (cases "after_pc cl res" rule: subscribing.cases) auto

lemma own_inv_move:
  assumes "own_inv s" and "ws_threads s' = (ws_threads s)(t := pc)" and "pc_refs pc \<subseteq> pc_refs (ws_threads s t)"
    and "\<And>r. subscribing pc = Some r \<Longrightarrow> subscribing (ws_threads s t) = Some r"
  shows "own_inv s'"
  unfolding own_inv_def
proof (intro allI impI)
  fix t1 t2 r
  assume a: "subscribing (ws_threads s' t1) = Some r \<and> t2 \<noteq> t1"
  then have "subscribing (ws_threads s t1) = Some r"
    using assms(2,4) by (auto split: if_splits)
  with a assms(1) have "r \<notin> pc_refs (ws_threads s t2)"
    unfolding own_inv_def by blast
  then show "r \<notin> pc_refs (ws_threads s' t2)"
    using assms(2,3) by (auto split: if_splits)
qed

lemma own_inv_step:
  assumes "sub_inv s" and "own_inv s" and "ws_exec l s = Some s'"
  shows "own_inv s'"
  using assms(3)
proof (cases rule: ws_exec_cases)
  case (subscribe t0 topic filt)
  have "ws_nextSub s \<notin> pc_refs (ws_threads s t)" for t
    using sub_invD(7) [OF assms(1)] by blast
  moreover from this have "subscribing (ws_threads s t) \<noteq> Some (ws_nextSub s)" for t
    using subscribing_refs by blast
  ultimately show ?thesis
    using subscribe assms(2) unfolding own_inv_def
    by (auto simp: Subscribe_def Let_def split: if_splits)
next
  case (unsubscribe t0 t1 r)
  then have "subscribing (ws_threads s t) \<noteq> Some r" for t
    using assms(2) unfolding own_inv_def by (cases "t = t1") (auto, fastforce)
  then show ?thesis
    using unsubscribe assms(2) unfolding own_inv_def by (auto split: if_splits)
next
  case (enqueue t0 cl)
  then show ?thesis
    by (cases cl) (auto simp: roundTrip_enqueue_def Let_def intro!: own_inv_move [OF assms(2), of _ t0] dest: after_refs)
next
  case (lock t0 cl ch)
  then show ?thesis
    by (cases cl) (auto intro!: own_inv_move [OF assms(2), of _ t0])
next
  case (sending t0 cl ch out)
  then show ?thesis
    by (cases rule: roundTrip_write_cases [of s cl out t0 ch]; cases cl)
      (auto intro!: own_inv_move [OF assms(2), of _ t0] dest: after_refs)
next
  case (await t0 cl ch choice)
  then show ?thesis
    by (auto elim!: roundTrip_wait_cases intro!: own_inv_move [OF assms(2), of _ t0] dest: after_refs)
next
  case (unlink t0 r res)
  then show ?thesis by (auto intro!: own_inv_move [OF assms(2), of _ t0])
next
  case (close_events t0 r res)
  then show ?thesis by (auto intro!: own_inv_move [OF assms(2), of _ t0])
qed (use assms(2) in \<open>simp_all add: own_inv_def reader_step_threads readLoop_message_threads teardown_def\<close>)

interpretation own: ws_invariant "\<lambda>s. (chan_inv s \<and> sub_inv s) \<and> own_inv s"
proof
  show "(chan_inv ws_init \<and> sub_inv ws_init) \<and> own_inv ws_init"
    using subs.I_init by (simp add: own_inv_def ws_init_def)
next
  fix s l s'
  assume "(chan_inv s \<and> sub_inv s) \<and> own_inv s" "ws_exec l s = Some s'"
  then show "(chan_inv s' \<and> sub_inv s') \<and> own_inv s'"
    using subs.I_step own_inv_step by blast
qed

section \<open>Writes in the order of the queue\<close>

text \<open>
  Runs in which queueing a response channel and writing its request happen as one step, and no write
  fails: from the moment a call has queued its channel until its write has succeeded, nothing else moves.
\<close>

fun in_write :: "caller_pc \<Rightarrow> (ws_call \<times> chan_ref) option" where
  "in_write (AtWrite cl ch) = Some (cl, ch)"
| "in_write (AtWriting cl ch) = Some (cl, ch)"
| "in_write _ = None"

definition no_writer :: "WSClient \<Rightarrow> bool" where
  "no_writer s \<longleftrightarrow> (\<forall>t. in_write (ws_threads s t) = None)"

inductive ws_ordered :: "WSClient \<Rightarrow> bool" where
  init: "ws_ordered ws_init"
| step: "ws_ordered s \<Longrightarrow> no_writer s \<Longrightarrow> ws_exec l s = Some s' \<Longrightarrow> ws_ordered s'"
| lock: "ws_ordered s \<Longrightarrow> ws_exec (Lock t) s = Some s' \<Longrightarrow> ws_ordered s'"
| sent: "ws_ordered s \<Longrightarrow> ws_exec (Write t conn) s = Some s' \<Longrightarrow> ws_sent s' \<noteq> ws_sent s \<Longrightarrow> ws_ordered s'"

lemma ordered_reachable: "ws_ordered s \<Longrightarrow> ws_reachable s"
  by (induction rule: ws_ordered.induct) (auto intro: ws_reachable.intros)

text \<open>The \<open>n\<close>-th request written is the one whose response channel is number \<open>n\<close>.\<close>

definition waiting_ok :: "WSClient \<Rightarrow> bool" where
  "waiting_ok s \<longleftrightarrow>
     (\<forall>t cl ch. ws_threads s t = AtWait cl ch \<longrightarrow> ch < length (ws_sent s) \<and> ws_sent s ! ch = request_of s cl)"

definition order_inv :: "WSClient \<Rightarrow> bool" where
  "order_inv s \<longleftrightarrow> waiting_ok s \<and>
     (if no_writer s then \<not> ws_closed s \<longrightarrow> length (ws_sent s) = ws_nextChan s
      else \<exists>t cl. in_write (ws_threads s t) = Some (cl, length (ws_sent s)) \<and>
             ws_nextChan s = Suc (length (ws_sent s)) \<and>
             (\<forall>t'. in_write (ws_threads s t') \<noteq> None \<longrightarrow> t' = t))"

lemma request_of_cong:
  assumes "sub_topic (ws_objs s' (call_sub cl)) = sub_topic (ws_objs s (call_sub cl))"
    and "\<And>r. cl = CallUnsubscribe r \<Longrightarrow> sub_id (ws_objs s' r) = sub_id (ws_objs s r)"
  shows "request_of s' cl = request_of s cl"
  using assms by (cases cl) auto

text \<open>A step that is not a write sends nothing and keeps the meaning of the requests of waiting calls.\<close>

lemma afterRoundTrip_objs:
  "ws_objs (afterRoundTrip s t cl res) r = ws_objs s r \<or>
     (\<exists>filt x. cl = CallSubscribe r filt \<and> ws_objs (afterRoundTrip s t cl res) r = ws_objs s r\<lparr>sub_id := x\<rparr>)"
  by (cases cl; cases res) (auto simp: afterRoundTrip_defs)

lemma afterRoundTrip_sent [simp]: "ws_sent (afterRoundTrip s t cl res) = ws_sent s"
  by (cases cl; cases res) (auto simp: afterRoundTrip_defs goto_def)

lemma in_write_after [simp]: "in_write (after_pc cl res) = None"
  using after_pc_facts(3,4) by (cases "after_pc cl res") auto

lemma after_requests:
  assumes "own_inv s" and "subscribing (ws_threads s t) = (case cl of CallSubscribe r filt \<Rightarrow> Some r | _ \<Rightarrow> None)"
    and "ws_objs s0 = ws_objs s" and "ws_threads s t' = AtWait cl' ch" and "t' \<noteq> t"
  shows "request_of (afterRoundTrip s0 t cl res) cl' = request_of s cl'"
proof (rule request_of_cong)
  show "sub_topic (ws_objs (afterRoundTrip s0 t cl res) (call_sub cl')) = sub_topic (ws_objs s (call_sub cl'))"
    using afterRoundTrip_objs [of s0 t cl res "call_sub cl'"] assms(3) by auto
  fix r
  assume "cl' = CallUnsubscribe r"
  then have "r \<in> pc_refs (ws_threads s t')" using assms(4) by simp
  then have "cl \<noteq> CallSubscribe r filt" for filt
    using assms(1,2,5) unfolding own_inv_def by auto
  then show "sub_id (ws_objs (afterRoundTrip s0 t cl res) r) = sub_id (ws_objs s r)"
    using afterRoundTrip_objs [of s0 t cl res r] assms(3) by auto
qed

lemma order_inv_frame:
  assumes "order_inv s" and "no_writer s" and "no_writer s'" and "ws_sent s' = ws_sent s"
    and "\<not> ws_closed s' \<Longrightarrow> \<not> ws_closed s \<and> ws_nextChan s' = ws_nextChan s"
    and "\<And>t cl ch. ws_threads s' t = AtWait cl ch \<Longrightarrow>
      ws_threads s t = AtWait cl ch \<and> request_of s' cl = request_of s cl"
  shows "order_inv s'"
  using assms unfolding order_inv_def waiting_ok_def by metis

definition same_requests :: "WSClient \<Rightarrow> WSClient \<Rightarrow> bool" where
  "same_requests s s' \<longleftrightarrow> ws_threads s' = ws_threads s \<and> ws_sent s' = ws_sent s \<and>
     ws_nextChan s' = ws_nextChan s \<and> (ws_closed s \<longrightarrow> ws_closed s') \<and>
     (\<forall>r. sub_topic (ws_objs s' r) = sub_topic (ws_objs s r) \<and> sub_id (ws_objs s' r) = sub_id (ws_objs s r))"

lemma order_inv_same: "order_inv s \<Longrightarrow> no_writer s \<Longrightarrow> same_requests s s' \<Longrightarrow> order_inv s'"
  by (rule order_inv_frame [of s s']) (auto simp: same_requests_def no_writer_def intro: request_of_cong)

lemma reader_same_requests: "reader_step s = Some s' \<Longrightarrow> same_requests s s'"
  by (auto simp: same_requests_def reader_step_def send_event_def close_done_def close_chan_def close_events_def
      send_response_def panic_def Let_def split: reader_pc.splits list.splits if_splits)

lemma message_same_requests: "same_requests s (readLoop_message s raw)"
  by (auto simp: same_requests_def readLoop_message_def split: option.split sum.split list.split)

lemma order_inv_subscribe:
  assumes inv: "order_inv s" "sub_inv s" and nw: "no_writer s"
  shows "order_inv (Subscribe s t0 topic filt)" (is "order_inv ?s")
proof -
  have "request_of ?s cl = request_of s cl" if "ws_threads s t = AtWait cl ch" for t cl ch
  proof -
    have "call_sub cl \<noteq> ws_nextSub s"
      using sub_invD(7) [OF inv(2), of "call_sub cl" t] that by auto
    then show ?thesis
      by (cases cl) (auto simp: Subscribe_def Let_def)
  qed
  then show ?thesis
    using nw
    by (intro order_inv_frame [OF inv(1) nw]) (auto simp: no_writer_def Subscribe_def goto_def Let_def split: if_splits)
qed

lemma order_inv_enqueue:
  assumes inv: "order_inv s" "own_inv s" and nw: "no_writer s" and pc: "ws_threads s t0 = AtEnqueue cl"
  shows "order_inv (roundTrip_enqueue s t0 cl)"
proof (cases "ws_closed s")
  case True
  then show ?thesis
    using pc nw in_write_after after_pc_facts(5) after_requests [OF inv(2), of t0 cl]
    by (intro order_inv_frame [OF inv(1) nw])
      (auto simp: no_writer_def roundTrip_enqueue_def Let_def split: if_splits ws_call.splits)
next
  case False
  then have "length (ws_sent s) = ws_nextChan s"
    using inv(1) nw by (simp add: order_inv_def)
  then show ?thesis
    using pc nw False inv(1)
    by (auto simp: order_inv_def waiting_ok_def no_writer_def roundTrip_enqueue_def Let_def goto_def
        intro!: exI [of _ t0] request_of_cong split: if_splits)
qed

lemma order_inv_step:
  assumes inv: "order_inv s" "own_inv s" "sub_inv s" and nw: "no_writer s" and ex: "ws_exec l s = Some s'"
  shows "order_inv s'"
  using ex
proof (cases rule: ws_exec_cases)
  case (subscribe t0 topic filt)
  then show ?thesis using order_inv_subscribe [OF inv(1,3) nw] by simp
next
  case (unsubscribe t0 t1 r)
  then show ?thesis
    using nw by (intro order_inv_frame [OF inv(1) nw]) (auto simp: no_writer_def goto_def intro: request_of_cong split: if_splits)
next
  case (enqueue t0 cl)
  then show ?thesis using order_inv_enqueue [OF inv(1,2) nw] by simp
next
  case (lock t0 cl ch)
  with nw show ?thesis by (force simp: no_writer_def dest: spec [of _ t0])
next
  case (sending t0 cl ch out)
  with nw show ?thesis by (force simp: no_writer_def dest: spec [of _ t0])
next
  case (await t0 cl ch choice)
  then show ?thesis
    using nw in_write_after after_pc_facts(5) after_requests [OF inv(2), of t0 cl]
    by (intro order_inv_frame [OF inv(1) nw])
      (auto simp: no_writer_def elim!: roundTrip_wait_cases split: if_splits ws_call.splits)
next
  case (unlink t0 r res)
  then show ?thesis
    using nw by (intro order_inv_frame [OF inv(1) nw])
      (auto simp: no_writer_def goto_def removeSubscription_def Let_def intro: request_of_cong split: if_splits)
next
  case (close_events t0 r res)
  then show ?thesis
    using nw by (intro order_inv_frame [OF inv(1) nw])
      (auto simp: no_writer_def goto_def close_events_def panic_def Let_def intro!: request_of_cong split: if_splits)
next
  case (reader)
  then show ?thesis using order_inv_same [OF inv(1) nw] reader_same_requests by blast
next
  case (recv raw)
  then show ?thesis using order_inv_same [OF inv(1) nw] message_same_requests by blast
qed (use order_inv_same [OF inv(1) nw] in \<open>auto simp: same_requests_def teardown_def\<close>)

lemma order_inv_lock:
  assumes "order_inv s" and "ws_exec (Lock t) s = Some s'"
  shows "order_inv s'"
proof -
  obtain cl ch where t: "ws_threads s t = AtWrite cl ch"
    and s': "s' = goto (s\<lparr>ws_writeMu := Some t\<rparr>) t (AtWriting cl ch)"
    using assms(2) by (cases rule: ws_exec_cases) auto
  have writing: "in_write (ws_threads s' t') = in_write (ws_threads s t')" for t'
    by (simp add: s' t)
  have req: "request_of s' c = request_of s c" for c
    by (rule request_of_cong) (simp_all add: s')
  have wait: "ws_threads s' t' = AtWait c ch' \<longleftrightarrow> ws_threads s t' = AtWait c ch'" for t' c ch'
    by (simp add: s' t)
  have rest: "ws_sent s' = ws_sent s" "ws_closed s' = ws_closed s" "ws_nextChan s' = ws_nextChan s"
    by (simp_all add: s')
  show ?thesis
    using assms(1) unfolding order_inv_def waiting_ok_def no_writer_def by (simp only: writing req wait rest)
qed

lemma order_inv_sent:
  assumes "order_inv s" and "ws_exec (Write t conn) s = Some s'" and "ws_sent s' \<noteq> ws_sent s"
  shows "order_inv s'"
proof -
  obtain cl ch where w: "ws_threads s t = AtWriting cl ch" and wr: "s' = roundTrip_write s t cl ch conn"
    using assms(2) by (cases rule: ws_exec_cases) auto
  then have s': "s' = goto (s\<lparr>ws_writeMu := None, ws_sent := ws_sent s @ [request_of s cl]\<rparr>) t (AtWait cl ch)"
    using assms(3) by (cases rule: roundTrip_write_cases [of s cl conn t ch]) auto
  have "in_write (ws_threads s t) = Some (cl, ch)" by (simp add: w)
  then have ch: "ch = length (ws_sent s)" and n: "ws_nextChan s = Suc (length (ws_sent s))"
    and only: "\<And>t'. in_write (ws_threads s t') \<noteq> None \<Longrightarrow> t' = t"
    using assms(1) by (auto simp: order_inv_def no_writer_def split: if_splits) fastforce+
  have req: "request_of s' c = request_of s c" for c
    by (rule request_of_cong) (simp_all add: s')
  have sent: "ws_sent s' = ws_sent s @ [request_of s cl]" and th: "ws_threads s' = (ws_threads s)(t := AtWait cl ch)"
    and nc: "ws_nextChan s' = ws_nextChan s"
    by (simp_all add: s' goto_def)
  have "in_write (ws_threads s t') = None" if "t' \<noteq> t" for t'
    using only that by blast
  then have "no_writer s'"
    by (simp add: no_writer_def th)
  moreover have "waiting_ok s'"
    using assms(1) ch by (auto simp: waiting_ok_def order_inv_def th sent req nth_append less_Suc_eq split: if_splits)
  ultimately show ?thesis
    using n by (simp add: order_inv_def sent nc)
qed

lemma ordered_inv: "ws_ordered s \<Longrightarrow> order_inv s"
proof (induction rule: ws_ordered.induct)
  case init
  then show ?case by (simp add: order_inv_def waiting_ok_def no_writer_def ws_init_def)
next
  case (step s l s')
  then show ?case
    using own.reachable [OF ordered_reachable] order_inv_step by blast
next
  case (lock s t s')
  then show ?case by (blast intro: order_inv_lock)
next
  case (sent s t conn s')
  then show ?case by (blast intro: order_inv_sent)
qed

end
