(* ===== verification/Arch_Websocket_Events.thy ===== *)
theory Arch_Websocket_Events
  imports Arch_Websocket_Order "HOL-Library.Sublist"
begin

text \<open>
  What a consumer of a subscription sees. Events are followed from the connection to the consumer: those
  received on a topic during a run, and those a subscription's consumer has taken out of its channel.
\<close>

section \<open>Events of a run\<close>

definition event_of :: "byte list \<Rightarrow> Event option" where
  "event_of raw =
     (case json_Unmarshal un_wsMessage raw zero_wsMessage of
        Inl err \<Rightarrow> None
      | Inr msg \<Rightarrow> map_option (\<lambda>d. \<lparr>ev_Topic = wm_Topic msg, ev_Data = Some d\<rparr>) (wm_Data msg))"

fun label_event :: "ws_label \<Rightarrow> Event list" where
  "label_event (Recv raw) = (case event_of raw of None \<Rightarrow> [] | Some e \<Rightarrow> [e])"
| "label_event _ = []"

definition received :: "EventTopic \<Rightarrow> ws_label list \<Rightarrow> Event list" where
  "received topic ls = filter (\<lambda>e. ev_Topic e = topic) (concat (map label_event ls))"

definition taken :: "sub_ref \<Rightarrow> ws_label \<Rightarrow> WSClient \<Rightarrow> Event list" where
  "taken r l s = (if l = Consume r then take 1 (sub_events (ws_objs s r)) else [])"

fun consumed :: "sub_ref \<Rightarrow> ws_label list \<Rightarrow> WSClient \<Rightarrow> Event list" where
  "consumed r [] s = []"
| "consumed r (l # ls) s = (case ws_exec l s of None \<Rightarrow> [] | Some s' \<Rightarrow> taken r l s @ consumed r ls s')"

lemma received_snoc: "received topic (ls @ [l]) = received topic ls @ filter (\<lambda>e. ev_Topic e = topic) (label_event l)"
  by (simp add: received_def)

lemma consumed_snoc:
  "ws_execs ls s = Some s1 \<Longrightarrow> ws_exec l s1 = Some s2 \<Longrightarrow> consumed r (ls @ [l]) s = consumed r ls s @ taken r l s1"
  by (induction ls arbitrary: s) (auto split: option.splits)

section \<open>The invariant\<close>

text \<open>The event a subscription is still to be sent by the fan-out under way.\<close>

fun in_flight :: "reader_pc \<Rightarrow> sub_ref \<Rightarrow> Event list" where
  "in_flight (RFan e rs) r = (if r \<in> set rs then [e] else [])"
| "in_flight _ r = []"

definition fan_inv :: "WSClient \<Rightarrow> bool" where
  "fan_inv s \<longleftrightarrow>
     (\<forall>e rs. ws_reader s = RFan e rs \<longrightarrow>
        distinct rs \<and> (\<forall>r \<in> set rs. r < ws_nextSub s \<and> sub_topic (ws_objs s r) = ev_Topic e)) \<and>
     (\<forall>r. ws_nextSub s \<le> r \<longrightarrow> sub_events (ws_objs s r) = [])"

definition flow_inv :: "(EventTopic \<Rightarrow> Event list) \<Rightarrow> (sub_ref \<Rightarrow> Event list) \<Rightarrow> WSClient \<Rightarrow> bool" where
  "flow_inv recv cons s \<longleftrightarrow> fan_inv s \<and>
     (\<forall>r. ws_nextSub s \<le> r \<longrightarrow> cons r = []) \<and>
     (\<forall>r. subseq (cons r @ sub_events (ws_objs s r) @ in_flight (ws_reader s) r) (recv (sub_topic (ws_objs s r))))"

text \<open>Steps that touch neither buffers nor the fan-out.\<close>

definition same_flow :: "WSClient \<Rightarrow> WSClient \<Rightarrow> bool" where
  "same_flow s s' \<longleftrightarrow> ws_nextSub s' = ws_nextSub s \<and>
     (ws_reader s' = ws_reader s \<or> (\<forall>e rs. ws_reader s' \<noteq> RFan e rs)) \<and>
     (\<forall>r. sub_events (ws_objs s' r) = sub_events (ws_objs s r) \<and> sub_topic (ws_objs s' r) = sub_topic (ws_objs s r))"

lemma in_flight_other: "(\<forall>e rs. pc \<noteq> RFan e rs) \<Longrightarrow> in_flight pc r = []"
  by (cases pc) auto

lemma subseq_shorten: "subseq (xs @ ys @ zs) ws \<Longrightarrow> subseq (xs @ ys) ws"
  by (metis append_assoc subseq_order.trans subseq_rev_drop_many subseq_order.refl)

lemma flow_same:
  assumes "flow_inv recv cons s" and "same_flow s s'"
  shows "flow_inv recv cons s'"
proof -
  have "subseq (cons r @ sub_events (ws_objs s' r) @ in_flight (ws_reader s') r) (recv (sub_topic (ws_objs s' r)))" for r
  proof (cases "ws_reader s' = ws_reader s")
    case True
    then show ?thesis using assms by (simp add: flow_inv_def same_flow_def)
  next
    case False
    then have "in_flight (ws_reader s') r = []"
      using assms(2) in_flight_other by (auto simp: same_flow_def)
    then show ?thesis
      using assms subseq_shorten [of "cons r" "sub_events (ws_objs s r)"] by (auto simp: flow_inv_def same_flow_def)
  qed
  moreover have "fan_inv s'"
    using assms by (auto simp: flow_inv_def same_flow_def fan_inv_def)
  ultimately show ?thesis
    using assms by (simp add: flow_inv_def same_flow_def)
qed

lemma afterRoundTrip_same_flow: "same_flow s (afterRoundTrip (s\<lparr>ws_chans := chans, ws_nextChan := n\<rparr>) t cl res)"
  by (cases cl; cases res) (auto simp: same_flow_def afterRoundTrip_defs)

lemma wait_same_flow: "roundTrip_wait s t cl ch choice = Some s' \<Longrightarrow> same_flow s s'"
proof (erule roundTrip_wait_cases)
  fix chans res
  assume "s' = afterRoundTrip (s\<lparr>ws_chans := chans\<rparr>) t cl res"
  then show "same_flow s s'"
    by (cases cl; cases res) (auto simp: same_flow_def afterRoundTrip_defs)
qed

lemma write_same_flow: "same_flow s (roundTrip_write s t cl ch out)"
  by (cases rule: roundTrip_write_cases [of s cl out t ch]; cases cl) (auto simp: same_flow_def afterRoundTrip_defs)

lemma enqueue_same_flow: "same_flow s (roundTrip_enqueue s t cl)"
  by (cases cl) (auto simp: roundTrip_enqueue_def same_flow_def afterRoundTrip_defs Let_def)

lemma close_events_same_flow: "same_flow s (close_events s r)"
  by (auto simp: same_flow_def close_events_def panic_def Let_def)

text \<open>A fan-out step sends to the head of its list, drops the event for it, or ends.\<close>

lemma flow_fan:
  assumes "flow_inv recv cons s" and "ws_reader s = RFan e (r0 # rs)"
  shows "flow_inv recv cons ((send_event s r0 e)\<lparr>ws_reader := RFan e rs\<rparr>)"
proof -
  let ?s = "(send_event s r0 e)\<lparr>ws_reader := RFan e rs\<rparr>"
  have topics: "sub_topic (ws_objs (send_event s r0 e) r) = sub_topic (ws_objs s r)" for r
    by (simp add: send_event_def panic_def Let_def)
  have fan: "distinct (r0 # rs)" "\<forall>r \<in> set (r0 # rs). r < ws_nextSub s \<and> sub_topic (ws_objs s r) = ev_Topic e"
    using assms by (auto simp: flow_inv_def fan_inv_def)
  have "sub_events (ws_objs ?s r) = sub_events (ws_objs s r) \<or>
      r = r0 \<and> sub_events (ws_objs ?s r) = sub_events (ws_objs s r) @ [e]" for r
    by (auto simp: send_event_def panic_def Let_def)
  note evs = this
  have "subseq (cons r @ sub_events (ws_objs ?s r) @ in_flight (RFan e rs) r) (recv (sub_topic (ws_objs s r)))" for r
  proof -
    have sub: "subseq (cons r @ sub_events (ws_objs s r) @ in_flight (RFan e (r0 # rs)) r) (recv (sub_topic (ws_objs s r)))"
      using assms by (simp add: flow_inv_def)
    show ?thesis
    proof (cases "r = r0")
      case True
      with fan(1) sub evs [of r] subseq_shorten [of "cons r" "sub_events (ws_objs s r)" "[e]"] show ?thesis by auto
    next
      case False
      with sub evs [of r] show ?thesis by auto
    qed
  qed
  moreover have "fan_inv ?s"
  proof -
    have "sub_events (ws_objs ?s r) = []" if "ws_nextSub s \<le> r" for r
      using evs [of r] that fan(2) assms(1) by (auto simp: flow_inv_def fan_inv_def)
    then show ?thesis
      using fan by (auto simp: fan_inv_def topics)
  qed
  ultimately show ?thesis
    using assms(1) by (simp add: flow_inv_def topics)
qed

lemma flow_reader:
  assumes "flow_inv recv cons s" and "reader_step s = Some s'"
  shows "flow_inv recv cons s'"
proof (cases "\<exists>e r0 rs. ws_reader s = RFan e (r0 # rs)")
  case True
  with assms flow_fan show ?thesis by (auto simp: reader_step_def)
next
  case False
  with assms(2) have "same_flow s s'"
    by (auto simp: same_flow_def reader_step_def close_done_def close_chan_def close_events_def send_response_def panic_def
        Let_def split: reader_pc.splits list.splits if_splits)
  with assms(1) show ?thesis by (rule flow_same)
qed

lemma flow_message:
  assumes "flow_inv recv cons s" and "sub_inv s" and "ws_reader s = RRead"
  shows "flow_inv (\<lambda>topic. recv topic @ filter (\<lambda>e. ev_Topic e = topic) (label_event (Recv raw))) cons
    (readLoop_message s raw)"
proof (cases "event_of raw")
  case None
  then have "same_flow s (readLoop_message s raw)"
    using assms(3) by (auto simp: same_flow_def readLoop_message_def event_of_def split: sum.splits option.splits list.splits)
  with None assms(1) show ?thesis by (simp add: flow_same)
next
  case (Some e)
  then have s': "readLoop_message s raw = s\<lparr>ws_reader := RFan e (subs_of s (ev_Topic e))\<rparr>"
    by (auto simp: readLoop_message_def event_of_def split: sum.splits)
  have subs: "distinct (subs_of s (ev_Topic e))"
      "\<forall>r \<in> set (subs_of s (ev_Topic e)). r < ws_nextSub s \<and> sub_topic (ws_objs s r) = ev_Topic e"
    using sub_invD(3-5) [OF assms(2)] by (auto simp: subs_of_conv)
  have old: "subseq (cons r @ sub_events (ws_objs s r)) (recv (sub_topic (ws_objs s r)))" for r
    using assms(1,3) by (simp add: flow_inv_def)
  have new: "subseq (cons r @ sub_events (ws_objs s r) @ in_flight (RFan e (subs_of s (ev_Topic e))) r)
      (recv (sub_topic (ws_objs s r)) @ filter (\<lambda>e. ev_Topic e = sub_topic (ws_objs s r)) [e])" for r
  proof (cases "r \<in> set (subs_of s (ev_Topic e))")
    case True
    with subs(2) old [of r] subseq_append [of "cons r @ sub_events (ws_objs s r)" "[e]"] show ?thesis by simp
  next
    case False
    with old [of r] show ?thesis by (simp add: subseq_rev_drop_many)
  qed
  have "fan_inv (s\<lparr>ws_reader := RFan e (subs_of s (ev_Topic e))\<rparr>)" "\<forall>r. ws_nextSub s \<le> r \<longrightarrow> cons r = []"
    using subs assms(1) by (simp_all add: fan_inv_def flow_inv_def)
  then show ?thesis
    unfolding s' flow_inv_def using new by (simp del: in_flight.simps add: Some)
qed

lemma flow_subscribe:
  assumes "flow_inv recv cons s"
  shows "flow_inv recv cons (Subscribe s t topic filt)"
proof -
  have "in_flight (ws_reader s) (ws_nextSub s) = []"
    using assms by (cases "ws_reader s") (auto simp: flow_inv_def fan_inv_def)
  then show ?thesis
    using assms
    by (auto simp: flow_inv_def fan_inv_def Subscribe_def new_sub_def Let_def intro: less_SucI split: if_splits)
qed

lemma flow_consume:
  assumes "flow_inv recv cons s" and "sub_events (ws_objs s r0) = e # es"
  shows "flow_inv recv (\<lambda>r. cons r @ taken r (Consume r0) s)
    (s\<lparr>ws_objs := (ws_objs s)(r0 := (ws_objs s r0)\<lparr>sub_events := es\<rparr>)\<rparr>)" (is "flow_inv recv ?cons ?s")
proof -
  have eq: "?cons r @ sub_events (ws_objs ?s r) @ xs = cons r @ sub_events (ws_objs s r) @ xs" for r xs
    using assms(2) by (auto simp: taken_def)
  have "subseq (?cons r @ sub_events (ws_objs ?s r) @ in_flight (ws_reader ?s) r)
      (recv (sub_topic (ws_objs ?s r)))" for r
    unfolding eq using assms(1) by (simp add: flow_inv_def)
  moreover have "r0 < ws_nextSub s"
    using assms by (force simp: flow_inv_def fan_inv_def not_less [symmetric])
  ultimately show ?thesis
    using assms by (auto simp: flow_inv_def fan_inv_def taken_def)
qed

text \<open>The labels that move events; every other step leaves buffers and fan-out alone.\<close>

fun moves_events :: "ws_label \<Rightarrow> bool" where
  "moves_events (StartSubscribe t topic filt) = True"
| "moves_events (Recv raw) = True"
| "moves_events ReaderStep = True"
| "moves_events (Consume r) = True"
| "moves_events _ = False"

lemma quiet_step:
  assumes "ws_exec l s = Some s'" and "\<not> moves_events l"
  shows "same_flow s s'" and "label_event l = []" and "taken r l s = []"
proof -
  show "same_flow s s'"
    using assms(1)
  proof (cases rule: ws_exec_cases)
    case (close_events t r res)
    then show ?thesis using close_events_same_flow [of s r] by (simp add: same_flow_def)
  next
    case (recv_err err allSubs)
    then show ?thesis by (simp add: same_flow_def teardown_def)
  qed (use assms(2) enqueue_same_flow write_same_flow wait_same_flow in
      \<open>auto simp: same_flow_def [of s "s\<lparr>ws_connClosed := True\<rparr>"] same_flow_def [of s "goto _ _ _"]\<close>)
  show "label_event l = []" "taken r l s = []"
    using assms(2) by (cases l; simp add: taken_def)+
qed

lemma flow_step:
  assumes "flow_inv recv cons s" and "sub_inv s" and "ws_exec l s = Some s'"
  shows "flow_inv (\<lambda>topic. recv topic @ filter (\<lambda>e. ev_Topic e = topic) (label_event l)) (\<lambda>r. cons r @ taken r l s) s'"
proof (cases "moves_events l")
  case True
  show ?thesis
    using assms(3)
  proof (cases rule: ws_exec_cases)
    case (recv raw)
    then show ?thesis using flow_message [OF assms(1,2)] by (simp add: taken_def)
  next
    case (consume r e es)
    then show ?thesis using flow_consume [OF assms(1)] by simp
  next
    case reader
    with flow_reader [OF assms(1)] show ?thesis by (simp add: taken_def)
  qed (use True flow_subscribe [OF assms(1)] in \<open>simp_all add: taken_def\<close>)
next
  case False
  note quiet = quiet_step [OF assms(3) this]
  from flow_same [OF assms(1) quiet(1)] show ?thesis
    by (simp add: quiet(2,3))
qed

lemma flow_run:
  "ws_execs ls ws_init = Some s \<Longrightarrow> flow_inv (\<lambda>topic. received topic ls) (\<lambda>r. consumed r ls ws_init) s"
proof (induction ls arbitrary: s rule: rev_induct)
  case Nil
  then show ?case by (auto simp: flow_inv_def fan_inv_def received_def ws_init_def new_sub_def)
next
  case (snoc l ls)
  then obtain s1 where s1: "ws_execs ls ws_init = Some s1" "ws_exec l s1 = Some s"
    by (auto simp: ws_execs_append split: option.splits)
  have "sub_inv s1"
    using subs.execs [OF subs.I_init s1(1)] by blast
  from flow_step [OF snoc.IH [OF s1(1)] this s1(2)] show ?case
    by (simp add: received_snoc consumed_snoc [OF s1])
qed

lemma events_in_order:
  assumes "ws_execs ls ws_init = Some s"
  shows "subseq (consumed r ls ws_init @ sub_events (ws_objs s r)) (received (sub_topic (ws_objs s r)) ls)"
  using flow_run [OF assms] subseq_shorten [of _ "sub_events (ws_objs s r)"] unfolding flow_inv_def by blast

section \<open>A fan-out that is not disturbed\<close>

definition delivered :: "Event \<Rightarrow> Event list \<Rightarrow> Event list" where
  "delivered e es = (if length es < subEventBuffer then es @ [e] else es)"

lemma fan_run:
  assumes "ws_reader s = RFan e rs" and "distinct rs" and "\<forall>r \<in> set rs. \<not> sub_closed (ws_objs s r)" and "\<not> ws_panic s"
  shows "\<exists>s'. ws_execs (replicate (Suc (length rs)) ReaderStep) s = Some s' \<and> \<not> ws_panic s' \<and> ws_reader s' = RRead \<and>
    (\<forall>r. sub_events (ws_objs s' r) =
       (if r \<in> set rs then delivered e (sub_events (ws_objs s r)) else sub_events (ws_objs s r)))"
  using assms
proof (induction rs arbitrary: s)
  case Nil
  then show ?case by (simp add: ws_exec_def reader_step_def)
next
  case (Cons r0 rs)
  let ?s = "(send_event s r0 e)\<lparr>ws_reader := RFan e rs\<rparr>"
  have step: "ws_exec ReaderStep s = Some ?s"
    using Cons.prems(1,4) by (simp add: ws_exec_def reader_step_def)
  have closed: "sub_closed (ws_objs ?s r) = sub_closed (ws_objs s r)" for r
    by (simp add: send_event_def panic_def Let_def)
  have evs: "sub_events (ws_objs ?s r) =
      (if r = r0 then delivered e (sub_events (ws_objs s r)) else sub_events (ws_objs s r))" for r
    using Cons.prems(3) by (simp add: send_event_def delivered_def Let_def)
  have "\<not> ws_panic ?s"
    using Cons.prems(3,4) by (simp add: send_event_def Let_def)
  moreover have "\<forall>r \<in> set rs. \<not> sub_closed (ws_objs ?s r)"
    using Cons.prems(3) unfolding closed by simp
  ultimately obtain s' where s': "ws_execs (replicate (Suc (length rs)) ReaderStep) ?s = Some s'"
      "\<not> ws_panic s'" "ws_reader s' = RRead"
      "\<forall>r. sub_events (ws_objs s' r) =
         (if r \<in> set rs then delivered e (sub_events (ws_objs ?s r)) else sub_events (ws_objs ?s r))"
    using Cons.IH [of ?s] Cons.prems(2) by auto
  have "ws_execs (replicate (Suc (length (r0 # rs))) ReaderStep) s = Some s'"
    using step s'(1) by simp
  moreover have "\<forall>r. sub_events (ws_objs s' r) =
      (if r \<in> set (r0 # rs) then delivered e (sub_events (ws_objs s r)) else sub_events (ws_objs s r))"
    using s'(4) Cons.prems(2) unfolding evs by auto
  ultimately show ?case using s'(2,3) by blast
qed

lemma event_reaches_subscribers:
  assumes "ws_reachable s" and "\<not> ws_panic s" and "ws_reader s = RRead" and "event_of raw = Some e"
  shows "\<exists>s'. ws_execs (Recv raw # replicate (Suc (length (subs_of s (ev_Topic e)))) ReaderStep) s = Some s' \<and>
    \<not> ws_panic s' \<and> ws_reader s' = RRead \<and>
    (\<forall>r. sub_events (ws_objs s' r) =
       (if r \<in> set (subs_of s (ev_Topic e)) then delivered e (sub_events (ws_objs s r))
        else sub_events (ws_objs s r)))"
proof -
  let ?s = "s\<lparr>ws_reader := RFan e (subs_of s (ev_Topic e))\<rparr>"
  have "readLoop_message s raw = ?s"
    using assms(4) by (auto simp: readLoop_message_def event_of_def split: sum.splits)
  then have step: "ws_exec (Recv raw) s = Some ?s"
    using assms(2,3) by (simp add: ws_exec_def)
  have inv: "sub_inv s"
    using subs.reachable [OF assms(1)] by blast
  have dist: "distinct (subs_of s (ev_Topic e))"
    and opened: "\<forall>r \<in> set (subs_of s (ev_Topic e)). \<not> sub_closed (ws_objs ?s r)"
    using sub_invD(3,6) [OF inv] by (auto simp: subs_of_conv)
  have ob: "ws_objs ?s = ws_objs s" and fan: "ws_reader ?s = RFan e (subs_of s (ev_Topic e))"
    and calm: "\<not> ws_panic ?s"
    using assms(2) by simp_all
  show ?thesis
    using fan_run [OF fan dist opened calm] unfolding ob ws_execs.simps step option.case .
qed

end
