(* ===== verification/Arch_Websocket_Progress.thy ===== *)
theory Arch_Websocket_Progress
  imports Arch_Websocket_Order
begin

text \<open>
  Who waits for whom in the subscription client, in any interleaving. At most one goroutine is inside a
  write; a caller that cannot move waits for a write, for the write mutex or for its response, and a
  response it waits for is accounted for. Every reaction of the read loop, the tear-down among them,
  takes a number of its own steps that is fixed when it begins, whatever the callers do meanwhile.
\<close>

section \<open>The write mutex\<close>

fun is_writing :: "caller_pc \<Rightarrow> bool" where
  "is_writing (AtWriting cl ch) = True"
| "is_writing _ = False"

definition mu_inv :: "WSClient \<Rightarrow> bool" where
  "mu_inv s \<longleftrightarrow> (\<forall>t. is_writing (ws_threads s t) \<longleftrightarrow> ws_writeMu s = Some t)"

lemma writeMu_simps [simp]:
  "ws_writeMu (afterRoundTrip s t cl res) = ws_writeMu s" "ws_writeMu (Subscribe s t topic filt) = ws_writeMu s"
  "ws_writeMu (removeSubscription s r) = ws_writeMu s" "ws_writeMu (close_events s r) = ws_writeMu s"
  "ws_writeMu (readLoop_message s raw) = ws_writeMu s"
  by (cases cl; simp add: afterRoundTrip_defs split: sum.split)
     (auto simp: Subscribe_def removeSubscription_def close_events_def panic_def readLoop_message_def Let_def
       split: option.split sum.split list.split)

lemma reader_step_writeMu: "reader_step s = Some s' \<Longrightarrow> ws_writeMu s' = ws_writeMu s"
  by (auto simp: reader_step_def send_event_def close_done_def close_chan_def close_events_def send_response_def
      panic_def Let_def split: reader_pc.splits list.splits if_splits)

lemma not_writing_after [simp]: "\<not> is_writing (after_pc cl res)"
  using after_pc_facts(4) by (cases "after_pc cl res") auto

lemma mu_inv_move:
  assumes "mu_inv s" and "ws_threads s' = (ws_threads s)(t := pc)" and "ws_writeMu s' = ws_writeMu s"
    and "is_writing pc = is_writing (ws_threads s t)"
  shows "mu_inv s'"
  using assms unfolding mu_inv_def by auto

lemma mu_inv_step:
  assumes "mu_inv s" and "ws_exec l s = Some s'"
  shows "mu_inv s'"
  using assms(2)
proof (cases rule: ws_exec_cases)
  case (subscribe t topic filt)
  then have "\<exists>pc. ws_threads s' = (ws_threads s)(t := pc) \<and> \<not> is_writing pc"
    by (auto simp: Subscribe_def Let_def)
  then show ?thesis
    using subscribe mu_inv_move [OF assms(1)] by fastforce
next
  case (enqueue t cl)
  then have "\<exists>pc. ws_threads s' = (ws_threads s)(t := pc) \<and> \<not> is_writing pc" "ws_writeMu s' = ws_writeMu s"
    by (auto simp: roundTrip_enqueue_def Let_def)
  then show ?thesis
    using enqueue mu_inv_move [OF assms(1)] by fastforce
next
  case (await t cl ch choice)
  then obtain chans res where "s' = afterRoundTrip (s\<lparr>ws_chans := chans\<rparr>) t cl res"
    by (blast elim: roundTrip_wait_cases)
  with await show ?thesis
    by (intro mu_inv_move [OF assms(1), of _ t "after_pc cl res"]) simp_all
next
  case (sending t cl ch out)
  with assms(1) have holder: "ws_writeMu s = Some t" "\<And>t'. is_writing (ws_threads s t') \<Longrightarrow> t' = t"
    unfolding mu_inv_def by force+
  have "ws_writeMu s' = None" "\<exists>pc. ws_threads s' = (ws_threads s)(t := pc) \<and> \<not> is_writing pc"
    using sending by (cases rule: roundTrip_write_cases [of s cl out t ch]; force)+
  with holder show ?thesis
    unfolding mu_inv_def by (auto split: if_splits)
next
  case (unsubscribe t t' r)
  then show ?thesis
    by (intro mu_inv_move [OF assms(1), of _ t "AtEnqueue (CallUnsubscribe r)"]) simp_all
next
  case (unlink t r res)
  then show ?thesis
    by (intro mu_inv_move [OF assms(1), of _ t "AtClose r res"]) simp_all
next
  case (close_events t r res)
  then show ?thesis
    by (intro mu_inv_move [OF assms(1), of _ t "Finished res"]) simp_all
qed (use assms(1) in \<open>auto simp: mu_inv_def reader_step_writeMu reader_step_threads readLoop_message_threads
    teardown_def\<close>)

section \<open>Waiting calls are accounted for\<close>

fun chan_of :: "caller_pc \<Rightarrow> chan_ref option" where
  "chan_of (AtWrite cl ch) = Some ch"
| "chan_of (AtWriting cl ch) = Some ch"
| "chan_of (AtWait cl ch) = Some ch"
| "chan_of _ = None"

text \<open>What the tear-down has left to close.\<close>

fun left_chans :: "reader_pc \<Rightarrow> chan_ref list" where
  "left_chans (RCloseDone chs rs) = chs"
| "left_chans (RClosePending chs rs) = chs"
| "left_chans _ = []"

fun left_subs :: "reader_pc \<Rightarrow> sub_ref list" where
  "left_subs (RCloseDone chs rs) = rs"
| "left_subs (RClosePending chs rs) = rs"
| "left_subs (RCloseSubs rs) = rs"
| "left_subs _ = []"

text \<open>A response channel is queued, about to be closed or answered, answered, or closed.\<close>

definition accounted :: "WSClient \<Rightarrow> chan_ref \<Rightarrow> bool" where
  "accounted s ch \<longleftrightarrow>
     ch \<in> set (ws_pending s) \<or> ch \<in> set (left_chans (ws_reader s)) \<or> (\<exists>resp. ws_reader s = RRespond ch resp) \<or>
     rc_buf (ws_chans s ch) \<noteq> [] \<or> rc_closed (ws_chans s ch)"

definition wait_inv :: "WSClient \<Rightarrow> bool" where
  "wait_inv s \<longleftrightarrow>
     (\<forall>t ch. chan_of (ws_threads s t) = Some ch \<longrightarrow> ch < ws_nextChan s \<and> accounted s ch) \<and>
     (\<forall>t t' ch. chan_of (ws_threads s t) = Some ch \<and> chan_of (ws_threads s t') = Some ch \<longrightarrow> t = t')"

lemma chan_of_after [simp]: "chan_of (after_pc cl res) = None"
  using after_pc_facts(3-5) by (cases "after_pc cl res") auto

lemma wait_frame:
  assumes "wait_inv s" and "\<And>t. chan_of (ws_threads s' t) = chan_of (ws_threads s t) \<or> chan_of (ws_threads s' t) = None"
    and "ws_nextChan s \<le> ws_nextChan s'"
    and "\<And>t ch. chan_of (ws_threads s' t) = Some ch \<Longrightarrow> ch < ws_nextChan s \<Longrightarrow> accounted s ch \<Longrightarrow> accounted s' ch"
  shows "wait_inv s'"
proof -
  have "chan_of (ws_threads s t) = Some ch" if "chan_of (ws_threads s' t) = Some ch" for t ch
    using assms(2) [of t] that by auto
  with assms(1,3,4) show ?thesis
    unfolding wait_inv_def by (meson order.strict_trans2)
qed

lemma wait_inv_enqueue:
  assumes "wait_inv s" and "ws_threads s t = AtEnqueue cl"
  shows "wait_inv (roundTrip_enqueue s t cl)" (is "wait_inv ?s")
proof (cases "ws_closed s")
  case True
  then show ?thesis
    by (intro wait_frame [OF assms(1)]) (auto simp: roundTrip_enqueue_def accounted_def Let_def)
next
  case False
  let ?n = "ws_nextChan s"
  have th: "ws_threads ?s = (ws_threads s)(t := AtWrite cl ?n)" and n: "ws_nextChan ?s = Suc ?n"
    using False by (simp_all add: roundTrip_enqueue_def Let_def)
  have "accounted ?s ?n" "\<And>ch. ch < ?n \<Longrightarrow> accounted s ch \<Longrightarrow> accounted ?s ch"
    using False by (auto simp: roundTrip_enqueue_def accounted_def Let_def)
  moreover have "ch < ?n" "accounted s ch" if "chan_of (ws_threads s t') = Some ch" for t' ch
    using assms(1) that unfolding wait_inv_def by blast+
  ultimately show ?thesis
    using assms(1) unfolding wait_inv_def th n by (auto simp: less_Suc_eq)
qed

lemma wait_inv_await:
  assumes "wait_inv s" and "ws_threads s t = AtWait cl ch" and "roundTrip_wait s t cl ch choice = Some s'"
  shows "wait_inv s'"
proof (rule wait_frame [OF assms(1)])
  show "chan_of (ws_threads s' t') = chan_of (ws_threads s t') \<or> chan_of (ws_threads s' t') = None" for t'
    using assms(3) by (auto elim!: roundTrip_wait_cases split: if_splits)
  show "ws_nextChan s \<le> ws_nextChan s'"
    using assms(3) by (auto elim!: roundTrip_wait_cases)
next
  fix t' ch'
  assume a: "chan_of (ws_threads s' t') = Some ch'" "accounted s ch'"
  have "t' \<noteq> t" and "chan_of (ws_threads s t') = Some ch'"
    using a(1) assms(3) by (auto elim!: roundTrip_wait_cases split: if_splits)
  moreover have "chan_of (ws_threads s t) = Some ch" by (simp add: assms(2))
  ultimately have "ch' \<noteq> ch"
    using assms(1) unfolding wait_inv_def by blast
  with a(2) assms(3) show "accounted s' ch'"
    by (auto simp: accounted_def roundTrip_wait_def split: ws_choice.splits list.splits if_splits)
qed

lemma reader_accounted:
  assumes "reader_step s = Some s'" and "accounted s ch"
  shows "accounted s' ch"
  using assms
  by (auto simp: accounted_def reader_step_def send_response_def close_chan_def close_done_def panic_def Let_def
      split: reader_pc.splits list.splits if_splits)

lemma message_accounted:
  assumes "ws_reader s = RRead" and "accounted s ch"
  shows "accounted (readLoop_message s raw) ch"
  using assms by (auto simp: accounted_def readLoop_message_def split: option.split sum.split list.split)

lemma readLoop_message_nextChan [simp]: "ws_nextChan (readLoop_message s raw) = ws_nextChan s"
  by (auto simp: readLoop_message_def split: option.split sum.split list.split)

lemma reader_step_nextChan: "reader_step s = Some s' \<Longrightarrow> ws_nextChan s' = ws_nextChan s"
  by (auto simp: reader_step_def send_event_def close_done_def close_chan_def close_events_def send_response_def
      panic_def Let_def split: reader_pc.splits list.splits if_splits)

lemma wait_inv_step:
  assumes "wait_inv s" and "ws_exec l s = Some s'"
  shows "wait_inv s'"
  using assms(2)
proof (cases rule: ws_exec_cases)
  case (subscribe t topic filt)
  then show ?thesis
    by (intro wait_frame [OF assms(1)]) (auto simp: Subscribe_def accounted_def Let_def)
next
  case (sending t cl ch out)
  then show ?thesis
    by (cases rule: roundTrip_write_cases [of s cl out t ch])
      (auto intro!: wait_frame [OF assms(1)] simp: accounted_def split: if_splits)
next
  case (recv raw)
  then show ?thesis
    by (intro wait_frame [OF assms(1)]) (auto simp: readLoop_message_threads message_accounted)
next
  case reader
  then show ?thesis
    by (intro wait_frame [OF assms(1)])
      (auto simp: reader_step_threads reader_step_nextChan intro: reader_accounted)
next
  case (recv_err err allSubs)
  then show ?thesis
    by (intro wait_frame [OF assms(1)]) (auto simp: teardown_def accounted_def)
qed (use assms(1) wait_inv_enqueue wait_inv_await in \<open>auto intro!: wait_frame [OF assms(1)] simp: accounted_def
    split: if_splits\<close>)

interpretation progress: ws_invariant "\<lambda>s. mu_inv s \<and> wait_inv s"
proof
  show "mu_inv ws_init \<and> wait_inv ws_init"
    by (simp add: mu_inv_def wait_inv_def ws_init_def)
next
  show "mu_inv s' \<and> wait_inv s'" if "mu_inv s \<and> wait_inv s" and "ws_exec l s = Some s'" for s l s'
    using that mu_inv_step wait_inv_step by blast
qed

section \<open>Blocked callers\<close>

text \<open>The steps that a caller takes by itself: not those in which a write or a context decides.\<close>

fun self_label :: "ws_label \<Rightarrow> thread option" where
  "self_label (Enqueue t) = Some t"
| "self_label (Lock t) = Some t"
| "self_label (Await t GotResponse) = Some t"
| "self_label (Await t GotDone) = Some t"
| "self_label (Unlink t) = Some t"
| "self_label (CloseEvents t) = Some t"
| "self_label _ = None"

definition can_move :: "WSClient \<Rightarrow> thread \<Rightarrow> bool" where
  "can_move s t \<longleftrightarrow> (\<exists>l s'. self_label l = Some t \<and> ws_exec l s = Some s')"

lemma can_moveI: "self_label l = Some t \<Longrightarrow> ws_exec l s = Some s' \<Longrightarrow> can_move s t"
  by (auto simp: can_move_def)

lemma can_move_pc:
  assumes "can_move s t"
  shows "case ws_threads s t of
      AtEnqueue cl \<Rightarrow> True
    | AtWrite cl ch \<Rightarrow> ws_writeMu s = None
    | AtWait cl ch \<Rightarrow> rc_buf (ws_chans s ch) \<noteq> [] \<or> rc_closed (ws_chans s ch) \<or> ws_done s
    | AtUnlink r res \<Rightarrow> True
    | AtClose r res \<Rightarrow> True
    | _ \<Rightarrow> False"
proof -
  obtain l s' where l: "self_label l = Some t" "ws_exec l s = Some s'"
    using assms by (auto simp: can_move_def)
  from l(2) show ?thesis
  proof (cases rule: ws_exec_cases)
    case (await t0 cl ch choice)
    with l(1) show ?thesis
      by (cases choice) (auto simp: roundTrip_wait_def split: list.splits if_splits)
  qed (use l(1) in auto)
qed

lemma caller_moves:
  assumes "\<not> ws_panic s"
  shows "ws_threads s t = AtEnqueue cl \<Longrightarrow> can_move s t"
    and "ws_threads s t = AtWrite cl ch \<Longrightarrow> ws_writeMu s = None \<Longrightarrow> can_move s t"
    and "ws_threads s t = AtWait cl ch \<Longrightarrow> rc_buf (ws_chans s ch) \<noteq> [] \<or> rc_closed (ws_chans s ch) \<Longrightarrow> can_move s t"
    and "ws_threads s t = AtWait cl ch \<Longrightarrow> ws_done s \<Longrightarrow> can_move s t"
    and "ws_threads s t = AtUnlink r res \<Longrightarrow> can_move s t"
    and "ws_threads s t = AtClose r res \<Longrightarrow> can_move s t"
proof -
  show "ws_threads s t = AtEnqueue cl \<Longrightarrow> can_move s t"
    using assms by (intro can_moveI [of "Enqueue t"]) (simp_all add: ws_exec_def)
  show "ws_threads s t = AtWrite cl ch \<Longrightarrow> ws_writeMu s = None \<Longrightarrow> can_move s t"
    using assms by (intro can_moveI [of "Lock t"]) (simp_all add: ws_exec_def roundTrip_lock_def)
  show "can_move s t" if "ws_threads s t = AtWait cl ch" "rc_buf (ws_chans s ch) \<noteq> [] \<or> rc_closed (ws_chans s ch)"
    using assms that unfolding can_move_def
    by (intro exI [of _ "Await t GotResponse"]) (auto simp: ws_exec_def roundTrip_wait_def split: list.split)
  show "ws_threads s t = AtWait cl ch \<Longrightarrow> ws_done s \<Longrightarrow> can_move s t"
    using assms by (intro can_moveI [of "Await t GotDone"]) (simp_all add: ws_exec_def roundTrip_wait_def)
  show "ws_threads s t = AtUnlink r res \<Longrightarrow> can_move s t"
    using assms by (intro can_moveI [of "Unlink t"]) (simp_all add: ws_exec_def)
  show "ws_threads s t = AtClose r res \<Longrightarrow> can_move s t"
    using assms by (intro can_moveI [of "CloseEvents t"]) (simp_all add: ws_exec_def)
qed

lemma blocked_iff:
  assumes "mu_inv s" and "\<not> ws_panic s"
  shows "can_move s t \<longleftrightarrow>
    (case ws_threads s t of
       AtEnqueue cl \<Rightarrow> True
     | AtWrite cl ch \<Rightarrow> \<forall>t'. \<not> is_writing (ws_threads s t')
     | AtWait cl ch \<Rightarrow> rc_buf (ws_chans s ch) \<noteq> [] \<or> rc_closed (ws_chans s ch) \<or> ws_done s
     | AtUnlink r res \<Rightarrow> True
     | AtClose r res \<Rightarrow> True
     | _ \<Rightarrow> False)"
proof -
  have "ws_writeMu s = None \<longleftrightarrow> (\<forall>t'. \<not> is_writing (ws_threads s t'))"
    using assms(1) unfolding mu_inv_def by (cases "ws_writeMu s") auto
  with can_move_pc [of s t] caller_moves [OF assms(2), of t] show ?thesis
    by (cases "ws_threads s t") auto
qed

section \<open>Reactions of the read loop\<close>

text \<open>Steps the read loop takes on its own before it reads from the connection again or stops.\<close>

fun reader_rank :: "reader_pc \<Rightarrow> nat" where
  "reader_rank RRead = 0"
| "reader_rank (RFan e rs) = length rs + 1"
| "reader_rank (RRespond ch resp) = 1"
| "reader_rank (RCloseDone chs rs) = length chs + length rs + 4"
| "reader_rank (RClosePending chs rs) = length chs + length rs + 3"
| "reader_rank (RCloseSubs rs) = length rs + 2"
| "reader_rank RCloseConn = 1"
| "reader_rank RStopped = 0"

fun reads :: "ws_label \<Rightarrow> bool" where
  "reads (Recv raw) = True"
| "reads (RecvErr err allSubs) = True"
| "reads _ = False"

lemma reader_step_rank: "reader_step s = Some s' \<Longrightarrow> Suc (reader_rank (ws_reader s')) = reader_rank (ws_reader s)"
  by (auto simp: reader_step_def split: reader_pc.splits list.splits)

lemma other_steps_keep_reader:
  assumes "ws_exec l s = Some s'" and "\<not> reads l" and "l \<noteq> ReaderStep"
  shows "ws_reader s' = ws_reader s"
  using assms(1)
proof (cases rule: ws_exec_cases)
  case (enqueue t cl)
  then show ?thesis by (simp add: roundTrip_enqueue_def Let_def)
next
  case (sending t cl ch out)
  then show ?thesis by (cases rule: roundTrip_write_cases [of s cl out t ch]) simp_all
next
  case (await t cl ch choice)
  then show ?thesis by (auto elim!: roundTrip_wait_cases)
qed (use assms(2,3) in simp_all)

abbreviation reader_steps :: "ws_label list \<Rightarrow> nat" where
  "reader_steps ls \<equiv> count_list ls ReaderStep"

lemma step_reader_rank:
  assumes "ws_exec l s = Some s'" and "\<not> reads l"
  shows "count_list [l] ReaderStep + reader_rank (ws_reader s') = reader_rank (ws_reader s)"
proof (cases "l = ReaderStep")
  case True
  then have "reader_step s = Some s'"
    using assms(1) by (simp add: ws_exec_def split: if_splits)
  with True reader_step_rank [OF this] show ?thesis by simp
next
  case False
  with other_steps_keep_reader [OF assms False] show ?thesis by simp
qed

lemma run_reader_rank:
  "ws_execs ls s = Some s' \<Longrightarrow> \<forall>l \<in> set ls. \<not> reads l \<Longrightarrow>
     reader_steps ls + reader_rank (ws_reader s') = reader_rank (ws_reader s)"
proof (induction ls arbitrary: s)
  case (Cons l ls)
  then obtain s1 where s1: "ws_exec l s = Some s1" "ws_execs ls s1 = Some s'"
    by (auto split: option.splits)
  with Cons.IH [OF s1(2)] step_reader_rank [OF s1(1)] Cons.prems(2) show ?case by auto
qed simp

text \<open>A fan-out follows the list it took when the event arrived.\<close>

lemma run_fan:
  "ws_execs ls s = Some s' \<Longrightarrow> \<forall>l \<in> set ls. \<not> reads l \<Longrightarrow> ws_reader s = RFan e rs \<Longrightarrow> reader_steps ls \<le> length rs \<Longrightarrow>
     ws_reader s' = RFan e (drop (reader_steps ls) rs)"
proof (induction ls arbitrary: s rs)
  case (Cons l ls)
  then obtain s1 where s1: "ws_exec l s = Some s1" "ws_execs ls s1 = Some s'"
    by (auto split: option.splits)
  show ?case
  proof (cases "l = ReaderStep")
    case True
    then obtain r rs' where rs: "rs = r # rs'"
      using Cons.prems(4) by (cases rs) auto
    then have "ws_reader s1 = RFan e rs'"
      using s1(1) Cons.prems(3) True by (auto simp: ws_exec_def reader_step_def split: if_splits)
    with Cons.IH [OF s1(2), of rs'] Cons.prems True rs show ?thesis by auto
  next
    case False
    with other_steps_keep_reader [OF s1(1)] Cons.prems have "ws_reader s1 = RFan e rs" by auto
    with Cons.IH [OF s1(2), of rs] Cons.prems False show ?thesis by auto
  qed
qed simp

lemma reader_not_stuck:
  assumes "chan_inv s" and "\<not> ws_panic s" and "0 < reader_rank (ws_reader s)"
  shows "\<exists>s'. ws_exec ReaderStep s = Some s'"
  using assms by (auto simp: ws_exec_def reader_step_def send_response_def chan_inv_def fresh_chan_def Let_def
      split: reader_pc.split list.split)

section \<open>Tearing down\<close>

fun tearing :: "reader_pc \<Rightarrow> bool" where
  "tearing RRead = False"
| "tearing (RFan e rs) = False"
| "tearing (RRespond ch resp) = False"
| "tearing _ = True"

lemma run_not_tearing:
  "ws_execs ls s = Some s' \<Longrightarrow> \<forall>l \<in> set ls. \<not> reads l \<Longrightarrow> \<not> tearing (ws_reader s) \<Longrightarrow> \<not> tearing (ws_reader s')"
proof (induction ls arbitrary: s)
  case (Cons l ls)
  then obtain s1 where s1: "ws_exec l s = Some s1" "ws_execs ls s1 = Some s'"
    by (auto split: option.splits)
  have "\<not> tearing (ws_reader s1)"
    using other_steps_keep_reader [OF s1(1)] s1(1) Cons.prems(2,3)
    by (cases "l = ReaderStep")
      (auto simp: ws_exec_def reader_step_def split: if_splits reader_pc.splits list.splits)
  with Cons.IH [OF s1(2)] Cons.prems(2) show ?case by simp
qed simp

text \<open>The channels \<open>C\<close> and subscriptions \<open>R\<close> that the tear-down took over are closed or still on its list.\<close>

definition down_inv :: "chan_ref set \<Rightarrow> sub_ref set \<Rightarrow> WSClient \<Rightarrow> bool" where
  "down_inv C R s \<longleftrightarrow> tearing (ws_reader s) \<and>
     (\<forall>ch \<in> C. ch < ws_nextChan s \<and> (rc_closed (ws_chans s ch) \<or> ch \<in> set (left_chans (ws_reader s)))) \<and>
     (\<forall>r \<in> R. r < ws_nextSub s \<and> (sub_closed (ws_objs s r) \<or> r \<in> set (left_subs (ws_reader s)))) \<and>
     (ws_reader s = RStopped \<longrightarrow> ws_connClosed s)"

lemma down_frame:
  assumes "down_inv C R s" and "ws_reader s' = ws_reader s" and "ws_nextChan s \<le> ws_nextChan s'"
    and "ws_nextSub s \<le> ws_nextSub s'"
    and "\<And>ch. ch < ws_nextChan s \<Longrightarrow> rc_closed (ws_chans s ch) \<Longrightarrow> rc_closed (ws_chans s' ch)"
    and "\<And>r. r < ws_nextSub s \<Longrightarrow> sub_closed (ws_objs s r) \<Longrightarrow> sub_closed (ws_objs s' r)"
    and "ws_connClosed s \<Longrightarrow> ws_connClosed s'"
  shows "down_inv C R s'"
  using assms unfolding down_inv_def by (metis order.strict_trans2)

lemma afterRoundTrip_conn [simp]: "ws_connClosed (afterRoundTrip s t cl res) = ws_connClosed s"
  by (cases cl; simp add: afterRoundTrip_defs split: sum.split)

lemma down_reader:
  assumes "down_inv C R s" and "sub_inv s" and "reader_step s = Some s'"
  shows "down_inv C R s'"
proof (cases "ws_reader s")
  case (RCloseSubs rs)
  have "sub_closed (ws_objs (close_events s r) r)" "sub_closed (ws_objs s r') \<Longrightarrow> sub_closed (ws_objs (close_events s r) r')"
    for r r'
    using sub_invD(1) [OF assms(2), of r] by (auto simp: close_events_def sub_shape_def panic_def Let_def)
  with RCloseSubs assms(1,3) show ?thesis
    by (cases rs) (auto simp: down_inv_def reader_step_def)
next
  case (RClosePending chs rs)
  with assms(1,3) show ?thesis
    by (cases chs) (auto simp: down_inv_def reader_step_def close_chan_def panic_def Let_def split: if_splits)
qed (use assms(1,3) in \<open>auto simp: down_inv_def reader_step_def close_done_def panic_def split: if_splits\<close>)

lemma down_step:
  assumes "down_inv C R s" and "sub_inv s" and "ws_exec l s = Some s'"
  shows "down_inv C R s'"
  using assms(3)
proof (cases rule: ws_exec_cases)
  case (subscribe t topic filt)
  then show ?thesis
    by (intro down_frame [OF assms(1)]) (auto simp: Subscribe_def Let_def)
next
  case (enqueue t cl)
  then show ?thesis
    by (intro down_frame [OF assms(1)]) (auto simp: roundTrip_enqueue_def objs_afterRoundTrip Let_def)
next
  case (sending t cl ch out)
  then show ?thesis
    by (cases rule: roundTrip_write_cases [of s cl out t ch])
      (auto intro!: down_frame [OF assms(1)] simp: objs_afterRoundTrip)
next
  case (await t cl ch choice)
  then show ?thesis
    by (intro down_frame [OF assms(1)])
      (auto simp: roundTrip_wait_def objs_afterRoundTrip split: ws_choice.splits list.splits if_splits)
next
  case (unlink t r res)
  then show ?thesis
    by (intro down_frame [OF assms(1)]) (auto simp: removeSubscription_def Let_def)
next
  case (close_events t r res)
  then show ?thesis
    by (intro down_frame [OF assms(1)]) (auto simp: close_events_def panic_def Let_def)
next
  case reader
  then show ?thesis using down_reader [OF assms(1,2)] by blast
next
  case (consume r e es)
  then show ?thesis by (intro down_frame [OF assms(1)]) auto
qed (use assms(1) in \<open>auto simp: down_inv_def\<close>)

lemma down_reads: "down_inv C R s \<Longrightarrow> ws_exec l s = Some s' \<Longrightarrow> \<not> reads l"
  by (cases l) (auto simp: down_inv_def ws_exec_def split: if_splits)

lemma down_no_panic: "down_inv C R s \<Longrightarrow> chan_inv s \<Longrightarrow> sub_inv s \<Longrightarrow> ws_exec l s = Some s' \<Longrightarrow> \<not> ws_panic s'"
  using ws_exec_panic [of s l s'] by (auto simp: down_inv_def)

lemma down_run:
  assumes "ws_execs ls s = Some s'" and "chan_inv s \<and> sub_inv s" and "down_inv C R s" and "\<not> ws_panic s"
  shows "chan_inv s' \<and> sub_inv s' \<and> down_inv C R s' \<and> \<not> ws_panic s' \<and>
    reader_steps ls + reader_rank (ws_reader s') = reader_rank (ws_reader s)"
  using assms
proof (induction ls arbitrary: s)
  case (Cons l ls)
  then obtain s1 where s1: "ws_exec l s = Some s1" "ws_execs ls s1 = Some s'"
    by (auto split: option.splits)
  have "chan_inv s1 \<and> sub_inv s1" "down_inv C R s1" "\<not> ws_panic s1"
    using subs.I_step down_step down_no_panic s1(1) Cons.prems by blast+
  from Cons.IH [OF s1(2) this] step_reader_rank [OF s1(1) down_reads [OF Cons.prems(3) s1(1)]]
  show ?case by auto
qed simp

lemma teardown_down:
  assumes "chan_inv s" and "sub_inv s" and "ws_exec (RecvErr err allSubs) s = Some s1"
  shows "down_inv (set (ws_pending s)) (set allSubs) s1" and "\<not> ws_panic s1"
    and "reader_rank (ws_reader s1) = length (ws_pending s) + length allSubs + 4"
    and "set allSubs = {r. \<exists>topic. r \<in> set (subs_of s topic)}"
proof -
  have s1: "s1 = teardown s err allSubs" "\<not> ws_panic s" "mset allSubs = mset (registered s)"
    using assms(3) by (auto simp: ws_exec_def split: if_splits)
  then have "set allSubs = set (registered s)"
    by (metis set_mset_mset)
  then show subs: "set allSubs = {r. \<exists>topic. r \<in> set (subs_of s topic)}"
    using registered_conv [OF sub_invD(2) [OF assms(2)]] by blast
  have "ch < ws_nextChan s" if "ch \<in> set (ws_pending s)" for ch
    using assms(1) that by (simp add: chan_inv_def fresh_chan_def list_all_iff)
  moreover have "r < ws_nextSub s" if "r \<in> set allSubs" for r
    using sub_invD(4) [OF assms(2)] that subs by (auto simp: subs_of_conv)
  ultimately show "down_inv (set (ws_pending s)) (set allSubs) s1"
    by (simp add: down_inv_def s1(1) teardown_def)
  show "\<not> ws_panic s1" "reader_rank (ws_reader s1) = length (ws_pending s) + length allSubs + 4"
    using s1(2) by (simp_all add: s1(1) teardown_def)
qed

end
