(* ===== verification/Arch_Websocket_Runs.thy ===== *)
theory Arch_Websocket_Runs
  imports Arch_Websocket_Events Arch_Websocket_Progress
begin

text \<open>
  Concrete runs of the subscription client, two of which show what can go wrong between goroutines, and
  the properties of the client over all its runs.
\<close>

section \<open>Concrete runs\<close>

definition wsAck :: "string \<Rightarrow> string \<Rightarrow> byte list" where
  "wsAck status sid = json_Marshal (JObj [(''status'', JStr status), (''subscription_id'', JStr sid)])"

definition wsEvent :: "EventTopic \<Rightarrow> byte list" where
  "wsEvent topic = json_Marshal (JObj [(''topic'', JStr topic), (''data'', JObj [])])"

lemma un_wsMessage_samples:
  "valid_utf8 st \<Longrightarrow> valid_utf8 sid \<Longrightarrow> json_Unmarshal un_wsMessage (wsAck st sid) zero_wsMessage =
     Inr \<lparr>wm_Topic = [], wm_Data = None, wm_Status = st, wm_SubscriptionID = sid, wm_Message = [], wm_Error = []\<rparr>"
  "valid_utf8 topic \<Longrightarrow> json_Unmarshal un_wsMessage (wsEvent topic) zero_wsMessage =
     Inr \<lparr>wm_Topic = topic, wm_Data = Some (JObj []), wm_Status = [], wm_SubscriptionID = [], wm_Message = [],
       wm_Error = []\<rparr>"
  by (simp_all add: wsAck_def wsEvent_def json_Unmarshal_Marshal un_wsMessage_def un_raw_def zero_wsMessage_def
      json_simps maxNestingDepth_def)

text \<open>One call subscribes to blocks and is confirmed.\<close>

definition subscribeRun :: "ws_label list" where
  "subscribeRun =
     [StartSubscribe 0 TopicBlock None, Enqueue 0, Lock 0, Write 0 None, Recv (wsAck ''Subscribed'' ''b1''), ReaderStep,
      Await 0 GotResponse]"

text \<open>
  A second call unsubscribes; an event of the topic arrives and the read loop takes its snapshot; the
  context of the call ends, so it removes the subscription and closes the channel; the read loop sends.
\<close>

definition unsubscribeRace :: "ws_label list" where
  "unsubscribeRace =
     [StartUnsubscribe 1 0, Enqueue 1, Lock 1, Write 1 None, Recv (wsEvent TopicBlock),
      Await 1 (GotCtx (External ''context canceled'')), Unlink 1, CloseEvents 1, ReaderStep]"

text \<open>Two calls subscribe to different topics; they queue in one order and write in the other.\<close>

definition crossedRun :: "ws_label list" where
  "crossedRun =
     [StartSubscribe 0 TopicBlock None, StartSubscribe 1 TopicDKG None, Enqueue 0, Enqueue 1,
      Lock 1, Write 1 None, Lock 0, Write 0 None,
      Recv (wsAck ''Subscribed'' ''dkg-id''), ReaderStep, Recv (wsAck ''Subscribed'' ''block-id''), ReaderStep,
      Await 0 GotResponse, Await 1 GotResponse]"

lemmas ws_run_simps =
  ws_exec_def ws_init_def new_sub_def new_chan_def goto_def Subscribe_def Unsubscribe_def roundTrip_enqueue_def
  roundTrip_lock_def roundTrip_write_def WriteJSON_def mar_wsRequest_def mar_wsSubscribeParams_def mar_EventFilter_def
  mar_wsUnsubscribeParams_def roundTrip_wait_def afterRoundTrip_defs removeSubscription_def readLoop_message_def
  reader_step_def send_event_def send_response_def close_events_def panic_def subs_of_def response_of_def
  un_wsMessage_samples subEventBuffer_def TopicBlock_def TopicDKG_def Let_def

lemma subscribeRun_ok:
  "\<exists>s. ws_execs subscribeRun ws_init = Some s \<and> \<not> ws_panic s \<and> ws_reader s = RRead \<and>
     ws_threads s 0 = Finished (Inr 0) \<and> ws_subs s = [(TopicBlock, [0])] \<and> ws_pending s = [] \<and>
     sub_id (ws_objs s 0) = ''b1'' \<and> sub_events (ws_objs s 0) = []"
  by (simp add: subscribeRun_def ws_run_simps)

text \<open>The race ends in a send on a closed channel.\<close>

lemma panicRun_ok:
  "\<exists>s. ws_execs (subscribeRun @ unsubscribeRace) ws_init = Some s \<and> ws_panic s"
  by (simp add: subscribeRun_def unsubscribeRace_def ws_run_simps)

text \<open>
  The order of the writes matters: the server answers in the order of the requests it received, and
  each call ends up with the subscription id of the other topic.
\<close>

lemma crossedRun_ok:
  "\<exists>s. ws_execs crossedRun ws_init = Some s \<and> \<not> ws_panic s \<and>
     map wq_Params (ws_sent s) = [mar_wsSubscribeParams TopicDKG [], mar_wsSubscribeParams TopicBlock []] \<and>
     ws_threads s 0 = Finished (Inr 0) \<and> ws_threads s 1 = Finished (Inr 1) \<and>
     sub_topic (ws_objs s 0) = TopicBlock \<and> sub_id (ws_objs s 0) = ''dkg-id'' \<and>
     sub_topic (ws_objs s 1) = TopicDKG \<and> sub_id (ws_objs s 1) = ''block-id''"
  by (simp add: crossedRun_def ws_run_simps)

lemma subscribed_reachable:
  obtains s where "ws_reachable s" "\<not> ws_panic s" "ws_reader s = RRead" "ws_threads s 0 = Finished (Inr 0)"
    "ws_subs s = [(TopicBlock, [0])]" "ws_pending s = []"
  using subscribeRun_ok ws_reachable_execs [OF ws_reachable.init] by blast

section \<open>How long a message takes\<close>

definition reaction_steps :: "WSClient \<Rightarrow> byte list \<Rightarrow> nat" where
  "reaction_steps s raw =
     (case json_Unmarshal un_wsMessage raw zero_wsMessage of
        Inl err \<Rightarrow> 0
      | Inr msg \<Rightarrow>
          (case wm_Data msg of
             Some d \<Rightarrow> length (subs_of s (wm_Topic msg)) + 1
           | None \<Rightarrow> if wm_Status msg \<noteq> [] \<and> ws_pending s \<noteq> [] then 1 else 0))"

lemma message_rank:
  "ws_reader s = RRead \<Longrightarrow> reader_rank (ws_reader (readLoop_message s raw)) = reaction_steps s raw"
  by (auto simp: readLoop_message_def reaction_steps_def split: option.split sum.split list.split)

lemma event_fan:
  assumes "event_of raw = Some e"
  shows "ws_reader (readLoop_message s raw) = RFan e (subs_of s (ev_Topic e))"
    and "reaction_steps s raw = length (subs_of s (ev_Topic e)) + 1"
  using assms by (auto simp: readLoop_message_def reaction_steps_def event_of_def split: sum.splits)

section \<open>Properties\<close>

text \<open>
  C4 (safety). In any interleaving of the read loop with any number of subscribing and unsubscribing
  calls, the client can panic in one way only: the read loop, fanning an event out to the subscriptions
  it had listed, sends to one that has meanwhile been removed from the client and closed. Response
  channels and the done channel are never closed twice or sent to after closing, and no event channel
  is closed twice.
\<close>

theorem panic_only_in_fan_out:
  assumes "ws_reachable s" and "ws_exec l s = Some s'" and "ws_panic s'"
  shows "l = ReaderStep \<and>
    (\<exists>e r rs. ws_reader s = RFan e (r # rs) \<and> sub_closed (ws_objs s r) \<and>
       (\<forall>topic. r \<notin> set (subs_of s topic)))"
proof -
  have inv: "chan_inv s" "sub_inv s"
    using subs.reachable [OF assms(1)] by blast+
  from ws_exec_panic [OF this assms(2,3)] obtain e r rs where
    "l = ReaderStep" "ws_reader s = RFan e (r # rs)" "sub_closed (ws_objs s r)" by blast
  moreover have "r \<notin> set (subs_of s topic)" for topic
    using sub_invD(6) [OF inv(2)] \<open>sub_closed (ws_objs s r)\<close> by (auto simp: subs_of_conv)
  ultimately show ?thesis by blast
qed

theorem panic_only_in_fan_out_witness:
  "\<exists>s s'. ws_reachable s \<and> ws_exec ReaderStep s = Some s' \<and> ws_panic s' \<and>
     (\<exists>e r rs. ws_reader s = RFan e (r # rs) \<and> (\<forall>topic. r \<notin> set (subs_of s topic)))"
proof -
  let ?ls = "subscribeRun @ butlast unsubscribeRace"
  obtain s' where s': "ws_execs (subscribeRun @ unsubscribeRace) ws_init = Some s'" "ws_panic s'"
    using panicRun_ok by blast
  have "subscribeRun @ unsubscribeRace = ?ls @ [ReaderStep]"
    by (simp add: unsubscribeRace_def)
  with s' obtain s where s: "ws_execs ?ls ws_init = Some s" "ws_exec ReaderStep s = Some s'"
    by (auto simp only: ws_execs_append ws_execs.simps split: option.splits)
  then have "ws_reachable s"
    using ws_reachable_execs [OF ws_reachable.init] by blast
  with panic_only_in_fan_out [OF this s(2) s'(2)] s(2) s'(2) show ?thesis by blast
qed

text \<open>
  C24 (safety). As long as no call removes a subscription, the client never panics: every run in which no
  event channel is closed by the last line of a subscription's removal ends in a state that is not panicked,
  whatever the server sends, however the calls interleave and however the connection fails.
\<close>

theorem no_panic_without_removal:
  assumes "ws_execs ls ws_init = Some s" and "\<forall>t. CloseEvents t \<notin> set ls"
  shows "\<not> ws_panic s"
proof -
  have "\<not> ws_panic s'"
    if "ws_execs ls s0 = Some s'" "\<forall>t. CloseEvents t \<notin> set ls" "chan_inv s0 \<and> sub_inv s0" "all_open s0"
      "\<not> ws_panic s0" for ls s0 s'
    using that
  proof (induction ls arbitrary: s0)
    case (Cons l ls)
    then obtain s1 where s1: "ws_exec l s0 = Some s1" "ws_execs ls s1 = Some s'"
      by (auto split: option.splits)
    have "\<not> ws_panic s1"
      using ws_exec_panic [of s0 l s1] s1(1) Cons.prems(3,4) by (auto simp: all_open_def)
    moreover have "all_open s1"
      using all_open_step [OF Cons.prems(4) s1(1)] Cons.prems(2) by auto
    moreover have "chan_inv s1 \<and> sub_inv s1" "\<forall>t. CloseEvents t \<notin> set ls"
      using subs.I_step [OF Cons.prems(3) s1(1)] Cons.prems(2) by auto
    ultimately show ?case
      using Cons.IH [OF s1(2)] by blast
  qed simp
  moreover have "all_open ws_init" "\<not> ws_panic ws_init"
    by (simp_all add: all_open_def ws_init_def new_sub_def)
  ultimately show ?thesis
    using assms subs.I_init by blast
qed

theorem no_panic_without_removal_witness:
  "\<exists>s. ws_execs subscribeRun ws_init = Some s \<and> \<not> ws_panic s"
proof -
  obtain s where s: "ws_execs subscribeRun ws_init = Some s"
    using subscribeRun_ok by blast
  moreover have "\<not> ws_panic s"
    by (rule no_panic_without_removal [OF s]) (simp add: subscribeRun_def)
  ultimately show ?thesis by blast
qed

text \<open>
  C18 (functional). Responses are correlated first in, first out: while the client is open the queue
  holds the most recent requests in the order they were queued, with none missing in between, and a
  response that arrives is handed to the oldest of them and to no other.
\<close>

theorem responses_fifo:
  assumes "ws_reachable s" and "\<not> ws_closed s" and "ws_exec (Recv raw) s = Some s'"
    and "json_Unmarshal un_wsMessage raw zero_wsMessage = Inr msg" and "wm_Data msg = None" and "wm_Status msg \<noteq> []"
  shows "ws_pending s = [ws_nextChan s - length (ws_pending s)..<ws_nextChan s] \<and>
    (if ws_pending s = [] then s' = s
     else ws_reader s' = RRespond (ws_nextChan s - length (ws_pending s)) (response_of msg) \<and>
       ws_pending s' = [Suc (ws_nextChan s - length (ws_pending s))..<ws_nextChan s])"
proof -
  define k where "k = ws_nextChan s - length (ws_pending s)"
  have inv: "length (ws_pending s) \<le> ws_nextChan s" "ws_pending s = [k..<ws_nextChan s]"
    using subs.reachable [OF assms(1)] assms(2) by (simp_all add: chan_inv_def k_def)
  have s': "s' = readLoop_message s raw"
    using assms(3) by (simp add: ws_exec_def split: if_splits)
  have "if ws_pending s = [] then s' = s
     else ws_reader s' = RRespond k (response_of msg) \<and> ws_pending s' = [Suc k..<ws_nextChan s]"
  proof (cases "ws_pending s")
    case Nil
    with assms(4-6) s' show ?thesis by (simp add: readLoop_message_def)
  next
    case (Cons ch rest)
    with inv(2) have "k < ws_nextChan s"
      by (metis list.distinct(1) not_le upt_conv_Nil)
    with inv(2) Cons have "ch = k" "rest = [Suc k..<ws_nextChan s]"
      by (metis list.inject upt_conv_Cons)+
    with Cons assms(4-6) s' show ?thesis
      by (simp add: readLoop_message_def)
  qed
  with inv(2) show ?thesis unfolding k_def by blast
qed

theorem responses_fifo_witness:
  "\<exists>s. ws_reachable s \<and> ws_pending s = [ws_nextChan s - length (ws_pending s)..<ws_nextChan s] \<and>
     length (ws_pending s) = 1"
proof -
  let ?ls = "[StartSubscribe 0 TopicBlock None, Enqueue 0, Lock 0, Write 0 None]"
  have "\<exists>s. ws_execs ?ls ws_init = Some s \<and> \<not> ws_panic s \<and> ws_reader s = RRead \<and> \<not> ws_closed s \<and>
      length (ws_pending s) = 1"
    by (simp add: ws_run_simps)
  then obtain s where s: "ws_reachable s" "\<not> ws_panic s" "ws_reader s = RRead" "\<not> ws_closed s"
      "length (ws_pending s) = 1"
    using ws_reachable_execs [OF ws_reachable.init] by blast
  then obtain s' where s': "ws_exec (Recv (wsAck ''Subscribed'' ''b1'')) s = Some s'"
    by (simp add: ws_exec_def)
  have "ws_pending s = [ws_nextChan s - length (ws_pending s)..<ws_nextChan s]"
    by (rule responses_fifo [OF s(1,4) s' un_wsMessage_samples(1), THEN conjunct1]) simp_all
  with s(1,5) show ?thesis by blast
qed

text \<open>
  C19 (functional). If no call is separated from its write and no write fails, responses find the right
  call: in every run in which queueing a response channel and writing its request form one
  uninterrupted step that succeeds, a response that arrives when \<open>n\<close> of the requests written so far have
  been answered goes to the channel on which only the call of the \<open>n\<close>-th request written is waiting. The
  condition on failures is needed, because a call whose write fails leaves its channel in the queue; the
  condition on separation is needed, as the run in which two calls cross shows.
\<close>

theorem ordered_writes_correlate:
  assumes "ws_ordered s" and "no_writer s" and "\<not> ws_closed s" and "ws_exec (Recv raw) s = Some s'"
    and "json_Unmarshal un_wsMessage raw zero_wsMessage = Inr msg" and "wm_Data msg = None" and "wm_Status msg \<noteq> []"
    and "ws_pending s \<noteq> []"
  shows "ws_reader s' = RRespond (length (ws_sent s) - length (ws_pending s)) (response_of msg) \<and>
    (\<forall>t cl. ws_threads s t = AtWait cl (length (ws_sent s) - length (ws_pending s)) \<longrightarrow>
       ws_sent s ! (length (ws_sent s) - length (ws_pending s)) = request_of s cl)"
proof -
  have inv: "chan_inv s" "order_inv s"
    using own.reachable [OF ordered_reachable] ordered_inv assms(1) by blast+
  let ?n = "ws_nextChan s" and ?k = "ws_nextChan s - length (ws_pending s)"
  have "length (ws_sent s) = ?n"
    using inv(2) assms(2,3) by (simp add: order_inv_def)
  moreover have "length (ws_pending s) \<le> ?n" and pend: "ws_pending s = [?k..<?n]"
    using inv(1) assms(3) by (simp_all add: chan_inv_def)
  then have "hd (ws_pending s) = ?k"
    using assms(8) by (metis hd_upt length_greater_0_conv zero_less_diff upt_conv_Nil not_le)
  moreover have "s' = readLoop_message s raw"
    using assms(4) by (simp add: ws_exec_def split: if_splits)
  ultimately show ?thesis
    using assms(5-8) inv(2)
    by (auto simp: readLoop_message_def order_inv_def waiting_ok_def neq_Nil_conv)
qed

theorem ordered_writes_correlate_witness:
  "\<exists>s s'. ws_ordered s \<and> ws_exec (Recv (wsAck ''Subscribed'' ''b1'')) s = Some s' \<and>
     ws_threads s 0 = AtWait (CallSubscribe 0 []) 0 \<and>
     ws_sent s ! 0 = \<lparr>wq_Method = ''subscribe'', wq_Params = mar_wsSubscribeParams TopicBlock []\<rparr> \<and>
     (\<exists>resp. ws_reader s' = RRespond 0 resp \<and> wr_SubscriptionID resp = ''b1'')"
proof -
  let ?ls = "[StartSubscribe 0 TopicBlock None, Enqueue 0, Lock 0, Write 0 None]"
  have "\<exists>s. ws_execs ?ls ws_init = Some s \<and> no_writer s \<and> \<not> ws_closed s \<and> ws_reader s = RRead \<and> \<not> ws_panic s \<and>
      ws_pending s = [0] \<and> ws_threads s 0 = AtWait (CallSubscribe 0 []) 0 \<and> length (ws_sent s) = 1 \<and>
      request_of s (CallSubscribe 0 []) =
        \<lparr>wq_Method = ''subscribe'', wq_Params = mar_wsSubscribeParams TopicBlock []\<rparr>"
    by (simp add: ws_run_simps no_writer_def)
  then obtain s3 where run: "ws_execs ?ls ws_init = Some s3"
    and facts: "no_writer s3" "\<not> ws_closed s3" "ws_reader s3 = RRead" "\<not> ws_panic s3" "ws_pending s3 = [0]"
      "ws_threads s3 0 = AtWait (CallSubscribe 0 []) 0" "length (ws_sent s3) = 1"
      "request_of s3 (CallSubscribe 0 []) = \<lparr>wq_Method = ''subscribe'', wq_Params = mar_wsSubscribeParams TopicBlock []\<rparr>"
    by blast
  obtain s1 s2 s2' where s1: "ws_exec (StartSubscribe 0 TopicBlock None) ws_init = Some s1"
    and s2: "ws_exec (Enqueue 0) s1 = Some s2" and s2': "ws_exec (Lock 0) s2 = Some s2'"
    and s3: "ws_exec (Write 0 None) s2' = Some s3"
    using run by (auto split: option.splits)
  have "\<exists>s. ws_execs [StartSubscribe 0 TopicBlock None, Enqueue 0, Lock 0] ws_init = Some s \<and> ws_sent s = []"
    by (simp add: ws_run_simps)
  with s1 s2 s2' facts(7) have sent: "ws_sent s3 \<noteq> ws_sent s2'" by auto
  have "\<exists>s. ws_exec (StartSubscribe 0 TopicBlock None) ws_init = Some s \<and> no_writer s"
    by (simp add: ws_run_simps no_writer_def)
  with s1 have "no_writer s1" by simp
  moreover have "no_writer ws_init"
    by (simp add: no_writer_def ws_init_def)
  ultimately have ord: "ws_ordered s3"
    using ws_ordered.step [OF ws_ordered.step [OF ws_ordered.init _ s1] _ s2] ws_ordered.lock [OF _ s2']
      ws_ordered.sent [OF _ s3 sent] by blast
  obtain s' where s': "ws_exec (Recv (wsAck ''Subscribed'' ''b1'')) s3 = Some s'"
    using facts by (simp add: ws_exec_def)
  have "ws_reader s' = RRespond 0 \<lparr>wr_Status = ''Subscribed'', wr_SubscriptionID = ''b1'', wr_Message = [], wr_Error = []\<rparr> \<and>
      ws_sent s3 ! 0 = request_of s3 (CallSubscribe 0 [])"
    using ordered_writes_correlate [OF ord facts(1,2) s' un_wsMessage_samples(1)] facts(5-7)
    by (simp add: response_of_def)
  with ord s' facts(6,8) show ?thesis by auto
qed

text \<open>
  C20 (functional). Events arrive in order, at most once and only from the subscribed topic: in any run,
  what the consumer of a subscription has taken from its channel followed by what the channel still
  holds is a subsequence of the events received on that subscription's topic. And an event that the
  read loop handles without being disturbed reaches every subscription registered for its topic, except
  those whose buffer of 256 is full, and changes no other.
\<close>

theorem event_delivery:
  assumes "ws_execs ls ws_init = Some s"
  shows "subseq (consumed r ls ws_init @ sub_events (ws_objs s r)) (received (sub_topic (ws_objs s r)) ls) \<and>
    (\<not> ws_panic s \<and> ws_reader s = RRead \<and> event_of raw = Some e \<longrightarrow>
       (\<exists>s'. ws_execs (Recv raw # replicate (Suc (length (subs_of s (ev_Topic e)))) ReaderStep) s = Some s' \<and>
          \<not> ws_panic s' \<and> ws_reader s' = RRead \<and>
          (\<forall>r. sub_events (ws_objs s' r) =
             (if r \<in> set (subs_of s (ev_Topic e)) \<and> length (sub_events (ws_objs s r)) < 256
              then sub_events (ws_objs s r) @ [e] else sub_events (ws_objs s r)))))"
proof -
  have "ws_reachable s"
    using ws_reachable_execs [OF ws_reachable.init assms] .
  from event_reaches_subscribers [OF this, of raw e] events_in_order [OF assms, of r] show ?thesis
    by (auto simp: delivered_def subEventBuffer_def)
qed

theorem event_delivery_witness:
  "\<exists>s s'. ws_execs subscribeRun ws_init = Some s \<and>
     ws_execs [Recv (wsEvent ''block''), ReaderStep, ReaderStep] s = Some s' \<and>
     sub_events (ws_objs s' 0) = [\<lparr>ev_Topic = ''block'', ev_Data = Some (JObj [])\<rparr>]"
proof -
  let ?e = "\<lparr>ev_Topic = ''block'', ev_Data = Some (JObj [])\<rparr>"
  obtain s where s: "ws_execs subscribeRun ws_init = Some s" "\<not> ws_panic s" "ws_reader s = RRead"
      "ws_subs s = [(TopicBlock, [0])]" "sub_events (ws_objs s 0) = []"
    using subscribeRun_ok by blast
  have e: "event_of (wsEvent ''block'') = Some ?e"
    by (simp add: event_of_def un_wsMessage_samples)
  have subs: "subs_of s ''block'' = [0]"
    using s(4) by (simp add: subs_of_def TopicBlock_def)
  from event_delivery [OF s(1), of 0 "wsEvent ''block''" ?e] s(2,3) e subs obtain s' where
      "ws_execs (Recv (wsEvent ''block'') # replicate 2 ReaderStep) s = Some s'"
      "\<forall>r. sub_events (ws_objs s' r) =
         (if r \<in> {0} \<and> length (sub_events (ws_objs s r)) < 256 then sub_events (ws_objs s r) @ [?e]
          else sub_events (ws_objs s r))"
    by (auto simp: numeral_2_eq_2)
  then have "ws_execs [Recv (wsEvent ''block''), ReaderStep, ReaderStep] s = Some s'"
      "sub_events (ws_objs s' 0) = [?e]"
    using s(5) by (simp_all add: numeral_2_eq_2)
  with s(1) show ?thesis by blast
qed

text \<open>
  C21 (termination). A message is dealt with in a number of steps of the read loop that is settled when
  it arrives, whatever the callers do in between: an event takes one step for each subscription then
  registered for its topic and one more, a response one step if a call is queued, anything else none.
  Until it has taken them the read loop can take its next step, unless the client has panicked;
  when it has, it reads again. During a fan-out it follows the list of subscriptions it took on arrival,
  not the one that callers may be changing.
\<close>

theorem reactions_terminate:
  assumes "ws_reachable s0" and "ws_exec (Recv raw) s0 = Some s" and "ws_execs ls s = Some s'"
    and "\<forall>l \<in> set ls. \<not> reads l"
  shows "count_list ls ReaderStep \<le> reaction_steps s0 raw \<and>
    (count_list ls ReaderStep < reaction_steps s0 raw \<and> \<not> ws_panic s' \<longrightarrow> (\<exists>s''. ws_exec ReaderStep s' = Some s'')) \<and>
    (count_list ls ReaderStep = reaction_steps s0 raw \<longrightarrow> ws_reader s' = RRead) \<and>
    (\<forall>e. event_of raw = Some e \<and> count_list ls ReaderStep < reaction_steps s0 raw \<longrightarrow>
       ws_reader s' = RFan e (drop (count_list ls ReaderStep) (subs_of s0 (ev_Topic e))))"
proof -
  have s: "s = readLoop_message s0 raw" "ws_reader s0 = RRead"
    using assms(2) by (auto simp: ws_exec_def split: if_splits)
  then have rank: "reader_rank (ws_reader s) = reaction_steps s0 raw"
    by (simp add: message_rank)
  note run = run_reader_rank [OF assms(3,4), unfolded rank]
  have "ws_reachable s'"
    using ws_reachable_execs [OF ws_reachable.step [OF assms(1,2)] assms(3)] .
  then have "\<exists>s''. ws_exec ReaderStep s' = Some s''"
    if "count_list ls ReaderStep < reaction_steps s0 raw" "\<not> ws_panic s'"
    using reader_not_stuck [OF chan.reachable] that run by simp
  moreover have "\<not> tearing (ws_reader s)"
    using s by (auto simp: readLoop_message_def split: option.split sum.split list.split)
  then have "ws_reader s' = RRead" if "count_list ls ReaderStep = reaction_steps s0 raw"
    using run_not_tearing [OF assms(3,4)] run that by (cases "ws_reader s'") auto
  moreover have "ws_reader s' = RFan e (drop (count_list ls ReaderStep) (subs_of s0 (ev_Topic e)))"
    if "event_of raw = Some e" "count_list ls ReaderStep < reaction_steps s0 raw" for e
    using that run_fan [OF assms(3,4)] event_fan [OF that(1)] s by simp
  ultimately show ?thesis
    using run by auto
qed

theorem reactions_terminate_witness:
  "\<exists>s s1. ws_reachable s \<and> ws_exec (Recv (wsEvent ''block'')) s = Some s1 \<and> reaction_steps s (wsEvent ''block'') = 2 \<and>
     (\<forall>ls s2. ws_execs ls s1 = Some s2 \<and> (\<forall>l \<in> set ls. \<not> reads l) \<and> count_list ls ReaderStep = 2 \<longrightarrow>
        ws_reader s2 = RRead)"
proof -
  obtain s where s: "ws_reachable s" "\<not> ws_panic s" "ws_reader s = RRead" "ws_subs s = [(TopicBlock, [0])]"
    by (rule subscribed_reachable)
  then obtain s1 where s1: "ws_exec (Recv (wsEvent ''block'')) s = Some s1"
    by (simp add: ws_exec_def)
  have two: "reaction_steps s (wsEvent ''block'') = 2"
    using s(4) by (simp add: reaction_steps_def un_wsMessage_samples subs_of_def TopicBlock_def)
  have "ws_reader s2 = RRead"
    if "ws_execs ls s1 = Some s2" "\<forall>l \<in> set ls. \<not> reads l" "count_list ls ReaderStep = 2" for ls s2
    using reactions_terminate [OF s(1) s1 that(1,2)] that(3) two by simp
  with s(1) s1 two show ?thesis by blast
qed

text \<open>
  C22 (safety). Who waits for whom. At most one goroutine is inside a write of the connection. A caller
  under way that cannot move by itself is inside such a write, or waits for the write mutex while
  another goroutine is inside one, or waits for its response while its channel is empty and open and the
  client is not done; and in that last case its channel is not forgotten: it is still queued, or the
  read loop is about to put a response into it or to close it.
\<close>

theorem blocked_callers:
  assumes "ws_reachable s" and "\<not> ws_panic s"
  shows "(\<forall>t t' cl cl' ch ch'. ws_threads s t = AtWriting cl ch \<and> ws_threads s t' = AtWriting cl' ch' \<longrightarrow> t = t') \<and>
    (\<forall>t. can_move s t \<longleftrightarrow>
       (case ws_threads s t of
          AtEnqueue cl \<Rightarrow> True
        | AtWrite cl ch \<Rightarrow> \<forall>t' cl' ch'. ws_threads s t' \<noteq> AtWriting cl' ch'
        | AtWait cl ch \<Rightarrow> rc_buf (ws_chans s ch) \<noteq> [] \<or> rc_closed (ws_chans s ch) \<or> ws_done s
        | AtUnlink r res \<Rightarrow> True
        | AtClose r res \<Rightarrow> True
        | _ \<Rightarrow> False)) \<and>
    (\<forall>t cl ch. ws_threads s t = AtWait cl ch \<and> \<not> can_move s t \<longrightarrow>
       ch \<in> set (ws_pending s) \<or> (\<exists>resp. ws_reader s = RRespond ch resp) \<or> ch \<in> set (left_chans (ws_reader s)))"
proof -
  have inv: "mu_inv s" "wait_inv s"
    using progress.reachable [OF assms(1)] by blast+
  note moves = blocked_iff [OF inv(1) assms(2)]
  have writing: "is_writing pc \<longleftrightarrow> (\<exists>cl ch. pc = AtWriting cl ch)" for pc
    by (cases pc) auto
  have "t = t'" if "ws_threads s t = AtWriting cl ch" "ws_threads s t' = AtWriting cl' ch'" for t t' cl cl' ch ch'
    using inv(1) that unfolding mu_inv_def by (metis is_writing.simps(1) option.inject)
  moreover have "ch \<in> set (ws_pending s) \<or> (\<exists>resp. ws_reader s = RRespond ch resp) \<or> ch \<in> set (left_chans (ws_reader s))"
    if "ws_threads s t = AtWait cl ch" "\<not> can_move s t" for t cl ch
  proof -
    have "accounted s ch"
      using inv(2) that(1) unfolding wait_inv_def by (metis chan_of.simps(3))
    with that moves [of t] show ?thesis by (auto simp: accounted_def)
  qed
  ultimately show ?thesis
    using moves unfolding writing by (auto split: caller_pc.splits)
qed

theorem blocked_callers_witness:
  "\<exists>s. ws_reachable s \<and> ws_threads s 0 = AtWriting (CallSubscribe 0 []) 0 \<and>
     ws_threads s 1 = AtWrite (CallSubscribe 1 []) 1 \<and> \<not> can_move s 1"
proof -
  let ?ls = "[StartSubscribe 0 TopicBlock None, Enqueue 0, StartSubscribe 1 TopicDKG None, Enqueue 1, Lock 0]"
  have "\<exists>s. ws_execs ?ls ws_init = Some s \<and> \<not> ws_panic s \<and> ws_threads s 0 = AtWriting (CallSubscribe 0 []) 0 \<and>
      ws_threads s 1 = AtWrite (CallSubscribe 1 []) 1"
    by (simp add: ws_run_simps)
  then obtain s where s: "ws_reachable s" "\<not> ws_panic s" "ws_threads s 0 = AtWriting (CallSubscribe 0 []) 0"
      "ws_threads s 1 = AtWrite (CallSubscribe 1 []) 1"
    using ws_reachable_execs [OF ws_reachable.init] by blast
  have "can_move s 1 \<longleftrightarrow> (\<forall>t' cl' ch'. ws_threads s t' \<noteq> AtWriting cl' ch')"
    using blocked_callers [OF s(1,2), THEN conjunct2, THEN conjunct1, THEN spec, of 1] s(4) by simp
  with s show ?thesis by blast
qed

text \<open>
  Delivering a response never blocks the read loop and never panics: whenever it holds a
  response for a call, its next step succeeds and leaves exactly that response in the call's channel.
\<close>

theorem response_delivery_never_blocks:
  assumes "ws_reachable s" and "\<not> ws_panic s" and "ws_reader s = RRespond ch resp"
  shows "\<exists>s'. ws_exec ReaderStep s = Some s' \<and> \<not> ws_panic s' \<and> ws_reader s' = RRead \<and>
    rc_buf (ws_chans s' ch) = [resp] \<and> ch \<notin> set (ws_pending s')"
proof -
  have "fresh_chan (ws_chans s) (ws_nextChan s) ch" "ch \<notin> set (ws_pending s)"
    using subs.reachable [OF assms(1)] assms(3) by (simp_all add: chan_inv_def)
  then show ?thesis
    using assms(2,3) by (simp add: ws_exec_def reader_step_def send_response_def fresh_chan_def Let_def)
qed

theorem response_delivery_never_blocks_witness:
  "\<exists>s ch resp s'. ws_reachable s \<and> ws_reader s = RRespond ch resp \<and> ws_exec ReaderStep s = Some s' \<and>
     rc_buf (ws_chans s' ch) = [resp]"
proof -
  let ?ls = "[StartSubscribe 0 TopicBlock None, Enqueue 0, Lock 0, Write 0 None, Recv (wsAck ''Subscribed'' ''b1'')]"
  have "\<exists>s ch resp. ws_execs ?ls ws_init = Some s \<and> \<not> ws_panic s \<and> ws_reader s = RRespond ch resp"
    by (simp add: ws_run_simps)
  then obtain s ch resp where s: "ws_reachable s" "\<not> ws_panic s" "ws_reader s = RRespond ch resp"
    using ws_reachable_execs [OF ws_reachable.init] by blast
  with response_delivery_never_blocks [OF s] show ?thesis by blast
qed

text \<open>
  C23 (invariant). In every reachable state each event buffer holds at most 256 events, each response
  channel holds nothing while its request is queued, every registered subscription is listed once under
  its own topic with its channel open, and after the tear-down nothing is queued or registered any more.
\<close>

theorem ws_state_invariant:
  assumes "ws_reachable s"
  shows "(\<forall>r. length (sub_events (ws_objs s r)) \<le> 256) \<and>
    (\<forall>ch \<in> set (ws_pending s). rc_buf (ws_chans s ch) = [] \<and> \<not> rc_closed (ws_chans s ch)) \<and>
    (\<forall>topic. distinct (subs_of s topic) \<and>
       (\<forall>r \<in> set (subs_of s topic). sub_topic (ws_objs s r) = topic \<and> \<not> sub_closed (ws_objs s r))) \<and>
    (ws_closed s \<longrightarrow> ws_pending s = [] \<and> ws_subs s = [])"
proof -
  have inv: "chan_inv s" "sub_inv s"
    using subs.reachable [OF assms] by blast+
  note sub = sub_invD [OF inv(2)]
  have "length (sub_events (ws_objs s r)) \<le> 256" for r
    using sub(1) [of r] by (simp add: sub_shape_def subEventBuffer_def)
  with inv(1) sub(3,5,6,9) show ?thesis
    by (auto simp: chan_inv_def fresh_chan_def list_all_iff subs_of_conv)
qed

theorem ws_state_invariant_witness:
  "\<exists>s. ws_reachable s \<and> ws_subs s = [(TopicBlock, [0])] \<and> length (sub_events (ws_objs s 0)) \<le> 256 \<and>
     \<not> sub_closed (ws_objs s 0)"
proof -
  obtain s where s: "ws_reachable s" "ws_subs s = [(TopicBlock, [0])]"
    by (rule subscribed_reachable)
  moreover have "0 \<in> set (subs_of s TopicBlock)"
    using s(2) by (simp add: subs_of_def)
  ultimately show ?thesis
    using ws_state_invariant [OF s(1)] by blast
qed

text \<open>
  C17 (liveness). When the connection fails, the tear-down completes whatever the callers do meanwhile.
  In any run that follows, the client does not panic, and the read loop needs a number of steps of its
  own that is settled by the calls queued and the subscriptions registered at the failure; until it has
  taken them it can always take the next one. Once it has, it has stopped, the connection is closed, the
  channel of every call that was queued is closed, the event channel of every subscription that was
  registered is closed, and every call that waits for a response can return at once with the reason of
  the failure.
\<close>

theorem teardown_completes:
  assumes "ws_reachable s" and "ws_exec (RecvErr err allSubs) s = Some s1" and "ws_execs ls s1 = Some s2"
  shows "\<not> ws_panic s2 \<and> count_list ls ReaderStep \<le> length (ws_pending s) + length allSubs + 4 \<and>
    (count_list ls ReaderStep < length (ws_pending s) + length allSubs + 4 \<longrightarrow>
       (\<exists>s3. ws_exec ReaderStep s2 = Some s3)) \<and>
    (count_list ls ReaderStep = length (ws_pending s) + length allSubs + 4 \<longrightarrow>
       ws_reader s2 = RStopped \<and> ws_connClosed s2 \<and> ws_closed s2 \<and>
       (\<forall>ch \<in> set (ws_pending s). rc_closed (ws_chans s2 ch)) \<and>
       (\<forall>topic. \<forall>r \<in> set (subs_of s topic). sub_closed (ws_objs s2 r)) \<and>
       (\<forall>t cl ch. ws_threads s2 t = AtWait cl ch \<longrightarrow>
          ws_exec (Await t GotDone) s2 = Some (afterRoundTrip s2 t cl (Inl (closeReason s2)))))"
proof -
  have inv: "chan_inv s" "sub_inv s"
    using subs.reachable [OF assms(1)] by blast+
  note down = teardown_down [OF inv assms(2)]
  have inv1: "chan_inv s1 \<and> sub_inv s1"
    using subs.I_step inv assms(2) by blast
  note run = down_run [OF assms(3) inv1 down(1,2), unfolded down(3)]
  have "\<exists>s3. ws_exec ReaderStep s2 = Some s3"
    if "count_list ls ReaderStep < length (ws_pending s) + length allSubs + 4"
    using reader_not_stuck [of s2] run that by auto
  moreover have stopped: "ws_reader s2 = RStopped"
    if "count_list ls ReaderStep = length (ws_pending s) + length allSubs + 4"
    using run that by (cases "ws_reader s2") (auto simp: down_inv_def)
  moreover have "ws_connClosed s2 \<and> ws_closed s2 \<and> (\<forall>ch \<in> set (ws_pending s). rc_closed (ws_chans s2 ch)) \<and>
      (\<forall>topic. \<forall>r \<in> set (subs_of s topic). sub_closed (ws_objs s2 r))" "ws_done s2"
    if "ws_reader s2 = RStopped"
    using run that down(4) by (auto simp: down_inv_def chan_inv_def)
  moreover have "ws_exec (Await t GotDone) s2 = Some (afterRoundTrip s2 t cl (Inl (closeReason s2)))"
    if "ws_threads s2 t = AtWait cl ch" "ws_done s2" for t cl ch
    using run that by (simp add: ws_exec_def roundTrip_wait_def)
  ultimately show ?thesis
    using run by auto
qed

theorem teardown_completes_witness:
  "\<exists>s s1 s2. ws_reachable s \<and> ws_exec (RecvErr (External ''EOF'') [0]) s = Some s1 \<and>
     ws_execs ([StartUnsubscribe 1 0, ReaderStep, Enqueue 1, ReaderStep, ReaderStep] @
       [Unlink 1, CloseEvents 1, ReaderStep, ReaderStep]) s1 = Some s2 \<and>
     ws_reader s2 = RStopped \<and> sub_closed (ws_objs s2 0) \<and> \<not> ws_panic s2"
proof -
  let ?ls = "[StartUnsubscribe 1 0, ReaderStep, Enqueue 1, ReaderStep, ReaderStep] @
       [Unlink 1, CloseEvents 1, ReaderStep, ReaderStep]"
  have "\<exists>s s1 s2. ws_execs subscribeRun ws_init = Some s \<and> ws_exec (RecvErr (External ''EOF'') [0]) s = Some s1 \<and>
      ws_execs ?ls s1 = Some s2 \<and> ws_pending s = [] \<and> subs_of s TopicBlock = [0]"
    by (simp add: subscribeRun_def ws_run_simps registered_def teardown_def close_done_def)
  then obtain s s1 s2 where s: "ws_reachable s" "ws_exec (RecvErr (External ''EOF'') [0]) s = Some s1"
      "ws_execs ?ls s1 = Some s2" "ws_pending s = []" "subs_of s TopicBlock = [0]"
    using ws_reachable_execs [OF ws_reachable.init] by blast
  from teardown_completes [OF s(1-3)] s(4) have "\<not> ws_panic s2" "ws_reader s2 = RStopped"
      "\<forall>topic. \<forall>r \<in> set (subs_of s topic). sub_closed (ws_objs s2 r)"
    by simp_all
  moreover from this(3) s(5) have "sub_closed (ws_objs s2 0)"
    by (auto dest: spec [of _ TopicBlock])
  ultimately show ?thesis
    using s(1-3) by blast
qed

text \<open>
  The typed accessors of an event accept exactly the events of their own topics.
\<close>

theorem event_accessors:
  "(\<exists>b. Event_Block e = Inr b) \<longleftrightarrow>
     ev_Topic e = ''block'' \<and> (\<exists>v b. ev_Data e = Some v \<and> un_BlockEvent v zero_BlockEvent = Inr b)"
  "(\<exists>x. Event_Transactions e = Inr x) \<longleftrightarrow>
     ev_Topic e \<in> {''rolledback_transactions'', ''reapplied_transactions''} \<and>
     (\<exists>v x. ev_Data e = Some v \<and> un_TransactionsEvent v zero_TransactionsEvent = Inr x)"
  by (auto simp: Event_Block_def Event_Transactions_def decodeEvent_def TopicBlock_def
      TopicRolledbackTransactions_def TopicReappliedTransactions_def split: option.splits sum.splits)

end
