(* ===== verification/Spec2Isabelle.thy ===== *)
theory Spec2Isabelle
  imports Arch_Compile_Correct Arch_System Arch_Token Arch_Loader Arch_Transaction Arch_Pda Arch_Rpc_Node
    Arch_Websocket_Runs
begin

text \<open>
  A verification of arch-go, the Go SDK of the Arch network. The SDK builds instructions, compiles them
  into messages, signs the messages with BIP-322 Taproot signatures, serialises the transactions, and
  talks to a node: by JSON-RPC over HTTP and by a WebSocket on which events are subscribed.

  \<^bold>\<open>Parts of the program and where they are modelled.\<close> A caller makes \<open>Instruction\<close>s with the builders of
  the programs it wants to call, compiles them with \<open>NewSanitizedMessage\<close>, hands the message and the
  private keys to \<open>BuildAndSignTransaction\<close>, and submits the transaction with the client.

  \<^item> \<open>Arch_Prelude\<close>: machine words, Go errors as values, the type \<open>byte_array\<close> of Go's \<open>[N]byte\<close>, the
    little-endian encoders, and the interface \<open>byte_codec\<close> of a binary encoding (a decoder that returns
    the unread bytes undoes the encoder), from which prefix-freeness and injectivity follow.
  \<^item> \<open>Go_Hex\<close>, \<open>Go_Sha256\<close>, \<open>Go_Json\<close>, \<open>Go_Json_Text\<close>: what the SDK uses of \<open>encoding/hex\<close>,
    \<open>crypto/sha256\<close> and \<open>encoding/json\<close>, all executable. \<open>Go_Json\<close> decodes JSON values into Go variables
    and states the interface \<open>json_type\<close> (decoding undoes encoding); \<open>Go_Json_Text\<close> prints values as
    \<open>Marshal\<close> does and reads texts as \<open>Unmarshal\<close> does, and shows that reading undoes printing.
  \<^item> \<open>Arch_Pubkey\<close>: \<open>pubkey.go\<close> and the program ids of \<open>constants.go\<close>.
  \<^item> \<open>Arch_Message\<close>: \<open>message.go\<close>, the structs, their binary form and the digest that is signed.
  \<^item> \<open>Arch_Compile\<close>: \<open>compile.go\<close>, \<open>NewSanitizedMessage\<close> loop by loop. The iteration order of Go's map is
    an argument. Sorting is reached through the interface \<open>slice_sort\<close>. \<open>Arch_Compile_Correct\<close> gives the
    set-level specification \<open>compile_spec\<close> and shows that the loops refine it for every map order.
  \<^item> \<open>Arch_System\<close>, \<open>Arch_Token\<close>, \<open>Arch_Loader\<close>: the instruction builders of \<open>system.go\<close>, \<open>token.go\<close> and
    \<open>loader.go\<close>, one definition per builder, and decoders of their documented data layouts.
  \<^item> \<open>Arch_Keys\<close>, \<open>Arch_Bip322\<close>: \<open>keys.go\<close> and \<open>bip322.go\<close> over the Bitcoin libraries, which are the
    record \<open>btclib\<close> of functions; \<open>Arch_Transaction\<close>: \<open>transaction.go\<close>; \<open>Arch_Pda\<close>: \<open>pda.go\<close>.
  \<^item> \<open>Arch_Json\<close>: \<open>bytes.go\<close> and the wire structs of \<open>types.go\<close> and \<open>message.go\<close>, each with its encoder
    \<open>mar_S\<close>, its decoder \<open>un_S\<close> and its zero value \<open>zero_S\<close>, after the JSON tags.
  \<^item> \<open>Arch_Rpc\<close>: \<open>rpc.go\<close> and the method names; every method of the client. The HTTP client is a field of
    the record \<open>Client\<close>: a function from URL, content type and body bytes to a response. \<open>Arch_Rpc_Node\<close>
    describes a node by one function per method and shows that the client refines it.
  \<^item> \<open>Arch_Websocket\<close>: \<open>websocket.go\<close> as a state machine. The record \<open>WSClient\<close> has the fields of the Go
    struct, the channels and subscriptions it refers to, and the program counters of the read loop and
    of every calling goroutine. A step (\<open>ws_exec\<close>) is one critical section, one channel operation, or the
    beginning or the end of a write under the write mutex; a label says who moves and settles what the
    code leaves open: which ready case a select takes, the connection's part in the outcome of a write,
    which bytes arrive, in which order a map is traversed. A panic is a flag after which nothing moves.
    \<open>Arch_Websocket_Correct\<close> has the invariants (interface \<open>ws_invariant\<close>), \<open>Arch_Websocket_Order\<close> the order
    of writes, \<open>Arch_Websocket_Progress\<close> who waits for whom and how long the read loop takes,
    \<open>Arch_Websocket_Events\<close> the flow of events from the connection to their consumers,
    \<open>Arch_Websocket_Runs\<close> concrete runs and the properties.
  \<^item> This theory: the path from instructions to a submitted transaction.

  \<^bold>\<open>What the theorems show.\<close> Compilation: refinement of the specification, privileges
  encoded by position and header, the canonical order of keys, well-formed messages, instructions recovered from
  their indices, and the exact condition of the overflow error. Binary forms: every encoder has a left inverse
  and is prefix-free where its counts fit; digests and transaction ids bind what they hash up to a collision of
  SHA-256, which is stated as such. Signing: what \<open>BuildAndSignTransaction\<close> returns and exactly
  when it fails; signatures verify under the laws of the library named below. Derived addresses: the search
  returns the largest viable bump, and with the parser the SDK uses this is always 255. Builders: data, signers
  and writable accounts of every instruction, and that the payload bound of the loader is exact. JSON: wire
  types survive the bytes (interface \<open>json_wire\<close>); every method of the client, run against a node
  over those bytes, is a call of the node's function of that name; and over any HTTP client a lookup
  answers nil only for the node's missing-entity code or a null result. WebSocket, in every interleaving:
  the only possible panic, response order, the order and delivery of events, bounded buffers, what a caller
  that cannot move is waiting for, a bound on the read loop's reaction to each message, and a tear-down that
  completes. Two concrete runs go wrong: a send on a closed channel, and responses crossed between
  concurrent calls.

  \<^bold>\<open>Parameters and hypotheses.\<close> Code outside the repository is a parameter. The laws of the
  Bitcoin libraries are \<open>signing_total\<close> (a key can sign), \<open>signature_shape\<close> (64 bytes
  and the sighash byte), \<open>engine_accepts\<close> (the script engine accepts an input with an empty signature
  script whose witness is a Schnorr signature of the output's key) and \<open>parse_rejects_32\<close> (a public key is not parsed from 32 bytes);
  \<open>toyLib\<close> satisfies them, and witnesses use it. A node is any handler whose error codes fit Go's
  \<open>int\<close> and whose values can be printed (\<open>node_ok\<close>); statements about any HTTP client assume that its
  own errors are not \<open>RPCError\<close>s (\<open>plain_transport\<close>).

  \<^bold>\<open>Bounds.\<close> All loops are structural or have a termination proof; no fuel is used. JSON
  texts nest up to 10000 levels, Go's own limit, and the wire types need at most ten. Counts are kept at
  their width: u32 lengths wrap, the signature count wraps at 256, and the theorems name the range in which they
  do not.

  \<^bold>\<open>Not modelled.\<close> The random bytes that key generation reads are an argument. HTTP
  transport, dialing and WebSocket framing belong to libraries: their outcomes are arguments and labels.
  A write to the WebSocket may block for ever, so no theorem says that a write ends; what a failed write
  leaves on the connection is not tracked, and nothing is assumed about the writes after it.
  \<open>Close\<close> of response bodies has no effect on results. Nil and empty slices are identified except
  where the code tells them apart; field names of structs are folded for ASCII letters only; a slice decoded
  twice because its member is repeated starts afresh the second time; which of several decoding errors in one
  document is reported is not tracked; a raw JSON message is kept as the value it denotes rather than as its
  bytes.
\<close>

section \<open>From instructions to a signed transaction\<close>

lemma required_keys:
  assumes "compile_spec ixs payer bh = Inr m"
  shows "unat (hd_NumRequiredSignatures (msg_Header m)) \<le> length (msg_AccountKeys m)"
    and "set (take (unat (hd_NumRequiredSignatures (msg_Header m))) (msg_AccountKeys m)) =
      {k \<in> referenced ixs payer. key_signer ixs payer k}"
proof -
  note facts = compile_spec_Inr [OF assms]
  let ?ks = "spec_keys ixs payer" and ?n = "spec_signers ixs payer"
  have n: "?n \<le> length ?ks"
    by (simp add: spec_signers_def)
  then show "unat (hd_NumRequiredSignatures (msg_Header m)) \<le> length (msg_AccountKeys m)"
    by (simp add: facts)
  have "set (take ?n ?ks) = (!) ?ks ` {0..<?n}"
    using nth_image [OF n] by simp
  also have "\<dots> = {k \<in> set ?ks. key_signer ixs payer k}"
    using role_of_index(1) [of _ ixs payer] n
    by (auto simp: in_set_conv_nth) (rule exI, rule conjI [rotated], rule refl, simp)
  finally show "set (take (unat (hd_NumRequiredSignatures (msg_Header m))) (msg_AccountKeys m)) =
      {k \<in> referenced ixs payer. key_signer ixs payer k}"
    by (simp add: facts set_spec_keys)
qed

text \<open>Instruction lists whose counts fit the u32 fields of the message format.\<close>

definition ixs_fit :: "Instruction list \<Rightarrow> bool" where
  "ixs_fit ixs \<longleftrightarrow> length ixs < 2 ^ 32 \<and>
     list_all (\<lambda>ix. length (ix_Accounts ix) < 2 ^ 32 \<and> length (ix_Data ix) < 2 ^ 32) ixs"

lemma compiled_ok_message:
  assumes "compile_spec ixs payer bh = Inr m" and "ixs_fit ixs"
  shows "ok_message m"
  using assms(2) compile_spec_Inr [OF assms(1)]
  by (simp add: ok_message_def ok_instruction_def ixs_fit_def spec_instruction_def list_all_iff)

lemma signed_tx_ok:
  assumes "BuildAndSignTransaction L m signers = Inr tx" and "ok_message m"
  shows "ok_tx tx"
proof -
  have "rt_Message tx = m"
    and "length (rt_Signatures tx) \<le> unat (hd_NumRequiredSignatures (msg_Header m))"
    using assms(1) by (auto simp: BuildAndSign_Inr_iff dest!: list_all2_lengthD)
  moreover have "unat (hd_NumRequiredSignatures (msg_Header m)) < 256"
    using unsigned_less [where 'a = nat, of "hd_NumRequiredSignatures (msg_Header m)"] by simp
  ultimately show ?thesis
    using assms(2) by (simp add: ok_tx_def)
qed

text \<open>
  C3 (functional). End to end: any instruction list that compiles can be turned into a transaction by
  anyone who holds a private key for the payer and for every key some instruction lists as a signer.
  The transaction carries one valid signature per such key and no other, its binary form decodes back
  to it, and submitting it to a conforming node hands the node's handler parameters from which it
  decodes that very transaction, and returns what the handler answers.
\<close>

theorem compile_sign_submit:
  assumes "map_order ord" and "signing_total L" and "signature_shape L" and "engine_accepts L"
    and "ixs_fit ixs" and "NewSanitizedMessage ord ixs payer bh = Inr m"
    and "{k \<in> referenced ixs payer. key_signer ixs payer k} \<subseteq> XOnlyPubkey L ` set signers"
    and "node_ok h"
  shows "\<exists>tx. BuildAndSignTransaction L m signers = Inr tx \<and>
    length (rt_Signatures tx) = card {k \<in> referenced ixs payer. key_signer ixs payer k} \<and>
    list_all2 (\<lambda>key sig. VerifyMessageBIP322 L (Message_Hash m) key sig True = Inr ())
      (take (length (rt_Signatures tx)) (msg_AccountKeys m)) (rt_Signatures tx) \<and>
    set (take (length (rt_Signatures tx)) (msg_AccountKeys m)) =
      {k \<in> referenced ixs payer. key_signer ixs payer k} \<and>
    dec_tx (Tx_Serialize tx) = Some (tx, []) \<and>
    (\<exists>params. un_RuntimeTransaction params zero_RuntimeTransaction = Inr tx \<and>
       SendTransaction (node_client h) tx =
         (case h ''send_transaction'' (Some params) of
            Inl (code, msg) \<Rightarrow> Inl (RPCErr code msg)
          | Inr v \<Rightarrow> (case un_string v [] of
              Inl err \<Rightarrow> Inl (WrapErr ''unmarshaling send_transaction result: %w'' err) | Inr x \<Rightarrow> Inr x)))"
proof -
  let ?n = "unat (hd_NumRequiredSignatures (msg_Header m))"
  have spec: "compile_spec ixs payer bh = Inr m"
    using assms(1,6) NewSanitizedMessage_spec_eq by metis
  note req = required_keys [OF spec]
  have "find (\<lambda>k. k \<notin> XOnlyPubkey L ` set signers) (take ?n (msg_AccountKeys m)) = None"
    using assms(7) req(2) by (auto simp: find_None_iff)
  then have "BuildAndSignTransaction L m signers \<noteq> Inl e" for e
    using req(1) by (simp add: BuildAndSign_Inl_iff [OF assms(2,3)] Let_def)
  then obtain tx where tx: "BuildAndSignTransaction L m signers = Inr tx"
    by (cases "BuildAndSignTransaction L m signers") auto
  then have signed: "list_all2 (signed_by L signers (Message_Hash m))
      (take ?n (msg_AccountKeys m)) (rt_Signatures tx)"
    by (simp add: BuildAndSign_Inr_iff)
  then have len: "length (rt_Signatures tx) = ?n"
    using req(1) by (auto dest!: list_all2_lengthD)
  have "list_all2 (\<lambda>key sig. VerifyMessageBIP322 L (Message_Hash m) key sig True = Inr ())
      (take ?n (msg_AccountKeys m)) (rt_Signatures tx)"
    using signed by (rule list_all2_mono) (rule signed_by_verifies [OF assms(3,4)])
  moreover have "dec_tx (Tx_Serialize tx) = Some (tx, [])"
    using codec_tx.dec_enc_Nil signed_tx_ok [OF tx] compiled_ok_message [OF spec assms(5)] by blast
  moreover have "?n = card {k \<in> referenced ixs payer. key_signer ixs payer k}"
    using compile_spec_Inr(4) [OF spec] by (simp add: spec_signers_card)
  ultimately show ?thesis
    using tx len req(2) SendTransaction_node [OF assms(8), of tx] by auto
qed

lemma example_signers:
  "{k \<in> referenced [exampleInstruction] (Some (pk 200)). key_signer [exampleInstruction] (Some (pk 200)) k}
     \<subseteq> XOnlyPubkey toyLib ` set [pk 5, pk 200, pk 40, pk 2]"
  by (auto simp: key_signer_def exampleInstruction_def XOnlyPubkey_def toyLib_def)

theorem compile_sign_submit_witness:
  "\<exists>tx. BuildAndSignTransaction toyLib exampleMessage [pk 5, pk 200, pk 40, pk 2] = Inr tx \<and>
    dec_tx (Tx_Serialize tx) = Some (tx, []) \<and> SendTransaction (node_client sampleNode) tx = Inr ''deadbeef''"
proof -
  have "ixs_fit [exampleInstruction]"
    by (simp add: ixs_fit_def exampleInstruction_def)
  from compile_sign_submit [OF map_order_rev toyLib_laws this compile_example example_signers sampleNode_ok]
  obtain tx params where "BuildAndSignTransaction toyLib exampleMessage [pk 5, pk 200, pk 40, pk 2] = Inr tx"
      "dec_tx (Tx_Serialize tx) = Some (tx, [])"
      "SendTransaction (node_client sampleNode) tx =
         (case sampleNode ''send_transaction'' (Some params) of
            Inl (code, msg) \<Rightarrow> Inl (RPCErr code msg)
          | Inr v \<Rightarrow> (case un_string v [] of
              Inl err \<Rightarrow> Inl (WrapErr ''unmarshaling send_transaction result: %w'' err) | Inr x \<Rightarrow> Inr x))"
    by blast
  then show ?thesis
    by (simp add: sampleNode_def Method_defs un_string_def)
qed

text \<open>
  A transfer paid for by its source compiles to the keys source, destination, system
  program, with one required signature (the source), the destination writable without signing, the
  program readonly; the instruction refers to program 2 and accounts 0 and 1, and its data decodes to
  the amount.
\<close>

theorem Transfer_compiled:
  assumes "map_order ord" and "distinct [from, to, SystemProgramID]"
  shows "\<exists>m. NewSanitizedMessage ord [Transfer from to lamports] (Some from) bh = Inr m \<and>
    msg_AccountKeys m = [from, to, SystemProgramID] \<and>
    msg_Header m = \<lparr>hd_NumRequiredSignatures = 1, hd_NumReadonlySignedAccounts = 0,
      hd_NumReadonlyUnsignedAccounts = 1\<rparr> \<and> msg_RecentBlockhash m = bh \<and>
    (\<exists>d. msg_Instructions m = [\<lparr>si_ProgramIDIndex = 2, si_Accounts = [0, 1], si_Data = d\<rparr>] \<and>
       dec_system d = Some (SysTransfer lamports, []))"
proof -
  let ?ixs = "[Transfer from to lamports]" and ?p = "Some from"
  have ref: "referenced ?ixs ?p - set_option ?p = {to, SystemProgramID}"
    using assms(2) by (auto simp: referenced_def ix_keys_def Transfer_def Let_def)
  have roles: "key_signer ?ixs ?p k \<longleftrightarrow> k = from" "key_writable ?ixs ?p k \<longleftrightarrow> k \<in> {from, to}" for k
    by (auto simp: key_signer_def key_writable_def Transfer_def Let_def)
  have groups: "spec_group ?ixs ?p True w = []" "spec_group ?ixs ?p False True = [to]"
      "spec_group ?ixs ?p False False = [SystemProgramID]" for w
    using assms(2) unfolding spec_group_def ref roles
    by (auto simp: filter_empty_conv sorted_list_of_set_insert_remove insort_key.simps insert_Diff_if)
  have keys: "spec_keys ?ixs ?p = [from, to, SystemProgramID]"
    by (simp add: spec_keys_def payer_list_def groups)
  have n: "spec_signers ?ixs ?p = 1"
    by (simp add: spec_signers_length payer_list_def groups)
  have si: "spec_instruction [from, to, SystemProgramID] (Transfer from to lamports) =
      \<lparr>si_ProgramIDIndex = 2, si_Accounts = [0, 1], si_Data = enc_system (SysTransfer lamports)\<rparr>"
    using assms(2) by (simp add: spec_instruction_def position_def Transfer_def append_helpers sys_tags
      Let_def)
  have "dec_system (enc_system (SysTransfer lamports)) = Some (SysTransfer lamports, [])"
    by (rule codec_system.dec_enc_Nil) simp
  then show ?thesis
    unfolding NewSanitizedMessage_spec_eq [OF assms(1)] compile_spec_def Let_def keys n groups
    by (simp add: si)
qed

theorem Transfer_compiled_witness:
  "\<exists>m. NewSanitizedMessage rev [Transfer (pk 9) (pk 3) 10] (Some (pk 9)) (copy_into []) = Inr m \<and>
     msg_AccountKeys m = [pk 9, pk 3, SystemProgramID]"
proof -
  have "distinct [pk 9, pk 3, SystemProgramID]"
    by (simp add: pk_def SystemProgramID_def bytes_of_copy_into replicate_numeral_step flip: bytes_of_eq_iff)
  from Transfer_compiled [OF map_order_rev this] show ?thesis by blast
qed

end
